(* ===== verification/Pack_Prelude.thy ===== *)
theory Pack_Prelude
  imports Main
begin

text \<open>
  Shared vocabulary of the development.

  \<^item> The Python exceptions the script can raise, as values of \<open>py_error\<close>
    (\<open>os_error\<close> for the subclasses of \<^verbatim>\<open>OSError\<close>), and \<open>'a result\<close> for a
    computation that returns or raises.
  \<^item> \<open>('a, 's) exec\<close>: a statement that runs in a state \<open>'s\<close>, leaves a state
    behind and either returns or raises. An exception keeps the state reached
    when it was raised, because what the script did before it failed (the
    processes it started, the directories it made) stays done.
  \<^item> \<open>pyval\<close>: the values that the attributes of the parsed command line can
    have: \<^verbatim>\<open>None\<close>, a string, or a list of strings.
  \<^item> \<open>getitem\<close>: Python's list indexing, negative indices included.
  \<^item> The fact collection \<open>pack_defs\<close>, which the component theories extend with
    the definitions that unfold when a closed term is evaluated.
\<close>

section \<open>Fact collections\<close>

named_theorems pack_defs "definitions of the model that unfold when a closed term is evaluated"

section \<open>Exceptions as values\<close>

datatype os_error = FileNotFoundError | NotADirectoryError | FileExistsError | PermissionError

datatype py_error =
    CalledProcessError int "string list"
  | OSError os_error
  | IndexError
  | ValueError
  | TypeError
  | SystemExit int

type_synonym 'a result = "py_error + 'a"

section \<open>Python values\<close>

datatype pyval = PyNone | is_PyStr: PyStr (str_of: string) | PyList "string list"

type_synonym ('a, 's) exec = "'s \<Rightarrow> 'a result \<times> 's"

definition return_exec :: "'a \<Rightarrow> ('a, 's) exec" where
  "return_exec v = (\<lambda>s. (Inr v, s))"

definition raise_exec :: "py_error \<Rightarrow> ('a, 's) exec" where
  "raise_exec e = (\<lambda>s. (Inl e, s))"

definition bind_exec :: "('a, 's) exec \<Rightarrow> ('a \<Rightarrow> ('b, 's) exec) \<Rightarrow> ('b, 's) exec" where
  "bind_exec m f = (\<lambda>s. case m s of (Inl e, s') \<Rightarrow> (Inl e, s') | (Inr v, s') \<Rightarrow> f v s')"

definition lift_result :: "'a result \<Rightarrow> ('a, 's) exec" where
  "lift_result r = (\<lambda>s. (r, s))"

abbreviation returned :: "'a result \<Rightarrow> bool" where
  "returned r \<equiv> \<not> isl r"

section \<open>Python list indexing\<close>

definition getitem :: "'a list \<Rightarrow> int \<Rightarrow> 'a result" where
  "getitem xs i =
     (if 0 \<le> i \<and> i < int (length xs) then Inr (xs ! nat i)
      else if i < 0 \<and> - int (length xs) \<le> i then Inr (xs ! nat (int (length xs) + i))
      else Inl IndexError)"

section \<open>Laws of sequencing\<close>

lemma bind_exec_return [simp]: "bind_exec (return_exec v) f = f v"
  by (simp add: bind_exec_def return_exec_def)

lemma bind_exec_raise [simp]: "bind_exec (raise_exec e) f = raise_exec e"
  by (simp add: bind_exec_def raise_exec_def)

lemma bind_exec_return_right [simp]: "bind_exec m return_exec = m"
  by (auto simp: bind_exec_def return_exec_def fun_eq_iff split: prod.splits sum.splits)

lemma bind_exec_assoc:
  "bind_exec (bind_exec m f) g = bind_exec m (\<lambda>v. bind_exec (f v) g)"
  by (auto simp: bind_exec_def fun_eq_iff split: prod.splits sum.splits)

lemma bind_exec_Inl [simp]: "m s = (Inl e, s') \<Longrightarrow> bind_exec m f s = (Inl e, s')"
  by (simp add: bind_exec_def)

lemma bind_exec_Inr [simp]: "m s = (Inr v, s') \<Longrightarrow> bind_exec m f s = f v s'"
  by (simp add: bind_exec_def)

lemma bind_exec_eq_Inr:
  "bind_exec m f s = (Inr w, t) \<longleftrightarrow> (\<exists>v s'. m s = (Inr v, s') \<and> f v s' = (Inr w, t))"
  by (auto simp: bind_exec_def split: prod.splits sum.splits)

lemma bind_exec_eq_Inl:
  "bind_exec m f s = (Inl e, t) \<longleftrightarrow>
     m s = (Inl e, t) \<or> (\<exists>v s'. m s = (Inr v, s') \<and> f v s' = (Inl e, t))"
  by (auto simp: bind_exec_def split: prod.splits sum.splits)

lemma bind_exec_preserves:
  assumes "bind_exec m f s = (r, s')" and "P s"
    and "\<And>r1 s1. m s = (r1, s1) \<Longrightarrow> P s1"
    and "\<And>v s1 r2 s2. P s1 \<Longrightarrow> f v s1 = (r2, s2) \<Longrightarrow> P s2"
  shows "P s'"
proof (cases "m s")
  case (Pair r1 s1)
  with assms(3) have "P s1" by blast
  with assms(1,4) Pair show ?thesis
    by (cases r1) (auto simp: bind_exec_def)
qed

lemma return_exec_apply [simp]: "return_exec v s = (Inr v, s)"
  by (simp add: return_exec_def)

lemma raise_exec_apply [simp]: "raise_exec e s = (Inl e, s)"
  by (simp add: raise_exec_def)

lemma lift_result_apply [simp]: "lift_result r s = (r, s)"
  by (simp add: lift_result_def)

section \<open>Indexing\<close>

lemma getitem_nonneg:
  "0 \<le> i \<Longrightarrow> getitem xs i = (if nat i < length xs then Inr (xs ! nat i) else Inl IndexError)"
  by (auto simp: getitem_def)

lemma getitem_last: "getitem xs (- 1) = (if xs = [] then Inl IndexError else Inr (last xs))"
proof (cases xs rule: rev_cases)
  case Nil
  then show ?thesis by (simp add: getitem_def)
next
  case (snoc ys y)
  then have "nat (int (length xs) + - 1) = length ys" by simp
  with snoc show ?thesis by (simp add: getitem_def)
qed

lemma getitem_in_set: "getitem xs i = Inr x \<Longrightarrow> x \<in> set xs"
  by (auto simp: getitem_def split: if_splits)

lemma getitem_Nil [simp]: "getitem [] i = Inl IndexError"
  by (simp add: getitem_def)

section \<open>Lists\<close>

lemma sorted_map_const: "\<forall>y\<in>set ys. f y = (c::nat) \<Longrightarrow> sorted (map f ys)"
  by (induction ys) auto

lemma distinct_subseqs: "distinct xs \<Longrightarrow> distinct (subseqs xs)"
  using distinct_set_subseqs [of xs] by (simp add: distinct_map)

end
