(* ===== verification/Pack_Flags.thy ===== *)
theory Pack_Flags
  imports Pack_Prelude
begin

text \<open>
  The flag enumeration of \<^verbatim>\<open>tes4_pack.py\<close> (class \<^verbatim>\<open>Flags\<close>, an
  \<^verbatim>\<open>enum.IntFlag\<close>): its four members, the integer each one stands for
  (written as the shifts of the source), the order in which iterating the
  class yields them, the check that the \<^verbatim>\<open>@enum.unique\<close> decorator makes
  when the class is created, and the order of members as integers. \<open>flag_bit\<close>
  names the shift count of each member, for the statements. The lemmas
  show that the values are four different single bits inside the mask
  \<open>0x107\<close>, so that the bitwise union of any set of flags determines the set.
\<close>

unbundle bit_operations_syntax

section \<open>The enumeration\<close>

datatype Flags = directory_strings | file_strings | compressed | embedded_file_names

fun flag_value :: "Flags \<Rightarrow> int" where
  "flag_value directory_strings = push_bit 0 1"
| "flag_value file_strings = push_bit 1 1"
| "flag_value compressed = push_bit 2 1"
| "flag_value embedded_file_names = push_bit 8 1"

fun flag_bit :: "Flags \<Rightarrow> nat" where
  "flag_bit directory_strings = 0"
| "flag_bit file_strings = 1"
| "flag_bit compressed = 2"
| "flag_bit embedded_file_names = 8"

definition members :: "Flags list" where
  "members = [directory_strings, file_strings, compressed, embedded_file_names]"

definition unique :: "Flags list \<Rightarrow> Flags list result" where
  "unique enumeration =
     (if distinct (map flag_value enumeration) then Inr enumeration else Inl ValueError)"

text \<open>Members of an \<^verbatim>\<open>IntFlag\<close> are integers and compare as such.\<close>

instantiation Flags :: linorder
begin

definition less_eq_Flags :: "Flags \<Rightarrow> Flags \<Rightarrow> bool" where
  "less_eq_Flags a b \<longleftrightarrow> flag_value a \<le> flag_value b"

definition less_Flags :: "Flags \<Rightarrow> Flags \<Rightarrow> bool" where
  "less_Flags a b \<longleftrightarrow> flag_value a < flag_value b"

instance
proof
  fix x y z :: Flags
  show "x < y \<longleftrightarrow> x \<le> y \<and> \<not> y \<le> x"
    by (auto simp: less_eq_Flags_def less_Flags_def)
  show "x \<le> x"
    by (simp add: less_eq_Flags_def)
  show "x \<le> y \<Longrightarrow> y \<le> z \<Longrightarrow> x \<le> z"
    by (simp add: less_eq_Flags_def)
  show "x \<le> y \<Longrightarrow> y \<le> x \<Longrightarrow> x = y"
    by (cases x; cases y) (simp_all add: less_eq_Flags_def)
  show "x \<le> y \<or> y \<le> x"
    by (auto simp: less_eq_Flags_def)
qed

end

section \<open>The values\<close>

lemma flag_value_numeral [pack_defs]:
  "flag_value directory_strings = 1"
  "flag_value file_strings = 2"
  "flag_value compressed = 4"
  "flag_value embedded_file_names = 256"
  by simp_all

lemma flag_value_pos: "0 < flag_value f"
  by (cases f) simp_all

lemma flag_value_push_bit: "flag_value f = push_bit (flag_bit f) 1"
  by (cases f) simp_all

lemma bit_flag_value: "bit (flag_value f) n \<longleftrightarrow> n = flag_bit f"
  by (auto simp add: flag_value_push_bit bit_exp_iff simp del: flag_value.simps)

lemma flag_bit_eq_iff [simp]: "flag_bit f = flag_bit g \<longleftrightarrow> f = g"
  by (cases f; cases g) simp_all

lemma inj_flag_value: "inj flag_value"
proof (rule injI)
  fix f g
  assume "flag_value f = flag_value g"
  then show "f = g" by (cases f; cases g) simp_all
qed

lemma flag_value_eq_iff [simp]: "flag_value f = flag_value g \<longleftrightarrow> f = g"
  using inj_flag_value by (auto dest: injD)

lemma flag_value_disjoint: "f \<noteq> g \<Longrightarrow> flag_value f AND flag_value g = 0"
  by (cases f; cases g) simp_all

lemma flag_value_in_mask: "flag_value f AND 0x107 = flag_value f"
  by (cases f) simp_all

section \<open>The members\<close>

lemma set_members: "set members = UNIV"
proof -
  have "f \<in> set members" for f
    by (cases f) (simp_all add: members_def)
  then show ?thesis by blast
qed

lemma distinct_members: "distinct members"
  by (simp add: members_def)

lemma length_members: "length members = 4"
  by (simp add: members_def)

lemma map_flag_value_members [pack_defs]: "map flag_value members = [1, 2, 4, 256]"
  by (simp add: members_def)

lemma distinct_flag_values: "distinct (map flag_value members)"
  by (simp add: distinct_map distinct_members inj_flag_value [THEN inj_on_subset])

lemma strict_sorted_members: "sorted_wrt (<) members"
  by (simp add: members_def less_Flags_def)

section \<open>Properties\<close>

text \<open>
  C40. The class passes the check of \<^verbatim>\<open>@enum.unique\<close>: no two members have
  the same value. Iterating the class yields each of the four members exactly
  once, in the order of their values.
\<close>

theorem unique_members:
  "unique members = Inr members \<and> set members = UNIV \<and> distinct members \<and>
   sorted_wrt (<) (map flag_value members)"
  by (simp add: unique_def distinct_flag_values set_members distinct_members)
     (simp add: members_def)

text \<open>
  Every flag is a single bit: bit \<open>flag_bit f\<close> and no other. The bits of
  two different flags do not overlap, and all of them lie in the mask
  \<open>0x107\<close>.
\<close>

theorem flag_values_single_bits:
  "flag_value f = 2 ^ flag_bit f \<and> flag_value f AND 0x107 = flag_value f \<and>
   (f \<noteq> g \<longrightarrow> flag_value f AND flag_value g = 0)"
proof (intro conjI impI)
  show "flag_value f = 2 ^ flag_bit f" by (cases f) simp_all
  show "flag_value f AND 0x107 = flag_value f" by (rule flag_value_in_mask)
  show "flag_value f AND flag_value g = 0" if "f \<noteq> g" using that by (rule flag_value_disjoint)
qed

theorem flag_values_single_bits_witness:
  "flag_value embedded_file_names = 2 ^ 8 \<and> flag_value embedded_file_names AND 0x107 = 256 \<and>
   flag_value embedded_file_names AND flag_value compressed = 0"
  using flag_values_single_bits [of embedded_file_names compressed] by simp

end
