(* ===== verification/Pack_Itertools.thy ===== *)
theory Pack_Itertools
  imports Pack_Prelude "HOL-Library.Multiset" "HOL-Library.Sublist"
begin

text \<open>
  The iteration machinery that \<^verbatim>\<open>powerset\<close> and \<^verbatim>\<open>combinate\<close> of
  \<^verbatim>\<open>tes4_pack.py\<close> are written with.

  \<^item> \<open>combinations\<close>, \<open>chain_from_iterable\<close> and \<open>accumulate\<close> are the functions of
    Python's \<^verbatim>\<open>itertools\<close> that the script calls, with the results in the order
    in which Python yields them.
  \<^item> \<open>'a iterator\<close> is a one-shot iterator: the items it has not yielded yet.
    \<open>next_item\<close> is \<^verbatim>\<open>next()\<close>; \<open>None\<close> stands for \<^verbatim>\<open>StopIteration\<close>. An
    iterator that is exhausted stays exhausted, which is what makes a second
    loop over the same iterator run no iteration at all.
  \<^item> \<open>powerset\<close> is the script's function of that name. It returns an iterator,
    as \<^verbatim>\<open>itertools.chain.from_iterable\<close> does.
  \<^item> \<open>for_iter\<close> is a \<^verbatim>\<open>for\<close> statement over an iterator, \<open>for_in\<close> one over a
    tuple or list. Both stop at the first iteration whose body raises.

  The lemmas characterise \<open>combinations\<close> as the subsequences of a given
  length in lexicographic order of positions, \<open>powerset\<close> as a rearrangement of all subsequences by increasing
  length, \<open>accumulate\<close> as the list of running folds, and the two loops as
  the same fail-fast traversal.
\<close>

section \<open>itertools\<close>

fun combinations :: "'a list \<Rightarrow> nat \<Rightarrow> 'a list list" where
  "combinations xs 0 = [[]]"
| "combinations [] (Suc r) = []"
| "combinations (x # xs) (Suc r) =
     map ((#) x) (combinations xs r) @ combinations xs (Suc r)"

datatype 'a iterator = Iterator (pending: "'a list")

definition next_item :: "'a iterator \<Rightarrow> ('a \<times> 'a iterator) option" where
  "next_item it = (case pending it of [] \<Rightarrow> None | x # xs \<Rightarrow> Some (x, Iterator xs))"

definition chain_from_iterable :: "'a list list \<Rightarrow> 'a iterator" where
  "chain_from_iterable xss = Iterator (concat xss)"

fun accumulate :: "'a list \<Rightarrow> ('b \<Rightarrow> 'a \<Rightarrow> 'b) \<Rightarrow> 'b \<Rightarrow> 'b list" where
  "accumulate [] func initial = [initial]"
| "accumulate (x # xs) func initial = initial # accumulate xs func (func initial x)"

section \<open>powerset\<close>

definition powerset :: "'a list \<Rightarrow> 'a list iterator" where
  "powerset a_iterable =
     (let s = a_iterable
      in chain_from_iterable (map (\<lambda>r. combinations s r) [0..<length s + 1]))"

section \<open>Loops\<close>

fun for_in :: "('a \<Rightarrow> (unit, 's) exec) \<Rightarrow> 'a list \<Rightarrow> (unit, 's) exec" where
  "for_in body [] = return_exec ()"
| "for_in body (x # xs) = bind_exec (body x) (\<lambda>_. for_in body xs)"

fun for_iter :: "('a \<Rightarrow> (unit, 's) exec) \<Rightarrow> 'a iterator \<Rightarrow> ('a iterator, 's) exec" where
  "for_iter body (Iterator []) = return_exec (Iterator [])"
| "for_iter body (Iterator (x # xs)) = bind_exec (body x) (\<lambda>_. for_iter body (Iterator xs))"

section \<open>Combinations are the subsequences of one length\<close>

lemma length_combinations: "length (combinations xs r) = length xs choose r"
  by (induction xs r rule: combinations.induct) auto

lemma filter_length_0_subseqs:
  "filter_mset (\<lambda>ys. length ys = 0) (mset (subseqs xs)) = {#[]#}"
  by (induction xs) (auto simp: Let_def filter_mset_image_mset)

lemma mset_combinations:
  "mset (combinations xs r) = filter_mset (\<lambda>ys. length ys = r) (mset (subseqs xs))"
proof (induction xs r rule: combinations.induct)
  case (1 xs)
  then show ?case using filter_length_0_subseqs [of xs] by simp
next
  case (2 r)
  then show ?case by simp
next
  case (3 x xs r)
  then show ?case by (simp add: Let_def filter_mset_image_mset)
qed

lemma set_combinations: "set (combinations xs r) = {ys. subseq ys xs \<and> length ys = r}"
proof -
  have "set (combinations xs r) = set (filter (\<lambda>ys. length ys = r) (subseqs xs))"
    by (rule mset_eq_setD) (simp add: mset_combinations)
  then show ?thesis by (simp add: set_eq_iff)
qed

lemma length_in_combinations: "ys \<in> set (combinations xs r) \<Longrightarrow> length ys = r"
  by (simp add: set_combinations)

lemma distinct_combinations:
  assumes "distinct xs"
  shows "distinct (combinations xs r)"
proof -
  from assms have "distinct (filter (\<lambda>ys. length ys = r) (subseqs xs))"
    by (simp add: distinct_subseqs)
  moreover have "mset (combinations xs r) = mset (filter (\<lambda>ys. length ys = r) (subseqs xs))"
    by (simp add: mset_combinations)
  ultimately show ?thesis
    by (rule mset_eq_imp_distinct_iff [THEN iffD2, rotated])
qed

lemma combinations_too_long: "length xs < r \<Longrightarrow> combinations xs r = []"
  by (induction xs r rule: combinations.induct) auto

lemma combinations_all: "combinations xs (length xs) = [xs]"
  by (induction xs) (auto simp: combinations_too_long)

section \<open>Combinations come in lexicographic order of positions\<close>

lemma combinations_map: "combinations (map f xs) r = map (map f) (combinations xs r)"
  by (induction xs r rule: combinations.induct) simp_all

lemma combinations_nth:
  "combinations xs r = map (map (nth xs)) (combinations [0..<length xs] r)"
  using combinations_map [of "nth xs" "[0..<length xs]" r] by (simp add: map_nth)

lemma subseq_imp_subset: "subseq ys xs \<Longrightarrow> set ys \<subseteq> set xs"
  by (auto dest: list_emb_set)

lemma sorted_wrt_subseq: "subseq ys xs \<Longrightarrow> sorted_wrt P xs \<Longrightarrow> sorted_wrt P ys"
  by (induction rule: list_emb.induct) (auto dest: subseq_imp_subset)

lemma in_combinations_Suc:
  assumes "v \<in> set (combinations xs (Suc r))"
  obtains y v' where "v = y # v'" and "y \<in> set xs"
proof -
  from assms have s: "subseq v xs" and "length v = Suc r"
    by (simp_all add: set_combinations)
  then obtain y v' where v: "v = y # v'" by (cases v) auto
  with s have "y \<in> set xs" by (auto dest: list_emb_set)
  with v that show ?thesis by blast
qed

lemma sorted_wrt_lexordp_combinations:
  fixes xs :: "'a :: linorder list"
  assumes "sorted_wrt (<) xs"
  shows "sorted_wrt ord_class.lexordp (combinations xs r)"
  using assms
proof (induction xs r rule: combinations.induct)
  case (3 x xs r)
  then have "sorted_wrt ord_class.lexordp (combinations xs r)"
    "sorted_wrt ord_class.lexordp (combinations xs (Suc r))"
    and x: "\<forall>y\<in>set xs. x < y"
    by simp_all
  moreover have "ord_class.lexordp (x # u) v" if "v \<in> set (combinations xs (Suc r))" for u v
    using that x by (auto elim!: in_combinations_Suc)
  ultimately show ?case
    by (simp add: sorted_wrt_append sorted_wrt_map)
qed simp_all

lemma strictly_increasing_combinations:
  fixes xs :: "'a :: linorder list"
  assumes "sorted_wrt (<) xs" and "ys \<in> set (combinations xs r)"
  shows "sorted_wrt (<) ys"
  using assms by (auto simp: set_combinations intro: sorted_wrt_subseq)

section \<open>The power set is every subsequence once, shortest first\<close>

lemma pending_powerset:
  "pending (powerset xs) = concat (map (combinations xs) [0..<length xs + 1])"
  by (simp add: powerset_def chain_from_iterable_def del: upt_Suc)

lemma sum_filter_mset_less:
  "(\<Sum>r\<leftarrow>[0..<n]. filter_mset (\<lambda>x. f x = r) M) = filter_mset (\<lambda>x. f x < n) M"
proof (induction n)
  case 0
  then show ?case by simp
next
  case (Suc n)
  have "filter_mset (\<lambda>x. f x < Suc n) M
      = filter_mset (\<lambda>x. f x < n) M + filter_mset (\<lambda>x. f x = n) M"
    by (induction M) auto
  with Suc show ?case by simp
qed

lemma mset_powerset: "mset (pending (powerset xs)) = mset (subseqs xs)"
proof -
  have "mset (pending (powerset xs)) = (\<Sum>r\<leftarrow>[0..<length xs + 1]. mset (combinations xs r))"
    by (simp add: pending_powerset mset_concat comp_def del: upt_Suc)
  also have "\<dots> = filter_mset (\<lambda>ys. length ys < length xs + 1) (mset (subseqs xs))"
    by (simp only: mset_combinations sum_filter_mset_less)
  also have "\<dots> = mset (subseqs xs)"
    by (rule filter_mset_cong [where g = "\<lambda>_. True", simplified, OF refl])
       (auto dest: list_emb_length simp: less_Suc_eq_le)
  finally show ?thesis .
qed

lemma set_subseqs_eq: "set (subseqs xs) = {ys. subseq ys xs}"
  by (rule set_eqI) simp

lemma set_powerset: "set (pending (powerset xs)) = {ys. subseq ys xs}"
  by (simp only: mset_eq_setD [OF mset_powerset] set_subseqs_eq)

lemma length_powerset: "length (pending (powerset xs)) = 2 ^ length xs"
  by (simp only: mset_eq_length [OF mset_powerset] length_subseqs)

lemma distinct_powerset: "distinct xs \<Longrightarrow> distinct (pending (powerset xs))"
  by (simp only: mset_eq_imp_distinct_iff [OF mset_powerset] distinct_subseqs)

lemma sorted_length_chain:
  "sorted (map length (concat (map (combinations xs) [0..<n])))"
  by (induction n)
     (auto simp: sorted_append length_in_combinations intro!: sorted_map_const [where c = n for n])

lemma sorted_length_powerset: "sorted (map length (pending (powerset xs)))"
  by (simp only: pending_powerset sorted_length_chain)

lemma powerset_first: "hd (pending (powerset xs)) = []"
  by (simp add: pending_powerset upt_rec [of 0])

lemma powerset_last: "last (pending (powerset xs)) = xs"
  by (simp add: pending_powerset combinations_all)

section \<open>Iterators\<close>

lemma next_item_Nil [simp]: "next_item (Iterator []) = None"
  by (simp add: next_item_def)

lemma next_item_Cons [simp]: "next_item (Iterator (x # xs)) = Some (x, Iterator xs)"
  by (simp add: next_item_def)

lemma next_item_length:
  "next_item it = Some (x, it') \<Longrightarrow> length (pending it') < length (pending it)"
  by (cases it) (auto simp: next_item_def split: list.splits)

section \<open>Running folds\<close>

lemma length_accumulate [simp]: "length (accumulate xs f i) = Suc (length xs)"
  by (induction xs arbitrary: i) auto

lemma accumulate_not_Nil [simp]: "accumulate xs f i \<noteq> []"
  by (cases xs) auto

lemma last_accumulate: "last (accumulate xs f i) = foldl f i xs"
  by (induction xs arbitrary: i) auto

lemma nth_accumulate: "k \<le> length xs \<Longrightarrow> accumulate xs f i ! k = foldl f i (take k xs)"
proof (induction xs arbitrary: i k)
  case Nil
  then show ?case by simp
next
  case (Cons x xs)
  then show ?case by (cases k) auto
qed

section \<open>Loops stop at the first failure\<close>

lemma for_in_append:
  "for_in body (xs @ ys) = bind_exec (for_in body xs) (\<lambda>_. for_in body ys)"
  by (induction xs) (auto simp: bind_exec_assoc)

lemma for_iter_for_in:
  "for_iter body it = bind_exec (for_in body (pending it)) (\<lambda>_. return_exec (Iterator []))"
proof (cases it)
  case (Iterator xs)
  have "for_iter body (Iterator xs)
      = bind_exec (for_in body xs) (\<lambda>_. return_exec (Iterator []))"
    by (induction xs) (auto simp: bind_exec_assoc)
  with Iterator show ?thesis by simp
qed

lemma for_iter_next_item:
  "for_iter body it =
     (case next_item it of
        None \<Rightarrow> return_exec it
      | Some (x, it') \<Rightarrow> bind_exec (body x) (\<lambda>_. for_iter body it'))"
  by (cases "(body, it)" rule: for_iter.cases) simp_all

lemma for_iter_exhausted [simp]: "for_iter body (Iterator []) s = (Inr (Iterator []), s)"
  by simp

lemma for_iter_returns_exhausted:
  "for_iter body it s = (Inr it', s') \<Longrightarrow> it' = Iterator []"
  by (auto simp: for_iter_for_in bind_exec_eq_Inr)

section \<open>Properties\<close>

text \<open>
  C27. \<open>powerset\<close> yields every subsequence of its argument exactly as often as
  the library function \<open>subseqs\<close> lists it (once, when the argument has no
  repeated element), and yields them by increasing length, starting with the
  empty combination and ending with the whole argument.
\<close>

theorem powerset_correct:
  "mset (pending (powerset xs)) = mset (subseqs xs) \<and>
   sorted (map length (pending (powerset xs))) \<and>
   hd (pending (powerset xs)) = [] \<and> last (pending (powerset xs)) = xs"
  by (simp only: mset_powerset sorted_length_powerset powerset_first powerset_last simp_thms)

text \<open>
  C28. \<open>powerset\<close> of a list of \<open>n\<close> elements yields \<open>2 ^ n\<close> combinations, and
  if the elements are pairwise different, so are the combinations.
\<close>

theorem powerset_count:
  "length (pending (powerset xs)) = 2 ^ length xs \<and>
   (distinct xs \<longrightarrow> distinct (pending (powerset xs)))"
  by (simp add: length_powerset distinct_powerset)

theorem powerset_count_witness:
  "length (pending (powerset [1, 2, 4, 256 :: int])) = 16 \<and>
   distinct (pending (powerset [1, 2, 4, 256 :: int]))"
  using powerset_count [of "[1, 2, 4, 256 :: int]"] by simp

text \<open>
  C29. \<open>combinations xs r\<close> lists exactly the subsequences of \<open>xs\<close> of length
  \<open>r\<close>, and there are \<open>length xs\<close> choose \<open>r\<close> of them.
\<close>

theorem combinations_correct:
  "set (combinations xs r) = {ys. subseq ys xs \<and> length ys = r} \<and>
   length (combinations xs r) = length xs choose r"
  by (simp only: set_combinations length_combinations simp_thms)

text \<open>
  C30. \<open>combinations\<close> yields its results in the order of \<^verbatim>\<open>itertools\<close>:
  each result is the elements at increasing positions of the input, and the
  lists of positions come in strictly increasing lexicographic order.
  Together with the previous property this fixes the list that
  \<open>combinations\<close> returns.
\<close>

theorem combinations_lexicographic:
  "combinations xs r = map (map (nth xs)) (combinations [0..<length xs] r) \<and>
   sorted_wrt ord_class.lexordp (combinations [0..<length xs] r) \<and>
   list_all (sorted_wrt (<)) (combinations [0..<length xs] r)"
  using combinations_nth [of xs r]
  by (auto simp: sorted_wrt_lexordp_combinations list_all_iff
      intro: strictly_increasing_combinations [of "[0..<length xs]"])

text \<open>
  C5. A \<^verbatim>\<open>for\<close> loop that runs to its end has run its body on every item
  the iterator had left, in order, and leaves the iterator exhausted:
  \<^verbatim>\<open>next()\<close> raises \<^verbatim>\<open>StopIteration\<close>, and a second loop over the same
  iterator returns at once, running its body not even once and leaving the
  state as it is.
\<close>

theorem for_iter_twice:
  assumes "for_iter body it s = (Inr it', s')"
  shows "for_in body (pending it) s = (Inr (), s') \<and>
         next_item it' = None \<and> for_iter body' it' s' = (Inr it', s')"
proof -
  from assms have "it' = Iterator []" by (rule for_iter_returns_exhausted)
  moreover from assms have "for_in body (pending it) s = (Inr (), s')"
    by (auto simp: for_iter_for_in bind_exec_eq_Inr)
  ultimately show ?thesis by simp
qed

theorem for_iter_twice_witness:
  "for_iter (\<lambda>x s. (Inr (), x # s)) (Iterator [1, 2, 3 :: nat]) [] = (Inr (Iterator []), [3, 2, 1]) \<and>
   for_in (\<lambda>x s. (Inr (), x # s)) [1, 2, 3 :: nat] [] = (Inr (), [3, 2, 1]) \<and>
   next_item (Iterator ([] :: nat list)) = None \<and>
   for_iter (\<lambda>x. raise_exec ValueError) (Iterator ([] :: nat list)) [3, 2, 1 :: nat]
     = (Inr (Iterator []), [3, 2, 1])"
proof -
  have run: "for_iter (\<lambda>x s. (Inr (), x # s)) (Iterator [1, 2, 3 :: nat]) []
      = (Inr (Iterator []), [3, 2, 1])"
    by (simp add: bind_exec_def)
  from for_iter_twice [OF run, of "\<lambda>x. raise_exec ValueError"] run show ?thesis by simp
qed

text \<open>
  C32. \<open>accumulate\<close> with an initial value yields the running results of its
  function, one more than the list has elements, so that indexing its list
  with \<open>-1\<close> never raises \<^verbatim>\<open>IndexError\<close> and gives the fold of the whole list.
\<close>

theorem accumulate_correct:
  "length (accumulate xs f i) = Suc (length xs) \<and>
   (\<forall>k \<le> length xs. getitem (accumulate xs f i) (int k) = Inr (foldl f i (take k xs))) \<and>
   getitem (accumulate xs f i) (- 1) = Inr (foldl f i xs)"
  by (simp add: getitem_nonneg getitem_last nth_accumulate last_accumulate)

theorem accumulate_correct_witness:
  "accumulate [1, 2, 4 :: nat] (+) 0 = [0, 1, 3, 7] \<and>
   getitem (accumulate [1, 2, 4 :: nat] (+) 0) (- 1) = Inr 7"
  using accumulate_correct [of "[1, 2, 4 :: nat]" "(+)" 0] by simp

end
