(* ===== verification/Pack_Format.thy ===== *)
theory Pack_Format
  imports Pack_Prelude
begin

text \<open>
  The three \<^verbatim>\<open>str.format\<close> calls of \<^verbatim>\<open>combinate\<close> in \<^verbatim>\<open>tes4_pack.py\<close>.

  \<^item> \<open>format_X\<close> is the replacement field \<^verbatim>\<open>{:X}\<close> applied to a Python integer:
    uppercase hexadecimal digits, most significant first, no prefix, no
    padding, a minus sign before the digits of a negative number. \<open>hex_upper\<close>
    is its digit loop.
  \<^item> \<open>archive_name\<close>, \<open>format_switch\<close> and \<open>af_switch\<close> are the three formatted
    arguments of the command line, in the order of the source.
  \<^item> \<open>parse_X\<close> reads such a numeral back. It is the reference against which
    the printer is specified and is not part of the script.

  The lemmas show that printing then reading is the identity, that a
  printed numeral has only the digits \<open>0-9A-F\<close> and as many of them as the
  number needs, and that two archive names are equal only if their format
  and their flag value are.
\<close>

section \<open>The replacement field \<open>{:X}\<close>\<close>

definition hex_digit :: "nat \<Rightarrow> char" where
  "hex_digit d = ''0123456789ABCDEF'' ! d"

fun hex_upper :: "nat \<Rightarrow> string" where
  "hex_upper n =
     (if n < 16 then [hex_digit n] else hex_upper (n div 16) @ [hex_digit (n mod 16)])"

declare hex_upper.simps [simp del]

definition format_X :: "int \<Rightarrow> string" where
  "format_X i = (if i < 0 then CHR ''-'' # hex_upper (nat (- i)) else hex_upper (nat i))"

section \<open>The formatted arguments\<close>

definition archive_name :: "string \<Rightarrow> int \<Rightarrow> string" where
  "archive_name format af = format @ ''_'' @ format_X af @ ''.bsa''"

definition format_switch :: "string \<Rightarrow> string" where
  "format_switch format = ''-'' @ format"

definition af_switch :: "int \<Rightarrow> string" where
  "af_switch af = ''-af:0x'' @ format_X af"

lemmas format_defs [pack_defs] =
  format_X_def hex_digit_def archive_name_def format_switch_def af_switch_def

section \<open>Reading a numeral back\<close>

definition digit_value :: "char \<Rightarrow> nat option" where
  "digit_value c = map_of (zip ''0123456789ABCDEF'' [0..<16]) c"

definition parse_hex :: "string \<Rightarrow> nat option" where
  "parse_hex s =
     (if s = [] then None
      else foldl (\<lambda>acc c. case acc of None \<Rightarrow> None
                         | Some v \<Rightarrow> map_option (\<lambda>d. 16 * v + d) (digit_value c))
             (Some 0) s)"

definition parse_X :: "string \<Rightarrow> int option" where
  "parse_X s =
     (case s of
        [] \<Rightarrow> None
      | c # cs \<Rightarrow> if c = CHR ''-'' then map_option (\<lambda>n. - int n) (parse_hex cs)
                 else map_option int (parse_hex s))"

section \<open>Digits\<close>

lemma less_16_cases: "d < 16 \<Longrightarrow> d \<in> {0,1,2,3,4,5,6,7,8,9,10,11,12,13,14,15::nat}"
  by auto arith

lemma upt_16: "[0..<16] = [0,1,2,3,4,5,6,7,8,9,10,11,12,13,14,15::nat]"
  by (simp add: upt_rec)

lemma digit_value_hex_digit: "d < 16 \<Longrightarrow> digit_value (hex_digit d) = Some d"
  by (drule less_16_cases) (auto simp: digit_value_def hex_digit_def upt_16)


lemma hex_upper_not_Nil [simp]: "hex_upper n \<noteq> []"
  by (subst hex_upper.simps) simp

lemma hex_digit_in: "d < 16 \<Longrightarrow> hex_digit d \<in> set ''0123456789ABCDEF''"
  by (drule less_16_cases) (auto simp: hex_digit_def)

lemma hex_upper_digits: "set (hex_upper n) \<subseteq> set ''0123456789ABCDEF''"
proof (induction n rule: hex_upper.induct)
  case (1 n)
  show ?case
  proof (cases "n < 16")
    case True
    then show ?thesis using hex_digit_in [of n] by (subst hex_upper.simps) simp
  next
    case False
    with "1.IH" have "set (hex_upper (n div 16)) \<subseteq> set ''0123456789ABCDEF''" by simp
    moreover have "hex_digit (n mod 16) \<in> set ''0123456789ABCDEF''"
      by (rule hex_digit_in) simp
    ultimately show ?thesis using False by (subst hex_upper.simps) simp
  qed
qed

lemma parse_hex_snoc:
  "s \<noteq> [] \<Longrightarrow> parse_hex (s @ [c]) =
     (case parse_hex s of None \<Rightarrow> None | Some v \<Rightarrow> map_option (\<lambda>d. 16 * v + d) (digit_value c))"
  by (simp add: parse_hex_def)

lemma parse_hex_single: "parse_hex [c] = digit_value c"
  by (cases "digit_value c") (simp_all add: parse_hex_def)

lemma parse_hex_hex_upper: "parse_hex (hex_upper n) = Some n"
proof (induction n rule: hex_upper.induct)
  case (1 n)
  show ?case
  proof (cases "n < 16")
    case True
    then show ?thesis
      by (subst hex_upper.simps) (simp add: parse_hex_single digit_value_hex_digit)
  next
    case False
    with "1.IH" have "parse_hex (hex_upper (n div 16)) = Some (n div 16)" by simp
    with False show ?thesis
      by (subst hex_upper.simps) (simp add: parse_hex_snoc digit_value_hex_digit)
  qed
qed

lemma minus_notin_hex_upper: "CHR ''-'' \<notin> set (hex_upper n)"
  using hex_upper_digits [of n] by auto

lemma hex_upper_bounds: "0 < n \<Longrightarrow> 16 ^ (length (hex_upper n) - 1) \<le> n \<and> n < 16 ^ length (hex_upper n)"
proof (induction n rule: hex_upper.induct)
  case (1 n)
  show ?case
  proof (cases "n < 16")
    case True
    with "1.prems" show ?thesis by (subst (1 2) hex_upper.simps) simp
  next
    case False
    then have pos: "0 < n div 16" by simp
    with False "1.IH" have IH: "16 ^ (length (hex_upper (n div 16)) - 1) \<le> n div 16"
      "n div 16 < 16 ^ length (hex_upper (n div 16))" by simp_all
    have len: "length (hex_upper n) = Suc (length (hex_upper (n div 16)))"
      using False by (subst hex_upper.simps) simp
    have "length (hex_upper (n div 16)) \<noteq> 0" by simp
    then obtain k where k: "length (hex_upper (n div 16)) = Suc k"
      by (cases "length (hex_upper (n div 16))") auto
    from IH k have "16 * 16 ^ k \<le> n" "n < 16 * 16 ^ Suc k" by auto
    with len k show ?thesis by simp
  qed
qed

section \<open>Printing is injective\<close>

lemma inj_hex_upper:
  assumes "hex_upper m = hex_upper n"
  shows "m = n"
proof -
  have "Some m = parse_hex (hex_upper m)" by (simp only: parse_hex_hex_upper)
  also have "\<dots> = parse_hex (hex_upper n)" by (simp only: assms)
  also have "\<dots> = Some n" by (simp only: parse_hex_hex_upper)
  finally show ?thesis by simp
qed

lemma hd_hex_upper_not_minus: "hd (hex_upper n) \<noteq> CHR ''-''"
proof
  assume "hd (hex_upper n) = CHR ''-''"
  moreover have "hd (hex_upper n) \<in> set (hex_upper n)" by (rule hd_in_set) simp
  ultimately show False using minus_notin_hex_upper [of n] by simp
qed

lemma inj_format_X:
  assumes "format_X i = format_X j"
  shows "i = j"
proof -
  have "hd (format_X k) = CHR ''-'' \<longleftrightarrow> k < 0" for k
    by (simp add: format_X_def hd_hex_upper_not_minus)
  with assms have sign: "i < 0 \<longleftrightarrow> j < 0" by metis
  show ?thesis
  proof (cases "i < 0")
    case True
    with sign assms have "nat (- i) = nat (- j)"
      by (auto simp: format_X_def dest: inj_hex_upper)
    with True sign show ?thesis by simp
  next
    case False
    with sign assms have "nat i = nat j"
      by (auto simp: format_X_def dest: inj_hex_upper)
    with False sign show ?thesis by simp
  qed
qed

lemma underscore_notin_format_X: "CHR ''_'' \<notin> set (format_X i)"
  using hex_upper_digits [of "nat i"] hex_upper_digits [of "nat (- i)"]
  by (auto simp: format_X_def)

lemma takeWhile_sep: "c \<notin> set xs \<Longrightarrow> takeWhile (\<lambda>x. x \<noteq> c) (xs @ c # ys) = xs"
  by (induction xs) auto

lemma append_sep_eq:
  assumes "c \<notin> set xs" and "c \<notin> set xs'" and "xs @ c # ys = xs' @ c # ys'"
  shows "xs = xs' \<and> ys = ys'"
proof -
  have "xs = takeWhile (\<lambda>x. x \<noteq> c) (xs @ c # ys)"
    using assms(1) by (rule takeWhile_sep [symmetric])
  also have "\<dots> = takeWhile (\<lambda>x. x \<noteq> c) (xs' @ c # ys')"
    by (simp only: assms(3))
  also have "\<dots> = xs'"
    using assms(2) by (rule takeWhile_sep)
  finally have "xs = xs'" .
  with assms(3) show ?thesis by simp
qed

lemma archive_name_eq:
  assumes "CHR ''_'' \<notin> set f" and "CHR ''_'' \<notin> set g"
    and "archive_name f i = archive_name g j"
  shows "f = g \<and> i = j"
proof -
  from assms(3) have "f @ CHR ''_'' # (format_X i @ ''.bsa'') = g @ CHR ''_'' # (format_X j @ ''.bsa'')"
    by (simp add: archive_name_def)
  with assms(1,2) have "f = g" and "format_X i @ ''.bsa'' = format_X j @ ''.bsa''"
    by (auto dest: append_sep_eq)
  then show ?thesis by (auto dest: inj_format_X)
qed

lemma hex_upper_no_leading_zero: "0 < n \<Longrightarrow> hd (hex_upper n) \<noteq> CHR ''0''"
proof (induction n rule: hex_upper.induct)
  case (1 n)
  show ?case
  proof (cases "n < 16")
    case True
    with "1.prems" have "n \<in> {1,2,3,4,5,6,7,8,9,10,11,12,13,14,15}"
      using less_16_cases [of n] by auto
    then show ?thesis
      by (subst hex_upper.simps) (auto simp: hex_digit_def)
  next
    case False
    with "1.IH" have "hd (hex_upper (n div 16)) \<noteq> CHR ''0''" by simp
    with False show ?thesis by (subst hex_upper.simps) simp
  qed
qed

section \<open>Properties\<close>

text \<open>
  C37. Reading back what \<^verbatim>\<open>{:X}\<close> printed gives the number that was
  printed, for every integer, negative ones included.
\<close>

theorem parse_X_format_X: "parse_X (format_X i) = Some i"
proof (cases "i < 0")
  case True
  then show ?thesis by (simp add: parse_X_def format_X_def parse_hex_hex_upper)
next
  case False
  obtain c cs where eq: "hex_upper (nat i) = c # cs"
    by (cases "hex_upper (nat i)") auto
  with minus_notin_hex_upper [of "nat i"] have "c \<noteq> CHR ''-''" by auto
  with False eq parse_hex_hex_upper [of "nat i"] show ?thesis
    by (simp add: parse_X_def format_X_def)
qed

text \<open>
  C39. A positive number is printed with exactly as many digits as it has in
  base 16: the first digit is not \<open>0\<close>, and a numeral of \<open>k\<close> digits stands for a
  number from \<open>16 ^ (k - 1)\<close> up to, and not including, \<open>16 ^ k\<close>. Every
  character is one of \<open>0123456789ABCDEF\<close>.
\<close>

theorem hex_upper_minimal:
  "0 < n \<longrightarrow>
     hd (hex_upper n) \<noteq> CHR ''0'' \<and> 16 ^ (length (hex_upper n) - 1) \<le> n \<and>
     n < 16 ^ length (hex_upper n) \<and> set (hex_upper n) \<subseteq> set ''0123456789ABCDEF''"
  using hex_upper_bounds [of n] hex_upper_no_leading_zero [of n] hex_upper_digits [of n]
  by blast

theorem hex_upper_minimal_witness:
  "hex_upper 263 = ''107'' \<and> hd (hex_upper 263) \<noteq> CHR ''0'' \<and>
   16 ^ (length (hex_upper 263) - 1) \<le> (263 :: nat) \<and> (263 :: nat) < 16 ^ length (hex_upper 263)"
  using hex_upper_minimal [of 263] by (simp add: hex_upper.simps hex_digit_def)

text \<open>
  C38. Two archive names are equal only if the format and the flag value are
  equal, provided the formats have no underscore in them. So no two jobs of
  a run write to the same archive.
\<close>

theorem archive_name_inj:
  assumes "CHR ''_'' \<notin> set f" and "CHR ''_'' \<notin> set g"
  shows "archive_name f i = archive_name g j \<longleftrightarrow> f = g \<and> i = j"
  using assms by (auto dest: archive_name_eq)

theorem archive_name_inj_witness:
  "archive_name ''tes4'' 7 \<noteq> archive_name ''tes5'' 7 \<and>
   archive_name ''tes4'' 7 \<noteq> archive_name ''tes4'' 263"
  using archive_name_inj [of "''tes4''" "''tes5''" 7 7]
    archive_name_inj [of "''tes4''" "''tes4''" 7 263]
  by simp

text \<open>
  The file names of the description: format \<^verbatim>\<open>tes5\<close> with flags
  \<open>0x107\<close> gives \<^verbatim>\<open>tes5_107.bsa\<close>, and flags \<open>0\<close> give
  \<^verbatim>\<open>{format}_0.bsa\<close> for every format; the two switches are formed alike.
\<close>

theorem archive_name_examples:
  "archive_name ''tes5'' 0x107 = ''tes5_107.bsa'' \<and> archive_name f 0 = f @ ''_0.bsa'' \<and>
   format_switch ''sse'' = ''-sse'' \<and> af_switch 0x107 = ''-af:0x107'' \<and>
   format_X (- 255) = ''-FF''"
  by (simp add: format_defs hex_upper.simps)

end
