(* ===== verification/Pack_World.thy ===== *)
theory Pack_World
  imports Pack_Prelude
begin

text \<open>
  What \<^verbatim>\<open>tes4_pack.py\<close> does to the outside of the process, and what the
  outside does back.

  \<^item> \<open>world\<close> is the part of the machine the script touches: its working
    directory, the file system (the entries that exist and whether each is a
    directory or a file), and the log of the child processes it has started,
    each with the directory it was started in, its command line and how it
    ended.
  \<^item> \<open>env\<close> is everything the script does not control: given the calls made
    so far, the working directory and a command line, it says how this
    child process ends (\<open>Exited\<close> with a return code, or \<open>Failed\<close> when it
    could not be started).
  \<^item> \<open>os_chdir\<close>, \<open>os_mkdir\<close>, \<open>os_makedirs\<close>, \<open>dirname\<close> and \<open>subprocess_run\<close> are
    the library calls of \<^verbatim>\<open>main\<close> and \<^verbatim>\<open>combinate\<close>.
  \<^item> \<open>subprocess_run\<close> takes the argument list as Python passes it, a list of
    values. When every element is a string it is \<open>run_child\<close> on the command
    line: start the child, wait for it, and with \<^verbatim>\<open>check=True\<close> raise when it
    did not exit with 0. When an element is not a string, converting the
    arguments raises \<^verbatim>\<open>TypeError\<close> before any process is started.

  Paths are lists of components below the root; the names are plain (no
  \<^verbatim>\<open>.\<close>, no \<^verbatim>\<open>..\<close>, no links). Permissions are not modelled, and the files
  that a child process writes are not part of \<open>fs\<close>: the script never looks
  at them.

  The invariant \<open>wf_world\<close> says that the root is a directory, that every
  entry lies in a directory, and that the working directory exists. Every
  operation keeps it.

  A path is looked up as a whole, and \<open>missing\<close> gives the error for a path
  that is not there: \<^verbatim>\<open>NotADirectoryError\<close> when a regular file is in the way
  higher up, \<^verbatim>\<open>FileNotFoundError\<close> otherwise. The system resolves a path one
  component after the other; \<open>walk\<close> is that resolution, and in a well-formed
  world the two agree (\<open>walk_lookup\<close>).
\<close>

section \<open>State\<close>

type_synonym path = "string list"

datatype node = Dir | File

datatype pathname = Absolute path | Relative path

datatype outcome = Exited int | Failed os_error

record call =
  call_cwd :: path
  call_args :: "string list"
  call_outcome :: outcome

record world =
  cwd :: path
  fs :: "(path \<times> node) list"
  log :: "call list"

type_synonym env = "call list \<Rightarrow> path \<Rightarrow> string list \<Rightarrow> outcome"

definition lookup :: "world \<Rightarrow> path \<Rightarrow> node option" where
  "lookup w p = map_of (fs w) p"

definition resolve :: "world \<Rightarrow> pathname \<Rightarrow> path" where
  "resolve w name = (case name of Absolute p \<Rightarrow> p | Relative p \<Rightarrow> cwd w @ p)"

definition isdir :: "world \<Rightarrow> pathname \<Rightarrow> bool" where
  "isdir w name \<longleftrightarrow> lookup w (resolve w name) = Some Dir"

definition wf_world :: "world \<Rightarrow> bool" where
  "wf_world w \<longleftrightarrow>
     lookup w [] = Some Dir \<and>
     list_all (\<lambda>p. p = [] \<or> lookup w (butlast p) = Some Dir) (map fst (fs w)) \<and>
     lookup w (cwd w) = Some Dir"

definition missing :: "world \<Rightarrow> path \<Rightarrow> os_error" where
  "missing w p =
     (if list_ex (\<lambda>n. lookup w (take n p) = Some File) [0..<length p]
      then NotADirectoryError else FileNotFoundError)"

fun walk :: "world \<Rightarrow> path \<Rightarrow> path \<Rightarrow> os_error + node" where
  "walk w cur [] =
     (case lookup w cur of None \<Rightarrow> Inl FileNotFoundError | Some n \<Rightarrow> Inr n)"
| "walk w cur (name # names) =
     (case lookup w cur of
        None \<Rightarrow> Inl FileNotFoundError
      | Some File \<Rightarrow> Inl NotADirectoryError
      | Some Dir \<Rightarrow> walk w (cur @ [name]) names)"

section \<open>os and os.path\<close>

definition dirname :: "path \<Rightarrow> path" where
  "dirname p = butlast p"

definition os_chdir :: "pathname \<Rightarrow> (unit, world) exec" where
  "os_chdir name w =
     (let target = resolve w name
      in case lookup w target of
           None \<Rightarrow> (Inl (OSError (missing w target)), w)
         | Some File \<Rightarrow> (Inl (OSError NotADirectoryError), w)
         | Some Dir \<Rightarrow> (Inr (), w\<lparr>cwd := target\<rparr>))"

definition os_mkdir :: "pathname \<Rightarrow> (unit, world) exec" where
  "os_mkdir name w =
     (let target = resolve w name
      in case lookup w target of
           Some _ \<Rightarrow> (Inl (OSError FileExistsError), w)
         | None \<Rightarrow>
            (case lookup w (butlast target) of
               None \<Rightarrow> (Inl (OSError (missing w (butlast target))), w)
             | Some File \<Rightarrow> (Inl (OSError NotADirectoryError), w)
             | Some Dir \<Rightarrow> (Inr (), w\<lparr>fs := fs w @ [(target, Dir)]\<rparr>)))"

definition os_makedirs :: "string \<Rightarrow> bool \<Rightarrow> (unit, world) exec" where
  "os_makedirs name exist_ok w =
     (case os_mkdir (Relative [name]) w of
        (Inr u, w') \<Rightarrow> (Inr u, w')
      | (Inl (OSError e), w') \<Rightarrow>
          if \<not> exist_ok \<or> \<not> isdir w' (Relative [name]) then (Inl (OSError e), w')
          else (Inr (), w')
      | (Inl e, w') \<Rightarrow> (Inl e, w'))"

section \<open>subprocess\<close>

definition run_child :: "env \<Rightarrow> string list \<Rightarrow> bool \<Rightarrow> (unit, world) exec" where
  "run_child env args check w =
     (let out = env (log w) (cwd w) args;
          w' = w\<lparr>log := log w @ [\<lparr>call_cwd = cwd w, call_args = args, call_outcome = out\<rparr>]\<rparr>
      in case out of
           Failed e \<Rightarrow> (Inl (OSError e), w')
         | Exited retcode \<Rightarrow>
             if check \<and> retcode \<noteq> 0 then (Inl (CalledProcessError retcode args), w')
             else (Inr (), w'))"

definition subprocess_run :: "env \<Rightarrow> pyval list \<Rightarrow> bool \<Rightarrow> (unit, world) exec" where
  "subprocess_run env args check w =
     (if list_all is_PyStr args then run_child env (map str_of args) check w
      else (Inl TypeError, w))"

lemmas world_defs [pack_defs] =
  lookup_def resolve_def isdir_def dirname_def missing_def os_chdir_def os_mkdir_def os_makedirs_def
  run_child_def subprocess_run_def

section \<open>Lookup\<close>

lemma node_neq_Dir [simp]: "n \<noteq> Dir \<longleftrightarrow> n = File"
  by (cases n) simp_all

lemma node_neq_File [simp]: "n \<noteq> File \<longleftrightarrow> n = Dir"
  by (cases n) simp_all

lemma lookup_cwd_update [simp]: "lookup (w\<lparr>cwd := c\<rparr>) p = lookup w p"
  by (simp add: lookup_def)

lemma lookup_log_update [simp]: "lookup (w\<lparr>log := l\<rparr>) p = lookup w p"
  by (simp add: lookup_def)

lemma lookup_fs_append:
  "lookup (w\<lparr>fs := fs v @ [(t, n)]\<rparr>) p =
     (case lookup v p of Some m \<Rightarrow> Some m | None \<Rightarrow> if p = t then Some n else None)"
  by (simp add: lookup_def map_add_def split: option.splits)

lemma lookup_in_fs: "lookup w p = Some n \<Longrightarrow> p \<in> fst ` set (fs w)"
  by (auto simp: lookup_def dest: map_of_SomeD intro: rev_image_eqI)

section \<open>What each operation does\<close>

lemma os_chdir_Inr_iff:
  "os_chdir name w = (Inr u, w') \<longleftrightarrow>
     lookup w (resolve w name) = Some Dir \<and> w' = w\<lparr>cwd := resolve w name\<rparr>"
  by (auto simp: os_chdir_def Let_def split: option.splits node.splits)

lemma os_chdir_Inl_iff:
  "os_chdir name w = (Inl e, w') \<longleftrightarrow>
     w' = w \<and>
     (lookup w (resolve w name) = None \<and> e = OSError (missing w (resolve w name)) \<or>
      lookup w (resolve w name) = Some File \<and> e = OSError NotADirectoryError)"
  by (auto simp: os_chdir_def Let_def split: option.splits node.splits)

lemma os_mkdir_Inr_iff:
  "os_mkdir name w = (Inr u, w') \<longleftrightarrow>
     lookup w (resolve w name) = None \<and> lookup w (butlast (resolve w name)) = Some Dir \<and>
     w' = w\<lparr>fs := fs w @ [(resolve w name, Dir)]\<rparr>"
  by (auto simp: os_mkdir_def Let_def split: option.splits node.splits)

lemma os_mkdir_Inl_unchanged: "os_mkdir name w = (Inl e, w') \<Longrightarrow> w' = w"
  by (auto simp: os_mkdir_def Let_def split: option.splits node.splits)

lemma os_mkdir_exists: "lookup w (resolve w name) = Some n \<Longrightarrow> os_mkdir name w = (Inl (OSError FileExistsError), w)"
  by (simp add: os_mkdir_def)

lemma os_makedirs_Inr_iff:
  "os_makedirs name True w = (Inr u, w') \<longleftrightarrow>
     (lookup w (cwd w @ [name]) = Some Dir \<and> w' = w) \<or>
     (lookup w (cwd w @ [name]) = None \<and> lookup w (cwd w) = Some Dir \<and>
      w' = w\<lparr>fs := fs w @ [(cwd w @ [name], Dir)]\<rparr>)"
  by (auto simp: os_makedirs_def os_mkdir_def isdir_def resolve_def Let_def
           split: option.splits node.splits)

lemma os_makedirs_Inl_iff:
  "os_makedirs name True w = (Inl e, w') \<longleftrightarrow>
     w' = w \<and>
     (lookup w (cwd w @ [name]) = Some File \<and> e = OSError FileExistsError \<or>
      lookup w (cwd w @ [name]) = None \<and> lookup w (cwd w) = None \<and>
        e = OSError (missing w (cwd w)) \<or>
      lookup w (cwd w @ [name]) = None \<and> lookup w (cwd w) = Some File \<and> e = OSError NotADirectoryError)"
  by (auto simp: os_makedirs_def os_mkdir_def isdir_def resolve_def Let_def
           split: option.splits node.splits)

lemma os_makedirs_isdir:
  "os_makedirs name True w = (Inr u, w') \<Longrightarrow> lookup w' (cwd w' @ [name]) = Some Dir"
  by (auto simp: os_makedirs_Inr_iff lookup_fs_append)

lemma run_child_frame:
  "run_child env args check w = (r, w') \<Longrightarrow> cwd w' = cwd w \<and> fs w' = fs w"
  by (auto simp: run_child_def Let_def split: outcome.splits if_splits)

lemma run_child_log:
  "run_child env args check w = (r, w') \<Longrightarrow>
     log w' = log w @ [\<lparr>call_cwd = cwd w, call_args = args,
                        call_outcome = env (log w) (cwd w) args\<rparr>]"
  by (auto simp: run_child_def Let_def split: outcome.splits if_splits)

lemma run_child_Inr_iff:
  "run_child env args True w = (Inr u, w') \<longleftrightarrow>
     env (log w) (cwd w) args = Exited 0 \<and>
     w' = w\<lparr>log := log w @ [\<lparr>call_cwd = cwd w, call_args = args, call_outcome = Exited 0\<rparr>]\<rparr>"
  by (auto simp: run_child_def Let_def split: outcome.splits if_splits)

lemma subprocess_run_strings [simp]:
  "subprocess_run env (map PyStr cmd) check = run_child env cmd check"
  by (simp add: subprocess_run_def fun_eq_iff list_all_iff comp_def)

lemma subprocess_run_TypeError:
  "\<not> list_all is_PyStr args \<Longrightarrow> subprocess_run env args check w = (Inl TypeError, w)"
  by (simp add: subprocess_run_def)

section \<open>The invariant\<close>

lemma wf_world_cwd_update:
  "wf_world w \<Longrightarrow> lookup w c = Some Dir \<Longrightarrow> wf_world (w\<lparr>cwd := c\<rparr>)"
  by (simp add: wf_world_def list_all_iff)

lemma wf_world_log_update [simp]: "wf_world (w\<lparr>log := l\<rparr>) = wf_world w"
  by (simp add: wf_world_def list_all_iff)

lemma wf_world_fs_append:
  assumes "wf_world w" and "lookup w t = None" and "lookup w (butlast t) = Some Dir"
  shows "wf_world (w\<lparr>fs := fs w @ [(t, Dir)]\<rparr>)"
  using assms by (auto simp: wf_world_def list_all_iff lookup_fs_append)

lemma os_chdir_wf: "wf_world w \<Longrightarrow> os_chdir name w = (r, w') \<Longrightarrow> wf_world w'"
  by (cases r) (auto simp: os_chdir_Inl_iff os_chdir_Inr_iff intro: wf_world_cwd_update)

lemma os_mkdir_wf: "wf_world w \<Longrightarrow> os_mkdir name w = (r, w') \<Longrightarrow> wf_world w'"
  by (cases r) (auto simp: os_mkdir_Inr_iff dest: os_mkdir_Inl_unchanged intro: wf_world_fs_append)

lemma os_makedirs_wf: "wf_world w \<Longrightarrow> os_makedirs name exist_ok w = (r, w') \<Longrightarrow> wf_world w'"
  by (auto simp: os_makedirs_def split: prod.splits sum.splits py_error.splits if_splits
           dest: os_mkdir_wf)

lemma run_child_wf: "wf_world w \<Longrightarrow> run_child env args check w = (r, w') \<Longrightarrow> wf_world w'"
  by (auto simp: run_child_def Let_def split: outcome.splits if_splits)

lemma subprocess_run_wf:
  "wf_world w \<Longrightarrow> subprocess_run env args check w = (r, w') \<Longrightarrow> wf_world w'"
  by (auto simp: subprocess_run_def split: if_splits dest: run_child_wf)

section \<open>Looking up a path and walking to it\<close>

lemma wf_world_parent:
  assumes "wf_world w" and "lookup w p = Some n" and "p \<noteq> []"
  shows "lookup w (butlast p) = Some Dir"
proof -
  from assms(2) have "p \<in> set (map fst (fs w))"
    by (auto simp: lookup_def dest: map_of_SomeD intro: rev_image_eqI)
  with assms(1,3) show ?thesis by (auto simp: wf_world_def list_all_iff)
qed

lemma wf_world_ancestor:
  assumes "wf_world w" and "lookup w p = Some n"
  shows "k < length p \<Longrightarrow> lookup w (take k p) = Some Dir"
  using assms(2)
proof (induction p arbitrary: n rule: rev_induct)
  case Nil
  then show ?case by simp
next
  case (snoc x p)
  from wf_world_parent [OF assms(1) snoc.prems(2)] have parent: "lookup w p = Some Dir" by simp
  show ?case
  proof (cases "k = length p")
    case True
    with parent show ?thesis by simp
  next
    case False
    with snoc.prems(1) have "k < length p" by simp
    with snoc.IH [OF _ parent] show ?thesis by simp
  qed
qed

lemma missing_below_file:
  "k < length p \<Longrightarrow> lookup w (take k p) = Some File \<Longrightarrow> missing w p = NotADirectoryError"
  by (auto simp: missing_def list_ex_iff)

lemma missing_plain:
  "(\<And>k. k < length p \<Longrightarrow> lookup w (take k p) \<noteq> Some File) \<Longrightarrow> missing w p = FileNotFoundError"
  by (auto simp: missing_def list_ex_iff)

lemma walk_lookup_from:
  assumes "wf_world w"
  shows "(\<And>k. k < length cur \<Longrightarrow> lookup w (take k cur) = Some Dir) \<Longrightarrow>
         walk w cur names =
           (case lookup w (cur @ names) of None \<Rightarrow> Inl (missing w (cur @ names)) | Some n \<Rightarrow> Inr n)"
proof (induction names arbitrary: cur)
  case Nil
  then have "missing w cur = FileNotFoundError" by (intro missing_plain) auto
  then show ?case by (simp split: option.splits)
next
  case (Cons name names)
  have absent: "lookup w (cur @ name # names) = None" if "lookup w cur \<noteq> Some Dir"
  proof (rule ccontr)
    assume "lookup w (cur @ name # names) \<noteq> None"
    then obtain n where "lookup w (cur @ name # names) = Some n" by auto
    from wf_world_ancestor [OF assms this, of "length cur"] that show False by simp
  qed
  show ?case
  proof (cases "lookup w cur")
    case None
    have "lookup w (take k (cur @ name # names)) \<noteq> Some File"
      if "k < length (cur @ name # names)" for k
    proof
      assume below: "lookup w (take k (cur @ name # names)) = Some File"
      show False
      proof (cases "k \<le> length cur")
        case True
        with Cons.prems [of k] None below show False by (cases "k = length cur") simp_all
      next
        case False
        with wf_world_ancestor [OF assms below, of "length cur"] that None show False by simp
      qed
    qed
    then have "missing w (cur @ name # names) = FileNotFoundError" by (rule missing_plain)
    with None absent show ?thesis by simp
  next
    case (Some n)
    show ?thesis
    proof (cases n)
      case File
      with Some have "missing w (cur @ name # names) = NotADirectoryError"
        by (intro missing_below_file [of "length cur"]) simp_all
      with Some File absent show ?thesis by simp
    next
      case Dir
      have "lookup w (take k (cur @ [name])) = Some Dir" if "k < length (cur @ [name])" for k
        using that Cons.prems [of k] Some Dir by (cases "k = length cur") simp_all
      from Cons.IH [OF this] Some Dir show ?thesis by (simp split: option.splits)
    qed
  qed
qed

lemma walk_lookup:
  "wf_world w \<Longrightarrow>
     walk w [] p = (case lookup w p of None \<Rightarrow> Inl (missing w p) | Some n \<Rightarrow> Inr n)"
  using walk_lookup_from [of w "[]" p] by (simp split: option.splits)

lemma os_mkdir_walk:
  assumes "wf_world w" and "resolve w name \<noteq> []"
  shows "os_mkdir name w =
           (case walk w [] (butlast (resolve w name)) of
              Inl e \<Rightarrow> (Inl (OSError e), w)
            | Inr File \<Rightarrow> (Inl (OSError NotADirectoryError), w)
            | Inr Dir \<Rightarrow>
                (case lookup w (resolve w name) of
                   Some n \<Rightarrow> (Inl (OSError FileExistsError), w)
                 | None \<Rightarrow> (Inr (), w\<lparr>fs := fs w @ [(resolve w name, Dir)]\<rparr>)))"
proof (cases "lookup w (resolve w name)")
  case None
  then show ?thesis
    by (simp add: walk_lookup [OF assms(1)] os_mkdir_def Let_def split: option.splits node.splits)
next
  case (Some n)
  from wf_world_parent [OF assms(1) Some assms(2)] Some show ?thesis
    by (simp add: walk_lookup [OF assms(1)] os_mkdir_def)
qed

text \<open>
  In a well-formed world \<open>os_chdir\<close> does what the system does when it
  resolves the path one component after the other from the root: it fails
  with \<^verbatim>\<open>FileNotFoundError\<close> at the first component that does not exist, with
  \<^verbatim>\<open>NotADirectoryError\<close> at the first that is not a directory (the last one
  included), and otherwise makes the path the working directory.
\<close>

lemma os_chdir_walk:
  assumes "wf_world w"
  shows "os_chdir name w =
           (case walk w [] (resolve w name) of
              Inl e \<Rightarrow> (Inl (OSError e), w)
            | Inr File \<Rightarrow> (Inl (OSError NotADirectoryError), w)
            | Inr Dir \<Rightarrow> (Inr (), w\<lparr>cwd := resolve w name\<rparr>))"
  by (simp add: walk_lookup [OF assms] os_chdir_def Let_def split: option.splits node.splits)

lemma os_chdir_walk_examples:
  "wf_world \<lparr>cwd = [], fs = [([], Dir), ([''t''], File)], log = []\<rparr> \<and>
   os_chdir (Absolute [''t'', ''scripts'']) \<lparr>cwd = [], fs = [([], Dir), ([''t''], File)], log = []\<rparr>
     = (Inl (OSError NotADirectoryError), \<lparr>cwd = [], fs = [([], Dir), ([''t''], File)], log = []\<rparr>) \<and>
   os_chdir (Absolute [''u'', ''scripts'']) \<lparr>cwd = [], fs = [([], Dir), ([''t''], File)], log = []\<rparr>
     = (Inl (OSError FileNotFoundError), \<lparr>cwd = [], fs = [([], Dir), ([''t''], File)], log = []\<rparr>)"
proof -
  have wf: "wf_world \<lparr>cwd = [], fs = [([], Dir), ([''t''], File)], log = []\<rparr>"
    by (simp add: wf_world_def lookup_def)
  from os_chdir_walk [OF wf, of "Absolute [''t'', ''scripts'']"]
    os_chdir_walk [OF wf, of "Absolute [''u'', ''scripts'']"] wf
  show ?thesis by (simp add: resolve_def lookup_def)
qed

end
