(* ===== verification/Pack_Argparse.thy ===== *)
theory Pack_Argparse
  imports Pack_Prelude "HOL-Library.Sublist"
begin

text \<open>
  What \<^verbatim>\<open>parser.parse_args()\<close> does for the parser that \<^verbatim>\<open>parse_arguments\<close>
  of \<^verbatim>\<open>tes4_pack.py\<close> builds: the option \<^verbatim>\<open>-h\<close>, \<^verbatim>\<open>--help\<close> that every
  \<^verbatim>\<open>ArgumentParser\<close> has, and the two positionals \<^verbatim>\<open>bsarch\<close> and \<^verbatim>\<open>directory\<close>.
  The definitions follow \<^verbatim>\<open>argparse.py\<close> of CPython 3.11, function by
  function, for this parser: one-character prefix \<^verbatim>\<open>-\<close>, abbreviations
  allowed, no option that takes a value, positionals with \<^verbatim>\<open>nargs=None\<close> and
  \<^verbatim>\<open>type=str\<close>.

  \<^item> \<open>args\<close> is the namespace; the parser fills it with values of type \<open>pyval\<close>.
  \<^item> \<open>option_string_actions\<close> and \<open>positional_actions\<close> are what the constructor
    and the two \<^verbatim>\<open>add_argument\<close> calls register.
  \<^item> \<open>parse_optional\<close> decides whether one string is a positional or an option
    (\<^verbatim>\<open>_parse_optional\<close>), with \<open>get_option_tuples\<close> for abbreviations and
    joined short options and \<open>negative_number\<close> for the pattern
    \<^verbatim>\<open>^-\d+$|^-\d*\.\d+$\<close>; \<open>classify\<close> turns the command line into the pattern
    of \<^verbatim>\<open>A\<close>, \<^verbatim>\<open>O\<close> and \<^verbatim>\<open>-\<close> that the library matches against.
  \<^item> \<open>match_group\<close>, \<open>match_groups\<close> and \<open>match_arguments_partial\<close> are the regular
    expression matches of the positionals (\<^verbatim>\<open>(-*A-*)\<close> for each) against that
    pattern; \<open>get_values\<close> and \<open>store\<close> put the matched strings into the
    namespace.
  \<^item> \<open>consume_positionals\<close>, \<open>consume_optional\<close> and \<open>consume\<close> are the loop of
    \<^verbatim>\<open>_parse_known_args\<close>; \<open>finish\<close> is what follows the loop; \<open>parse_args\<close>
    rejects what is left over.
  \<^item> Errors are values: \<open>SystemExit 0\<close> after the help text, \<open>SystemExit 2\<close> after
    a usage error. The text itself is not modelled.

  Characters are the 256 of \<open>char\<close>; the digits of \<^verbatim>\<open>\d\<close> are \<^verbatim>\<open>0\<close> to \<^verbatim>\<open>9\<close>.

  The description the parser is compared with is \<open>usage\<close>: each string before
  the first \<^verbatim>\<open>--\<close> is judged on its own by \<open>judge\<close> (a positional, an unknown
  option, a request for help, or an option with a value it cannot take), the
  first help or rejection decides, and without options the strings before and
  after the \<^verbatim>\<open>--\<close> must be exactly two.

  The lemmas show that every string is classified as \<open>judge\<close> says
  (\<open>judged\<close>), that a match of positionals never reaches across an option
  (\<open>clear\<close>), what one round of the loop does (\<open>consume_step\<close>), and from
  these that \<open>parse_args\<close> is \<open>usage\<close>.
\<close>

section \<open>The parser\<close>

datatype action = Help | Bsarch | Directory

record 'v args =
  bsarch :: 'v
  directory :: 'v

definition option_string_actions :: "(string \<times> action) list" where
  "option_string_actions = [(''-h'', Help), (''--help'', Help)]"

definition positional_actions :: "action list" where
  "positional_actions = [Bsarch, Directory]"

type_synonym option_tuple = "action option \<times> string \<times> string option \<times> string option"

section \<open>Strings\<close>

definition partition_eq :: "string \<Rightarrow> string \<times> string \<times> string" where
  "partition_eq s =
     (case dropWhile (\<lambda>c. c \<noteq> CHR ''='') s of
        [] \<Rightarrow> (s, [], [])
      | c # after \<Rightarrow> (takeWhile (\<lambda>c. c \<noteq> CHR ''='') s, [c], after))"

definition digit :: "char \<Rightarrow> bool" where
  "digit c \<longleftrightarrow> c \<in> set ''0123456789''"

definition at_end :: "string \<Rightarrow> bool" where
  "at_end s \<longleftrightarrow> s = [] \<or> s = [CHR 0x0A]"

definition negative_number :: "string \<Rightarrow> bool" where
  "negative_number s =
     (case s of
        [] \<Rightarrow> False
      | c # t \<Rightarrow>
          c = CHR ''-'' \<and>
          (let r = dropWhile digit t
           in (takeWhile digit t \<noteq> [] \<and> at_end r) \<or>
              (case r of
                 [] \<Rightarrow> False
               | d # u \<Rightarrow> d = CHR ''.'' \<and> takeWhile digit u \<noteq> [] \<and> at_end (dropWhile digit u))))"

section \<open>Is a string an option?\<close>

definition get_option_tuples :: "string \<Rightarrow> option_tuple list" where
  "get_option_tuples option_string =
     (if option_string ! 1 = CHR ''-''
      then (case partition_eq option_string of
              (option_prefix, sep, explicit_arg) \<Rightarrow>
                map (\<lambda>(os, action).
                       (Some action, os,
                        if sep = [] then None else Some sep,
                        if sep = [] then None else Some explicit_arg))
                    (filter (\<lambda>(os, action). prefix option_prefix os) option_string_actions))
      else (let short_option_prefix = take 2 option_string;
                short_explicit_arg = drop 2 option_string
            in concat (map (\<lambda>(os, action).
                              if os = short_option_prefix
                              then [(Some action, os, Some [], Some short_explicit_arg)]
                              else if prefix option_string os
                              then [(Some action, os, None, None)]
                              else [])
                           option_string_actions)))"

definition parse_optional :: "string \<Rightarrow> option_tuple option result" where
  "parse_optional arg_string =
     (if arg_string = [] then Inr None
      else if hd arg_string \<noteq> CHR ''-'' then Inr None
      else case map_of option_string_actions arg_string of
        Some action \<Rightarrow> Inr (Some (Some action, arg_string, None, None))
      | None \<Rightarrow>
          if length arg_string = 1 then Inr None
          else case partition_eq arg_string of
            (option_string, sep, explicit_arg) \<Rightarrow>
              (case (if sep = [] then None else map_of option_string_actions option_string) of
                 Some action \<Rightarrow> Inr (Some (Some action, option_string, Some sep, Some explicit_arg))
               | None \<Rightarrow>
                   (case get_option_tuples arg_string of
                      [] \<Rightarrow>
                        if negative_number arg_string then Inr None
                        else if CHR '' '' \<in> set arg_string then Inr None
                        else Inr (Some (None, arg_string, None, None))
                    | [option_tuple] \<Rightarrow> Inr (Some option_tuple)
                    | _ \<Rightarrow> Inl (SystemExit 2))))"

section \<open>The pattern of a command line\<close>

datatype item = Argument | Marker | Optional option_tuple

fun is_optional :: "item \<Rightarrow> bool" where
  "is_optional (Optional t) = True"
| "is_optional _ = False"

fun classify :: "string list \<Rightarrow> item list result" where
  "classify [] = Inr []"
| "classify (arg_string # arg_strings) =
     (if arg_string = ''--'' then Inr (Marker # replicate (length arg_strings) Argument)
      else case parse_optional arg_string of
        Inl e \<Rightarrow> Inl e
      | Inr option_tuple \<Rightarrow>
          (case classify arg_strings of
             Inl e \<Rightarrow> Inl e
           | Inr pattern \<Rightarrow>
               Inr ((case option_tuple of None \<Rightarrow> Argument | Some t \<Rightarrow> Optional t) # pattern)))"

section \<open>Matching positionals against the pattern\<close>

definition match_group :: "item list \<Rightarrow> nat option" where
  "match_group pattern =
     (case dropWhile (\<lambda>x. x = Marker) pattern of
        Argument # rest \<Rightarrow>
          Some (length (takeWhile (\<lambda>x. x = Marker) pattern) + 1 +
                length (takeWhile (\<lambda>x. x = Marker) rest))
      | _ \<Rightarrow> None)"

fun match_groups :: "nat \<Rightarrow> item list \<Rightarrow> nat list option" where
  "match_groups 0 pattern = Some []"
| "match_groups (Suc n) pattern =
     (case match_group pattern of
        None \<Rightarrow> None
      | Some c \<Rightarrow> map_option ((#) c) (match_groups n (drop c pattern)))"

fun match_arguments_partial :: "nat \<Rightarrow> item list \<Rightarrow> nat list" where
  "match_arguments_partial 0 pattern = []"
| "match_arguments_partial (Suc i) pattern =
     (case match_groups (Suc i) pattern of
        Some arg_counts \<Rightarrow> arg_counts
      | None \<Rightarrow> match_arguments_partial i pattern)"

section \<open>Taking the actions\<close>

definition get_values :: "string list \<Rightarrow> pyval" where
  "get_values arg_strings =
     (case remove1 ''--'' arg_strings of
        [arg_string] \<Rightarrow> PyStr arg_string
      | strings \<Rightarrow> PyList strings)"

fun store :: "action \<Rightarrow> pyval \<Rightarrow> pyval args \<Rightarrow> pyval args" where
  "store Bsarch v ns = ns\<lparr>bsarch := v\<rparr>"
| "store Directory v ns = ns\<lparr>directory := v\<rparr>"
| "store Help v ns = ns"

fun take_positionals :: "(action \<times> nat) list \<Rightarrow> string list \<Rightarrow> pyval args \<Rightarrow> pyval args" where
  "take_positionals [] arg_strings ns = ns"
| "take_positionals ((action, arg_count) # rest) arg_strings ns =
     take_positionals rest (drop arg_count arg_strings)
       (store action (get_values (take arg_count arg_strings)) ns)"

definition consume_positionals ::
  "item list \<Rightarrow> string list \<Rightarrow> action list \<Rightarrow> pyval args \<Rightarrow> nat \<times> action list \<times> pyval args" where
  "consume_positionals pattern arg_strings positionals ns =
     (let arg_counts = match_arguments_partial (length positionals) pattern
      in (sum_list arg_counts, drop (length arg_counts) positionals,
          take_positionals (zip positionals arg_counts) arg_strings ns))"

fun take_optionals :: "action list \<Rightarrow> unit result" where
  "take_optionals [] = Inr ()"
| "take_optionals (Help # actions) = Inl (SystemExit 0)"
| "take_optionals (action # actions) = take_optionals actions"

function consume_optional ::
  "option_tuple \<Rightarrow> string \<Rightarrow> action list \<Rightarrow> (action list \<times> string list) result" where
  "consume_optional (action, option_string, sep, explicit_arg) arg_string action_tuples =
     (case action of
        None \<Rightarrow> Inr ([], [arg_string])
      | Some act \<Rightarrow>
          (case explicit_arg of
             None \<Rightarrow> Inr (action_tuples @ [act], [])
           | Some ea \<Rightarrow>
               if option_string ! 1 \<noteq> CHR ''-'' \<and> ea \<noteq> []
               then if sep \<notin> {None, Some []} \<or> hd ea = CHR ''-'' then Inl (SystemExit 2)
                    else (case map_of option_string_actions [hd option_string, hd ea] of
                            None \<Rightarrow> Inr (action_tuples @ [act], [hd option_string # ea])
                          | Some act' \<Rightarrow>
                              consume_optional
                                (Some act', [hd option_string, hd ea],
                                 if tl ea = [] then None
                                 else if hd (tl ea) = CHR ''='' then Some ''='' else Some [],
                                 if tl ea = [] then None
                                 else if hd (tl ea) = CHR ''='' then Some (tl (tl ea))
                                 else Some (tl ea))
                                arg_string (action_tuples @ [act]))
               else Inl (SystemExit 2)))"
  by pat_completeness auto
termination
  by (relation "measure (\<lambda>((action, option_string, sep, explicit_arg), arg_string, action_tuples).
          case explicit_arg of None \<Rightarrow> 0 | Some ea \<Rightarrow> Suc (length ea))")
     (auto split: if_splits)

section \<open>The loop over the command line\<close>

definition finish ::
  "item list \<Rightarrow> string list \<Rightarrow> action list \<Rightarrow> pyval args \<Rightarrow> string list \<Rightarrow> (pyval args \<times> string list) result" where
  "finish pattern arg_strings positionals ns extras =
     (case consume_positionals pattern arg_strings positionals ns of
        (stop_index, required_actions, ns') \<Rightarrow>
          if required_actions \<noteq> [] then Inl (SystemExit 2)
          else Inr (ns', extras @ drop stop_index arg_strings))"

function consume ::
  "item list \<Rightarrow> string list \<Rightarrow> action list \<Rightarrow> pyval args \<Rightarrow> string list \<Rightarrow> (pyval args \<times> string list) result" where
  "consume pattern arg_strings positionals ns extras =
     (let next_option = length (takeWhile (\<lambda>x. \<not> is_optional x) pattern)
      in if next_option = length pattern then finish pattern arg_strings positionals ns extras
         else case consume_positionals pattern arg_strings positionals ns of
           (positionals_end, positionals', ns') \<Rightarrow>
             if next_option \<noteq> 0 \<and> 0 < positionals_end
             then consume (drop positionals_end pattern) (drop positionals_end arg_strings)
                    positionals' ns' extras
             else (case pattern ! next_option of
                     Optional option_tuple \<Rightarrow>
                       (case consume_optional option_tuple (arg_strings ! next_option) [] of
                          Inl e \<Rightarrow> Inl e
                        | Inr (action_tuples, unknown) \<Rightarrow>
                            (case take_optionals action_tuples of
                               Inl e \<Rightarrow> Inl e
                             | Inr u \<Rightarrow>
                                 consume (drop (Suc next_option) pattern)
                                   (drop (Suc next_option) arg_strings) positionals ns
                                   (extras @ take next_option arg_strings @ unknown)))
                   | _ \<Rightarrow> Inl (SystemExit 2)))"
  by pat_completeness auto
termination
proof (relation "measure (\<lambda>(pattern, arg_strings, positionals, ns, extras). length pattern)",
    goal_cases)
  case 1
  show ?case by simp
next
  case (2 pattern arg_strings positionals ns next_option x positionals_end)
  then have "pattern \<noteq> []" by auto
  with 2 show ?case by simp
next
  case (3 pattern)
  then have "pattern \<noteq> []" by auto
  then show ?case by simp
qed

definition parse_known_args :: "string list \<Rightarrow> (pyval args \<times> string list) result" where
  "parse_known_args arg_strings =
     (case classify arg_strings of
        Inl e \<Rightarrow> Inl e
      | Inr pattern \<Rightarrow>
          consume pattern arg_strings positional_actions
            \<lparr>bsarch = PyNone, directory = PyNone\<rparr> [])"

definition parse_args :: "string list \<Rightarrow> pyval args result" where
  "parse_args arg_strings =
     (case parse_known_args arg_strings of
        Inl e \<Rightarrow> Inl e
      | Inr (ns, argv) \<Rightarrow> if argv \<noteq> [] then Inl (SystemExit 2) else Inr ns)"

section \<open>What the parser promises\<close>

datatype judgement = Positional | Unknown | Shows_help | Rejected

definition judge :: "string \<Rightarrow> judgement" where
  "judge s =
     (if s = [] \<or> hd s \<noteq> CHR ''-'' \<or> s = ''-'' then Positional
      else if prefix ''-h'' s then
        (case dropWhile (\<lambda>c. c = CHR ''h'') (tl s) of
           [] \<Rightarrow> Shows_help
         | c # rest \<Rightarrow> if c = CHR ''-'' \<or> c = CHR ''='' then Rejected else Shows_help)
      else if prefix ''--'' s then
        (if prefix (takeWhile (\<lambda>c. c \<noteq> CHR ''='') s) ''--help''
         then (if CHR ''='' \<in> set s then Rejected else Shows_help)
         else if CHR '' '' \<in> set s then Positional else Unknown)
      else if negative_number s \<or> CHR '' '' \<in> set s then Positional else Unknown)"

definition decisive :: "judgement \<Rightarrow> bool" where
  "decisive j \<longleftrightarrow> j = Shows_help \<or> j = Rejected"

definition positional_result :: "string list \<Rightarrow> pyval args result" where
  "positional_result strings =
     (case strings of
        [x, y] \<Rightarrow> Inr \<lparr>bsarch = PyStr x, directory = if y = ''--'' then PyList [] else PyStr y\<rparr>
      | _ \<Rightarrow> Inl (SystemExit 2))"

definition usage :: "string list \<Rightarrow> pyval args result" where
  "usage argv =
     (let before = takeWhile (\<lambda>s. s \<noteq> ''--'') argv;
          after = drop 1 (dropWhile (\<lambda>s. s \<noteq> ''--'') argv)
      in case find decisive (map judge before) of
           Some j \<Rightarrow> Inl (SystemExit (if j = Shows_help then 0 else 2))
         | None \<Rightarrow>
             if Unknown \<in> set (map judge before) then Inl (SystemExit 2)
             else positional_result (before @ after))"

definition settle :: "(action list \<times> string list) result \<Rightarrow> string list result" where
  "settle r =
     (case r of
        Inl e \<Rightarrow> Inl e
      | Inr (action_tuples, unknown) \<Rightarrow>
          (case take_optionals action_tuples of Inl e \<Rightarrow> Inl e | Inr u \<Rightarrow> Inr unknown))"

fun wf_tuple :: "option_tuple \<Rightarrow> bool" where
  "wf_tuple (None, option_string, sep, explicit_arg) \<longleftrightarrow> sep = None \<and> explicit_arg = None"
| "wf_tuple (Some action, option_string, sep, explicit_arg) \<longleftrightarrow>
     action = Help \<and> (option_string = ''-h'' \<or> option_string = ''--help'') \<and>
     (case explicit_arg of
        None \<Rightarrow> True
      | Some ea \<Rightarrow>
          sep = Some ''='' \<or>
          sep = Some [] \<and> option_string = ''-h'' \<and> ea \<noteq> [] \<and> hd ea \<noteq> CHR ''='')"

definition after_h :: "string \<Rightarrow> judgement" where
  "after_h ea =
     (case dropWhile (\<lambda>c. c = CHR ''h'') ea of
        [] \<Rightarrow> Shows_help
      | c # rest \<Rightarrow> if c = CHR ''-'' \<or> c = CHR ''='' then Rejected else Shows_help)"

fun tuple_verdict :: "option_tuple \<Rightarrow> judgement" where
  "tuple_verdict (None, option_string, sep, explicit_arg) = Unknown"
| "tuple_verdict (Some action, option_string, sep, None) = Shows_help"
| "tuple_verdict (Some action, option_string, sep, Some ea) =
     (if sep = Some [] then after_h ea else Rejected)"

fun verdict :: "item \<Rightarrow> judgement" where
  "verdict (Optional option_tuple) = tuple_verdict option_tuple"
| "verdict other = Positional"

fun exit_of :: "judgement \<Rightarrow> string \<Rightarrow> string list result" where
  "exit_of Shows_help arg_string = Inl (SystemExit 0)"
| "exit_of Rejected arg_string = Inl (SystemExit 2)"
| "exit_of other arg_string = Inr [arg_string]"

section \<open>Notions for the proofs\<close>

definition plain :: "string \<Rightarrow> bool" where
  "plain s \<longleftrightarrow> hd s = CHR ''-'' \<and> 2 \<le> length s \<and> s \<noteq> ''-h'' \<and> s \<noteq> ''--help'' \<and>
     (CHR ''='' \<in> set s \<longrightarrow> takeWhile (\<lambda>c. c \<noteq> CHR ''='') s \<notin> {''-h'', ''--help''})"

definition judged :: "string \<Rightarrow> bool" where
  "judged s \<longleftrightarrow>
     parse_optional s = Inr None \<and> judge s = Positional \<or>
     (\<exists>t. parse_optional s = Inr (Some t) \<and> wf_tuple t \<and> tuple_verdict t = judge s)"

definition clear :: "nat \<Rightarrow> item list \<Rightarrow> bool" where
  "clear n pattern \<longleftrightarrow> n \<le> length pattern \<and> (\<forall>x \<in> set (take n pattern). \<not> is_optional x)"

definition options :: "item list \<Rightarrow> item list" where
  "options pattern = filter is_optional pattern"

fun wf_item :: "item \<Rightarrow> bool" where
  "wf_item (Optional option_tuple) \<longleftrightarrow> wf_tuple option_tuple"
| "wf_item other \<longleftrightarrow> True"

definition refused :: "(pyval args \<times> string list) result \<Rightarrow> bool" where
  "refused r \<longleftrightarrow> (case r of Inl e \<Rightarrow> e = SystemExit 2 | Inr (ns, extras) \<Rightarrow> extras \<noteq> [])"

definition item_of :: "string \<Rightarrow> item" where
  "item_of s = (case parse_optional s of Inr (Some t) \<Rightarrow> Optional t | _ \<Rightarrow> Argument)"

definition tail_pattern :: "string list \<Rightarrow> item list" where
  "tail_pattern rest = (case rest of [] \<Rightarrow> [] | m # after \<Rightarrow> Marker # replicate (length after) Argument)"

definition checked :: "(pyval args \<times> string list) result \<Rightarrow> pyval args result" where
  "checked r = (case r of Inl e \<Rightarrow> Inl e
                | Inr (ns, argv) \<Rightarrow> if argv \<noteq> [] then Inl (SystemExit 2) else Inr ns)"

section \<open>Facts about strings\<close>

lemma partition_eq_absent: "CHR ''='' \<notin> set s \<Longrightarrow> partition_eq s = (s, [], [])"
proof -
  assume "CHR ''='' \<notin> set s"
  then have "dropWhile (\<lambda>c. c \<noteq> CHR ''='') s = []"
    by (auto simp: dropWhile_eq_Nil_conv)
  then show ?thesis by (simp add: partition_eq_def del: dropWhile_eq_Nil_conv)
qed

lemma partition_eq_present:
  "CHR ''='' \<in> set s \<Longrightarrow>
     partition_eq s = (takeWhile (\<lambda>c. c \<noteq> CHR ''='') s, ''='',
                       tl (dropWhile (\<lambda>c. c \<noteq> CHR ''='') s))"
proof -
  assume "CHR ''='' \<in> set s"
  then have ne: "dropWhile (\<lambda>c. c \<noteq> CHR ''='') s \<noteq> []"
    by (auto simp: dropWhile_eq_Nil_conv)
  then obtain c r where eq: "dropWhile (\<lambda>c. c \<noteq> CHR ''='') s = c # r"
    by (cases "dropWhile (\<lambda>c. c \<noteq> CHR ''='') s") auto
  with hd_dropWhile [OF ne] have "c = CHR ''=''" by simp
  with eq show ?thesis by (simp add: partition_eq_def)
qed

lemma map_of_option_string_actions:
  "map_of option_string_actions s = (if s = ''-h'' \<or> s = ''--help'' then Some Help else None)"
  by (simp add: option_string_actions_def)

lemma get_option_tuples_long:
  "prefix ''--'' s \<Longrightarrow>
     get_option_tuples s =
       (if prefix (takeWhile (\<lambda>c. c \<noteq> CHR ''='') s) ''--help''
        then [(Some Help, ''--help'',
               if CHR ''='' \<in> set s then Some ''='' else None,
               if CHR ''='' \<in> set s
               then Some (tl (dropWhile (\<lambda>c. c \<noteq> CHR ''='') s)) else None)]
        else [])"
proof -
  assume "prefix ''--'' s"
  then obtain r where s: "s = CHR ''-'' # CHR ''-'' # r" by (auto simp: prefix_def)
  show ?thesis
  proof (cases "CHR ''='' \<in> set s")
    case True
    then show ?thesis
      by (simp add: get_option_tuples_def partition_eq_present option_string_actions_def)
         (simp add: s)
  next
    case False
    with s have whole: "takeWhile (\<lambda>c. c \<noteq> CHR ''='') r = r"
      by (auto simp: takeWhile_eq_all_conv)
    from False show ?thesis
      by (simp add: get_option_tuples_def partition_eq_absent option_string_actions_def)
         (simp add: s whole)
  qed
qed

lemma get_option_tuples_short:
  assumes "hd s = CHR ''-''" "2 \<le> length s" "s ! 1 \<noteq> CHR ''-''" "s \<noteq> ''-h''"
  shows "get_option_tuples s =
           (if prefix ''-h'' s then [(Some Help, ''-h'', Some [], Some (drop 2 s))] else [])"
proof -
  from assms(1,2) obtain c r where s: "s = CHR ''-'' # c # r"
    by (cases s; cases "tl s") auto
  with assms(3,4) show ?thesis
    by (auto simp: get_option_tuples_def option_string_actions_def)
qed

section \<open>One option string\<close>

declare consume_optional.simps [simp del]

lemma take_optionals_Help [simp]:
  "take_optionals (actions @ Help # others) = Inl (SystemExit 0)"
  by (induction actions rule: take_optionals.induct) simp_all

lemma consume_optional_short:
  "ea \<noteq> [] \<Longrightarrow> hd ea \<noteq> CHR ''='' \<Longrightarrow>
     settle (consume_optional (Some Help, ''-h'', Some [], Some ea) s acts) = exit_of (after_h ea) s'"
proof (induction ea arbitrary: acts)
  case Nil
  then show ?case by simp
next
  case (Cons c r)
  show ?case
  proof (cases "c = CHR ''h''")
    case False
    with Cons.prems show ?thesis
      by (simp add: consume_optional.simps [of _ _ _ "Some (c # r)"] map_of_option_string_actions
          settle_def after_h_def)
  next
    case h: True
    show ?thesis
    proof (cases r)
      case Nil
      with h show ?thesis
        by (simp add: consume_optional.simps [of _ _ _ "Some _"] consume_optional.simps [of _ _ _ None]
            map_of_option_string_actions settle_def after_h_def)
    next
      case (Cons d u)
      show ?thesis
      proof (cases "d = CHR ''=''")
        case True
        with h Cons show ?thesis
          by (simp add: consume_optional.simps [of _ _ _ "Some _"] map_of_option_string_actions
              settle_def after_h_def)
      next
        case False
        with Cons have ih:
          "settle (consume_optional (Some Help, ''-h'', Some [], Some r) s (acts @ [Help])) =
             exit_of (after_h r) s'"
          by (intro Cons.IH) simp_all
        have step: "consume_optional (Some Help, ''-h'', Some [], Some (c # r)) s acts =
                    consume_optional (Some Help, ''-h'', Some [], Some r) s (acts @ [Help])"
          using h Cons False
          by (subst consume_optional.simps) (simp add: map_of_option_string_actions)
        show ?thesis unfolding step ih using h by (simp add: after_h_def)
      qed
    qed
  qed
qed

lemma settle_Inl [simp]: "settle (Inl e) = Inl e"
  by (simp add: settle_def)

lemma consume_optional_explicit:
  "sep \<noteq> None \<Longrightarrow> sep \<noteq> Some [] \<Longrightarrow>
     consume_optional (Some action, option_string, sep, Some ea) s acts = Inl (SystemExit 2)"
  by (simp add: consume_optional.simps)

lemma settle_wf_tuple:
  "wf_tuple t \<Longrightarrow> settle (consume_optional t s []) = exit_of (tuple_verdict t) s"
proof (induction t rule: tuple_verdict.induct)
  case (1 option_string sep explicit_arg)
  then show ?case by (simp add: consume_optional.simps settle_def)
next
  case (2 action option_string sep)
  then show ?case by (auto simp: consume_optional.simps settle_def)
next
  case (3 action option_string sep ea)
  then show ?case
    by (auto simp: consume_optional_short consume_optional_explicit)
qed

section \<open>Every string is judged as the parser treats it\<close>

lemma negative_number_dashes [simp]: "\<not> negative_number (CHR ''-'' # CHR ''-'' # r)"
  by (simp add: negative_number_def digit_def)

lemma split_at_eq:
  assumes "CHR ''='' \<in> set s"
  shows "s = takeWhile (\<lambda>c. c \<noteq> CHR ''='') s @ CHR ''='' # tl (dropWhile (\<lambda>c. c \<noteq> CHR ''='') s)"
proof -
  from assms have ne: "dropWhile (\<lambda>c. c \<noteq> CHR ''='') s \<noteq> []"
    by (auto simp: dropWhile_eq_Nil_conv)
  with hd_dropWhile [OF ne]
  have "dropWhile (\<lambda>c. c \<noteq> CHR ''='') s = CHR ''='' # tl (dropWhile (\<lambda>c. c \<noteq> CHR ''='') s)"
    by (cases "dropWhile (\<lambda>c. c \<noteq> CHR ''='') s") auto
  then show ?thesis
    by (metis takeWhile_dropWhile_id)
qed

lemma parse_optional_plain:
  assumes "plain s"
  shows "parse_optional s =
           (case get_option_tuples s of
              [] \<Rightarrow> if negative_number s \<or> CHR '' '' \<in> set s then Inr None
                    else Inr (Some (None, s, None, None))
            | [option_tuple] \<Rightarrow> Inr (Some option_tuple)
            | _ \<Rightarrow> Inl (SystemExit 2))"
proof -
  from assms have "s \<noteq> []" "length s \<noteq> 1" by (auto simp: plain_def)
  with assms show ?thesis
    by (cases "CHR ''='' \<in> set s")
       (auto simp: plain_def parse_optional_def map_of_option_string_actions
          partition_eq_present partition_eq_absent split: list.splits)
qed

lemma judged_positional:
  "s = [] \<or> hd s \<noteq> CHR ''-'' \<or> s = ''-'' \<Longrightarrow> judged s"
  by (auto simp: judged_def parse_optional_def judge_def map_of_option_string_actions)

lemma judged_exact: "s = ''-h'' \<or> s = ''--help'' \<Longrightarrow> judged s"
  by (auto simp: judged_def parse_optional_def judge_def map_of_option_string_actions after_h_def)

lemma judged_explicit:
  assumes "CHR ''='' \<in> set s" "takeWhile (\<lambda>c. c \<noteq> CHR ''='') s \<in> {''-h'', ''--help''}"
  shows "judged s"
proof -
  define rest where "rest = tl (dropWhile (\<lambda>c. c \<noteq> CHR ''='') s)"
  from split_at_eq [OF assms(1)] assms(2)
  have "s = ''-h='' @ rest \<or> s = ''--help='' @ rest" by (auto simp: rest_def)
  then show ?thesis
    by (elim disjE)
       (simp_all add: judged_def parse_optional_def map_of_option_string_actions
          partition_eq_def judge_def)
qed

lemma judged_long:
  assumes "plain s" "prefix ''--'' s"
  shows "judged s"
proof -
  from assms(2) obtain r where s: "s = CHR ''-'' # CHR ''-'' # r" by (auto simp: prefix_def)
  have j: "judge s =
     (if prefix (takeWhile (\<lambda>c. c \<noteq> CHR ''='') s) ''--help''
      then (if CHR ''='' \<in> set s then Rejected else Shows_help)
      else if CHR '' '' \<in> set s then Positional else Unknown)"
    by (simp add: judge_def s)
  show ?thesis
    unfolding judged_def parse_optional_plain [OF assms(1)] get_option_tuples_long [OF assms(2)] j
    by (simp add: s)
qed

lemma judged_short:
  assumes "plain s" "\<not> prefix ''--'' s"
  shows "judged s"
proof -
  from assms obtain c r where s: "s = CHR ''-'' # c # r" and c: "c \<noteq> CHR ''-''"
    by (cases s; cases "tl s") (auto simp: plain_def)
  from assms(1) s have tuples: "get_option_tuples s =
     (if prefix ''-h'' s then [(Some Help, ''-h'', Some [], Some (drop 2 s))] else [])"
    by (intro get_option_tuples_short) (auto simp: plain_def c)
  show ?thesis
  proof (cases "c = CHR ''h''")
    case False
    with s c show ?thesis
      unfolding judged_def parse_optional_plain [OF assms(1)] tuples
      by (simp add: judge_def)
  next
    case True
    with assms(1) s have r: "r \<noteq> []" "hd r \<noteq> CHR ''=''"
      by (auto simp: plain_def) (cases r; auto)+
    with s True show ?thesis
      unfolding judged_def parse_optional_plain [OF assms(1)] tuples
      by (simp add: judge_def after_h_def)
  qed
qed

lemma judged: "judged s"
proof -
  consider "s = [] \<or> hd s \<noteq> CHR ''-'' \<or> s = ''-''" | "s = ''-h'' \<or> s = ''--help''"
    | "CHR ''='' \<in> set s" "takeWhile (\<lambda>c. c \<noteq> CHR ''='') s \<in> {''-h'', ''--help''}"
    | "plain s"
    by (cases s; cases "tl s") (auto simp: plain_def)
  then show ?thesis
    by cases (auto intro: judged_positional judged_exact judged_explicit judged_long judged_short)
qed

section \<open>Positionals never reach across an option\<close>

lemma clear_0 [simp]: "clear 0 pattern"
  by (simp add: clear_def)

lemma clear_add: "clear m pattern \<Longrightarrow> clear n (drop m pattern) \<Longrightarrow> clear (m + n) pattern"
  by (auto simp: clear_def take_add)

lemma match_group_clear: "match_group pattern = Some c \<Longrightarrow> clear c pattern \<and> 0 < c"
proof -
  assume m: "match_group pattern = Some c"
  define ms where "ms = takeWhile (\<lambda>x. x = Marker) pattern"
  from m obtain rest where rest: "dropWhile (\<lambda>x. x = Marker) pattern = Argument # rest"
    by (auto simp: match_group_def split: list.splits item.splits)
  define ms' where "ms' = takeWhile (\<lambda>x. x = Marker) rest"
  have "pattern = ms @ Argument # ms' @ dropWhile (\<lambda>x. x = Marker) rest"
    unfolding ms_def ms'_def by (metis rest takeWhile_dropWhile_id)
  moreover from m rest have "c = length (ms @ Argument # ms')"
    by (simp add: match_group_def ms_def ms'_def)
  moreover have "\<forall>x \<in> set (ms @ Argument # ms'). \<not> is_optional x"
    by (auto simp: ms_def ms'_def dest: set_takeWhileD)
  ultimately show ?thesis by (auto simp: clear_def)
qed

lemma match_groups_clear: "match_groups n pattern = Some cs \<Longrightarrow> clear (sum_list cs) pattern"
proof (induction n arbitrary: pattern cs)
  case 0
  then show ?case by simp
next
  case (Suc n)
  then obtain c cs' where c: "match_group pattern = Some c"
    and cs': "match_groups n (drop c pattern) = Some cs'" and cs: "cs = c # cs'"
    by (auto split: option.splits)
  from match_group_clear [OF c] Suc.IH [OF cs'] show ?case
    by (simp add: cs clear_add)
qed

lemma match_arguments_partial_clear: "clear (sum_list (match_arguments_partial n pattern)) pattern"
  by (induction n) (auto split: option.splits dest: match_groups_clear simp del: match_groups.simps)

lemma clear_options: "clear n pattern \<Longrightarrow> options (drop n pattern) = options pattern"
proof -
  assume "clear n pattern"
  then have "filter is_optional (take n pattern) = []" by (auto simp: clear_def)
  then have "options (take n pattern @ drop n pattern) = options (drop n pattern)"
    unfolding options_def filter_append by simp
  then show ?thesis by simp
qed

lemma options_Nil: "options pattern = [] \<Longrightarrow> length (takeWhile (\<lambda>x. \<not> is_optional x) pattern) = length pattern"
  by (simp add: options_def filter_empty_conv takeWhile_eq_all_conv [THEN iffD2])

lemma options_Cons:
  assumes "options pattern \<noteq> []"
  defines "n \<equiv> length (takeWhile (\<lambda>x. \<not> is_optional x) pattern)"
  obtains t where "pattern ! n = Optional t" "n < length pattern"
    "options pattern = Optional t # options (drop (Suc n) pattern)"
proof -
  let ?d = "dropWhile (\<lambda>x. \<not> is_optional x) pattern"
  from assms(1) have ne: "?d \<noteq> []"
    by (auto simp: options_def filter_empty_conv dropWhile_eq_Nil_conv)
  with hd_dropWhile [OF ne] obtain t rest where d: "?d = Optional t # rest"
    by (cases ?d; cases "hd ?d") auto
  have split: "pattern = takeWhile (\<lambda>x. \<not> is_optional x) pattern @ Optional t # rest"
    by (metis d takeWhile_dropWhile_id)
  have "pattern ! n = Optional t"
    by (subst split) (simp add: n_def nth_append)
  moreover have "n < length pattern"
    by (subst split) (simp add: n_def)
  moreover have "drop (Suc n) pattern = rest"
    by (subst split) (simp add: n_def)
  then have "options pattern = Optional t # options (drop (Suc n) pattern)"
    by (subst split) (auto simp: options_def filter_empty_conv dest: set_takeWhileD)
  ultimately show ?thesis by (rule that)
qed

section \<open>The loop, one round at a time\<close>

declare consume.simps [simp del]

lemma tuple_verdict_not_Positional [simp]: "tuple_verdict t \<noteq> Positional"
  by (induction t rule: tuple_verdict.induct) (auto simp: after_h_def split: list.splits)

lemma wf_item_drop: "list_all wf_item pattern \<Longrightarrow> list_all wf_item (drop n pattern)"
  by (auto simp: list_all_iff dest: in_set_dropD)

lemma consume_no_options:
  "options pattern = [] \<Longrightarrow> consume pattern strs ps ns ex = finish pattern strs ps ns ex"
  by (subst consume.simps) (simp add: options_Nil Let_def)

lemma consume_step:
  assumes "options pattern \<noteq> []"
  obtains (positionals) pe ps' ns' where "0 < pe" "clear pe pattern"
      "consume pattern strs ps ns ex = consume (drop pe pattern) (drop pe strs) ps' ns' ex"
  | (option) t n where "pattern ! n = Optional t" "n < length pattern"
      "options pattern = Optional t # options (drop (Suc n) pattern)"
      "consume pattern strs ps ns ex =
         (case settle (consume_optional t (strs ! n) []) of
            Inl e \<Rightarrow> Inl e
          | Inr unknown \<Rightarrow>
              consume (drop (Suc n) pattern) (drop (Suc n) strs) ps ns
                (ex @ take n strs @ unknown))"
proof -
  define n where "n = length (takeWhile (\<lambda>x. \<not> is_optional x) pattern)"
  define pe where "pe = sum_list (match_arguments_partial (length ps) pattern)"
  from options_Cons [OF assms] obtain t where t: "pattern ! n = Optional t" "n < length pattern"
    "options pattern = Optional t # options (drop (Suc n) pattern)"
    unfolding n_def by blast
  show ?thesis
  proof (cases "n \<noteq> 0 \<and> 0 < pe")
    case True
    with t(2) have "consume pattern strs ps ns ex =
        consume (drop pe pattern) (drop pe strs)
          (drop (length (match_arguments_partial (length ps) pattern)) ps)
          (take_positionals (zip ps (match_arguments_partial (length ps) pattern)) strs ns) ex"
      by (subst consume.simps) (simp add: n_def [symmetric] pe_def consume_positionals_def Let_def)
    with True show ?thesis
      by (intro positionals [of pe]) (simp_all add: pe_def match_arguments_partial_clear)
  next
    case False
    with t(1,2) have "consume pattern strs ps ns ex =
         (case settle (consume_optional t (strs ! n) []) of
            Inl e \<Rightarrow> Inl e
          | Inr unknown \<Rightarrow>
              consume (drop (Suc n) pattern) (drop (Suc n) strs) ps ns
                (ex @ take n strs @ unknown))"
      by (subst consume.simps)
         (auto simp: n_def [symmetric] pe_def [symmetric] consume_positionals_def Let_def
            settle_def split: sum.splits prod.splits)
    with t show ?thesis by (intro option)
  qed
qed

section \<open>The first option that decides, decides\<close>

lemma wf_item_nth: "list_all wf_item pattern \<Longrightarrow> n < length pattern \<Longrightarrow>
    pattern ! n = Optional t \<Longrightarrow> wf_tuple t"
  by (metis list_all_length wf_item.simps(1))

lemma consume_decisive:
  "find decisive (map verdict (options pattern)) = Some j \<Longrightarrow> list_all wf_item pattern \<Longrightarrow>
     consume pattern strs ps ns ex = Inl (SystemExit (if j = Shows_help then 0 else 2))"
proof (induction "length pattern" arbitrary: pattern strs ps ns ex rule: less_induct)
  case less
  from less.prems(1) have "options pattern \<noteq> []" by auto
  then show ?case
  proof (cases rule: consume_step [where strs = strs and ps = ps and ns = ns and ex = ex])
    case (positionals pe ps' ns')
    with less.prems have "consume (drop pe pattern) (drop pe strs) ps' ns' ex =
        Inl (SystemExit (if j = Shows_help then 0 else 2))"
      by (intro less.hyps) (auto simp: clear_options wf_item_drop clear_def)
    with positionals(3) show ?thesis by simp
  next
    case (option t n)
    from less.prems(2) option(1,2) have wf: "wf_tuple t" by (blast intro: wf_item_nth)
    show ?thesis
    proof (cases "decisive (tuple_verdict t)")
      case True
      with less.prems(1) option(3) have "tuple_verdict t = j" by simp
      with True show ?thesis
        by (auto simp: option(4) settle_wf_tuple [OF wf] decisive_def)
    next
      case False
      then have "tuple_verdict t = Unknown"
        by (cases "tuple_verdict t") (auto simp: decisive_def)
      moreover from less.prems option False
      have "consume (drop (Suc n) pattern) (drop (Suc n) strs) ps ns (ex @ take n strs @ [strs ! n]) =
          Inl (SystemExit (if j = Shows_help then 0 else 2))"
        by (intro less.hyps) (auto simp: wf_item_drop)
      ultimately show ?thesis
        by (simp add: option(4) settle_wf_tuple [OF wf])
    qed
  qed
qed

lemma finish_refused: "ex \<noteq> [] \<Longrightarrow> refused (finish pattern strs ps ns ex)"
  by (simp add: finish_def refused_def split: prod.splits)

lemma consume_unknown:
  "find decisive (map verdict (options pattern)) = None \<Longrightarrow> list_all wf_item pattern \<Longrightarrow>
     ex \<noteq> [] \<or> options pattern \<noteq> [] \<Longrightarrow> refused (consume pattern strs ps ns ex)"
proof (induction "length pattern" arbitrary: pattern strs ps ns ex rule: less_induct)
  case less
  show ?case
  proof (cases "options pattern = []")
    case True
    with less.prems(3) show ?thesis by (simp add: consume_no_options finish_refused)
  next
    case False
    then show ?thesis
    proof (cases rule: consume_step [where strs = strs and ps = ps and ns = ns and ex = ex])
      case (positionals pe ps' ns')
      with less.prems False have "refused (consume (drop pe pattern) (drop pe strs) ps' ns' ex)"
        by (intro less.hyps) (auto simp: clear_options wf_item_drop clear_def)
      with positionals(3) show ?thesis by simp
    next
      case (option t n)
      from less.prems(2) option(1,2) have wf: "wf_tuple t" by (blast intro: wf_item_nth)
      from less.prems(1) option(3) have "\<not> decisive (tuple_verdict t)"
        by (auto split: if_splits)
      then have "tuple_verdict t = Unknown"
        by (cases "tuple_verdict t") (auto simp: decisive_def)
      moreover from less.prems option
      have "refused (consume (drop (Suc n) pattern) (drop (Suc n) strs) ps ns
                      (ex @ take n strs @ [strs ! n]))"
        by (intro less.hyps) (auto simp: wf_item_drop split: if_splits)
      ultimately show ?thesis
        by (simp add: option(4) settle_wf_tuple [OF wf])
    qed
  qed
qed

section \<open>The pattern of a command line, in closed form\<close>

lemma parse_optional_item_of:
  "parse_optional s = Inr (case item_of s of Optional t \<Rightarrow> Some t | _ \<Rightarrow> None)"
  using judged [of s] by (auto simp: judged_def item_of_def)

lemma wf_item_of [simp]: "wf_item (item_of s)"
  using judged [of s] by (auto simp: judged_def item_of_def)

lemma verdict_item_of [simp]: "verdict (item_of s) = judge s"
  using judged [of s] by (auto simp: judged_def item_of_def)

lemma is_optional_verdict: "x \<noteq> Marker \<Longrightarrow> is_optional x \<longleftrightarrow> verdict x \<noteq> Positional"
  by (cases x) simp_all

lemma item_of_not_Marker [simp]: "item_of s \<noteq> Marker"
  by (simp add: item_of_def split: sum.splits option.splits)

lemma classify_eq:
  "classify argv = Inr (map item_of (takeWhile (\<lambda>s. s \<noteq> ''--'') argv) @
                        tail_pattern (dropWhile (\<lambda>s. s \<noteq> ''--'') argv))"
proof (induction argv)
  case Nil
  show ?case by (simp add: tail_pattern_def)
next
  case (Cons s argv)
  show ?case
  proof (cases "s = ''--''")
    case True
    then show ?thesis by (simp add: tail_pattern_def)
  next
    case False
    then show ?thesis
      by (simp add: Cons.IH parse_optional_item_of [of s] split: item.splits)
  qed
qed

section \<open>A command line without options\<close>

lemma list_shape:
  obtains "xs = []" | a where "xs = [a]" | a b where "xs = [a, b]"
  | a b c r where "xs = a # b # c # r"
  by (cases xs; cases "tl xs"; cases "tl (tl xs)") auto

lemmas finish_defs = finish_def consume_positionals_def match_group_def get_values_def
  positional_actions_def tail_pattern_def checked_def positional_result_def

lemma finish_unmarked:
  assumes "\<forall>s \<in> set before. s \<noteq> ''--''"
  shows "checked (finish (replicate (length before) Argument) before positional_actions
                    \<lparr>bsarch = PyNone, directory = PyNone\<rparr> []) = positional_result before"
  using assms by (cases before rule: list_shape) (auto simp: finish_defs)

lemma finish_marked:
  assumes "\<forall>s \<in> set before. s \<noteq> ''--''"
  shows "checked (finish (replicate (length before) Argument @ Marker # replicate (length after) Argument)
                    (before @ ''--'' # after) positional_actions
                    \<lparr>bsarch = PyNone, directory = PyNone\<rparr> []) = positional_result (before @ after)"
  using assms
  by (cases before rule: list_shape; cases after rule: list_shape) (auto simp: finish_defs)

section \<open>The parser meets its description\<close>

lemma checked_Inl [simp]: "checked (Inl e) = Inl e"
  by (simp add: checked_def)

lemma checked_refused: "refused r \<Longrightarrow> checked r = Inl (SystemExit 2)"
  by (auto simp: refused_def checked_def split: sum.splits)

lemma parse_args_checked:
  "parse_args argv =
     checked (consume (map item_of (takeWhile (\<lambda>s. s \<noteq> ''--'') argv) @
                       tail_pattern (dropWhile (\<lambda>s. s \<noteq> ''--'') argv))
                argv positional_actions \<lparr>bsarch = PyNone, directory = PyNone\<rparr> [])"
  by (simp add: parse_args_def parse_known_args_def classify_eq checked_def)

lemma options_tail_pattern [simp]: "options (xs @ tail_pattern rest) = options xs"
  by (simp add: options_def tail_pattern_def split: list.splits)

lemma wf_item_pattern [simp]:
  "list_all wf_item (map item_of before)" "list_all wf_item (tail_pattern rest)"
  by (auto simp: list_all_iff tail_pattern_def split: list.splits)

lemma find_decisive_options:
  "find decisive (map verdict (options (map item_of before))) = find decisive (map judge before)"
proof (induction before)
  case Nil
  show ?case by (simp add: options_def)
next
  case (Cons s before)
  then show ?case
    by (cases "item_of s") (auto simp: options_def decisive_def dest: arg_cong [where f = verdict])
qed

lemma options_item_of:
  "options (map item_of before) = [] \<longleftrightarrow> (\<forall>s \<in> set before. judge s = Positional)"
  by (auto simp: options_def filter_empty_conv is_optional_verdict)

lemma item_of_Argument: "judge s = Positional \<Longrightarrow> item_of s = Argument"
  using verdict_item_of [of s] by (cases "item_of s") (auto simp del: verdict_item_of)

lemma dropWhile_marker:
  obtains "dropWhile (\<lambda>s. s \<noteq> ''--'') argv = []" "takeWhile (\<lambda>s. s \<noteq> ''--'') argv = argv"
  | after where "dropWhile (\<lambda>s. s \<noteq> ''--'') argv = ''--'' # after"
      "argv = takeWhile (\<lambda>s. s \<noteq> ''--'') argv @ ''--'' # after"
proof (cases "dropWhile (\<lambda>s. s \<noteq> ''--'') argv")
  case Nil
  then show ?thesis by (intro that(1)) (auto simp: takeWhile_eq_all_conv)
next
  case (Cons m after)
  with hd_dropWhile [of "\<lambda>s. s \<noteq> ''--''" argv] have d: "dropWhile (\<lambda>s. s \<noteq> ''--'') argv = ''--'' # after"
    by simp
  show ?thesis
  proof (rule that(2))
    show "argv = takeWhile (\<lambda>s. s \<noteq> ''--'') argv @ ''--'' # after"
      unfolding d [symmetric] by simp
  qed (rule d)
qed

lemma options_replicate [simp]: "options (replicate n Argument) = []"
  by (simp add: options_def)

lemma parse_args_positional:
  assumes "\<forall>s \<in> set (takeWhile (\<lambda>s. s \<noteq> ''--'') argv). judge s = Positional"
  shows "parse_args argv =
           positional_result (takeWhile (\<lambda>s. s \<noteq> ''--'') argv @
                              drop 1 (dropWhile (\<lambda>s. s \<noteq> ''--'') argv))"
proof -
  define before where "before = takeWhile (\<lambda>s. s \<noteq> ''--'') argv"
  define rest where "rest = dropWhile (\<lambda>s. s \<noteq> ''--'') argv"
  from assms have pattern: "map item_of before = replicate (length before) Argument"
    by (auto simp: map_replicate_const [symmetric] item_of_Argument before_def)
  have before: "\<forall>s \<in> set before. s \<noteq> ''--''" by (auto simp: before_def dest: set_takeWhileD)
  have parse: "parse_args argv =
      checked (finish (replicate (length before) Argument @ tail_pattern rest)
                 argv positional_actions \<lparr>bsarch = PyNone, directory = PyNone\<rparr> [])"
    unfolding parse_args_checked before_def [symmetric] rest_def [symmetric] pattern
    by (subst consume_no_options) simp_all
  have "parse_args argv = positional_result (before @ drop 1 rest)"
  proof (cases rule: dropWhile_marker [of argv])
    case 1
    then have "rest = []" "argv = before" by (simp_all only: before_def rest_def)
    with finish_unmarked [OF before] parse show ?thesis
      by (simp add: tail_pattern_def)
  next
    case (2 after)
    then have "rest = ''--'' # after" "argv = before @ ''--'' # after"
      by (simp_all only: before_def rest_def)
    with finish_marked [OF before, of after] parse show ?thesis
      by (simp add: tail_pattern_def)
  qed
  then show ?thesis by (simp only: before_def rest_def)
qed

lemma parse_args_decisive:
  assumes "find decisive (map judge (takeWhile (\<lambda>s. s \<noteq> ''--'') argv)) = Some j"
  shows "parse_args argv = Inl (SystemExit (if j = Shows_help then 0 else 2))"
proof -
  let ?pattern = "map item_of (takeWhile (\<lambda>s. s \<noteq> ''--'') argv) @
                  tail_pattern (dropWhile (\<lambda>s. s \<noteq> ''--'') argv)"
  from assms have "consume ?pattern argv positional_actions \<lparr>bsarch = PyNone, directory = PyNone\<rparr> [] =
      Inl (SystemExit (if j = Shows_help then 0 else 2))"
    by (intro consume_decisive) (simp_all add: find_decisive_options)
  then show ?thesis by (simp add: parse_args_checked)
qed

lemma parse_args_unknown:
  assumes "find decisive (map judge (takeWhile (\<lambda>s. s \<noteq> ''--'') argv)) = None"
    and "s \<in> set (takeWhile (\<lambda>s. s \<noteq> ''--'') argv)" and "judge s = Unknown"
  shows "parse_args argv = Inl (SystemExit 2)"
proof -
  let ?pattern = "map item_of (takeWhile (\<lambda>s. s \<noteq> ''--'') argv) @
                  tail_pattern (dropWhile (\<lambda>s. s \<noteq> ''--'') argv)"
  from assms(2,3) have "options ?pattern \<noteq> []" by (fastforce simp: options_item_of)
  with assms(1) have "refused (consume ?pattern argv positional_actions
                                \<lparr>bsarch = PyNone, directory = PyNone\<rparr> [])"
    by (intro consume_unknown) (simp_all add: find_decisive_options)
  then show ?thesis by (simp add: parse_args_checked checked_refused)
qed

lemma command_line_cases:
  obtains (decided) j where "find decisive (map judge (takeWhile (\<lambda>s. s \<noteq> ''--'') argv)) = Some j"
  | (unknown) s where "find decisive (map judge (takeWhile (\<lambda>s. s \<noteq> ''--'') argv)) = None"
      "s \<in> set (takeWhile (\<lambda>s. s \<noteq> ''--'') argv)" "judge s = Unknown"
  | (positional) "find decisive (map judge (takeWhile (\<lambda>s. s \<noteq> ''--'') argv)) = None"
      "Unknown \<notin> set (map judge (takeWhile (\<lambda>s. s \<noteq> ''--'') argv))"
      "\<forall>s \<in> set (takeWhile (\<lambda>s. s \<noteq> ''--'') argv). judge s = Positional"
proof (cases "find decisive (map judge (takeWhile (\<lambda>s. s \<noteq> ''--'') argv))")
  case (Some j)
  then show ?thesis by (rule decided)
next
  case None
  show ?thesis
  proof (cases "Unknown \<in> set (map judge (takeWhile (\<lambda>s. s \<noteq> ''--'') argv))")
    case True
    then obtain s where "s \<in> set (takeWhile (\<lambda>s. s \<noteq> ''--'') argv)" "judge s = Unknown"
      by auto
    with None show ?thesis by (rule unknown)
  next
    case False
    have "judge s = Positional" if "s \<in> set (takeWhile (\<lambda>s. s \<noteq> ''--'') argv)" for s
      using that None False
      by (cases "judge s") (auto simp: find_None_iff decisive_def image_iff)
    with None False show ?thesis by (intro positional) simp_all
  qed
qed

lemma parse_args_Inr:
  assumes "parse_args argv = Inr ns"
  shows "(\<forall>s \<in> set (takeWhile (\<lambda>s. s \<noteq> ''--'') argv). judge s = Positional) \<and>
         positional_result (takeWhile (\<lambda>s. s \<noteq> ''--'') argv @
                            drop 1 (dropWhile (\<lambda>s. s \<noteq> ''--'') argv)) = Inr ns"
proof (cases argv rule: command_line_cases)
  case (decided j)
  with assms show ?thesis by (simp add: parse_args_decisive)
next
  case (unknown s)
  with assms show ?thesis by (simp add: parse_args_unknown [of argv s])
next
  case positional
  with assms show ?thesis by (simp add: parse_args_positional)
qed

lemma positional_result_Inl: "positional_result strings = Inl e \<Longrightarrow> e = SystemExit 2"
  by (auto simp: positional_result_def split: list.splits)

lemma parse_args_Inl:
  assumes "parse_args argv = Inl e"
  shows "e = SystemExit 0 \<or> e = SystemExit 2"
proof (cases argv rule: command_line_cases)
  case (decided j)
  with assms show ?thesis by (cases "j = Shows_help") (simp_all add: parse_args_decisive)
next
  case (unknown s)
  with assms show ?thesis by (simp add: parse_args_unknown [of argv s])
next
  case positional
  with assms show ?thesis by (auto simp: parse_args_positional dest: positional_result_Inl)
qed

section \<open>Examples\<close>

text \<open>
  Command lines and what the parser makes of them, computed from the
  definitions of the parser alone. Each line can be compared with
  \<^verbatim>\<open>parser.parse_args([...])\<close> in Python 3.11.
\<close>

lemma parse_args_examples:
  "parse_args [''bsarch.exe'', ''data''] = Inr \<lparr>bsarch = PyStr ''bsarch.exe'', directory = PyStr ''data''\<rparr>"
  "parse_args [''bsarch.exe''] = Inl (SystemExit 2)"
  "parse_args [''bsarch.exe'', ''data'', ''more''] = Inl (SystemExit 2)"
  "parse_args [''-h''] = Inl (SystemExit 0)"
  "parse_args [''bsarch.exe'', ''data'', ''--he''] = Inl (SystemExit 0)"
  "parse_args [''bsarch.exe'', ''-hv'', ''data''] = Inl (SystemExit 0)"
  "parse_args [''bsarch.exe'', ''-h=1'', ''data''] = Inl (SystemExit 2)"
  "parse_args [''bsarch.exe'', ''--help=1'', ''data''] = Inl (SystemExit 2)"
  "parse_args [''bsarch.exe'', ''-v'', ''data''] = Inl (SystemExit 2)"
  "parse_args [''bsarch.exe'', ''-5''] = Inr \<lparr>bsarch = PyStr ''bsarch.exe'', directory = PyStr ''-5''\<rparr>"
  "parse_args [''bsarch.exe'', ''-.5''] = Inr \<lparr>bsarch = PyStr ''bsarch.exe'', directory = PyStr ''-.5''\<rparr>"
  "parse_args [''bsarch.exe'', ''-5.''] = Inl (SystemExit 2)"
  "parse_args [''bsarch.exe'', ''-my data''] = Inr \<lparr>bsarch = PyStr ''bsarch.exe'', directory = PyStr ''-my data''\<rparr>"
  "parse_args [''bsarch.exe'', ''-''] = Inr \<lparr>bsarch = PyStr ''bsarch.exe'', directory = PyStr ''-''\<rparr>"
  "parse_args [''--'', ''-bsarch'', ''-data''] = Inr \<lparr>bsarch = PyStr ''-bsarch'', directory = PyStr ''-data''\<rparr>"
  "parse_args [''bsarch.exe'', ''--'', ''-h''] = Inr \<lparr>bsarch = PyStr ''bsarch.exe'', directory = PyStr ''-h''\<rparr>"
  "parse_args [''bsarch.exe'', ''data'', ''--''] = Inr \<lparr>bsarch = PyStr ''bsarch.exe'', directory = PyStr ''data''\<rparr>"
  "parse_args [''--'', ''bsarch.exe'', ''--''] = Inr \<lparr>bsarch = PyStr ''bsarch.exe'', directory = PyList []\<rparr>"
  "parse_args [''bsarch.exe'', ''--'', ''--''] = Inr \<lparr>bsarch = PyStr ''bsarch.exe'', directory = PyList []\<rparr>"
  "parse_args [''--'', ''--'', ''data''] = Inr \<lparr>bsarch = PyStr ''--'', directory = PyStr ''data''\<rparr>"
  by code_simp+

section \<open>Properties\<close>

text \<open>
  C11. The parser, run on any command line, ends as its description \<open>usage\<close>
  says: the first string before a \<^verbatim>\<open>--\<close> that asks for help or is an option
  with a value it cannot take decides the exit status, 0 or 2; otherwise an
  unknown option gives status 2; otherwise the strings before and after the
  first \<^verbatim>\<open>--\<close> must be exactly two, and they fill the namespace in order,
  the second as the empty list when it is itself \<^verbatim>\<open>--\<close>.
\<close>

theorem parse_args_usage: "parse_args argv = usage argv"
proof (cases argv rule: command_line_cases)
  case (decided j)
  then show ?thesis by (simp add: usage_def parse_args_decisive)
next
  case (unknown s)
  then have "parse_args argv = Inl (SystemExit 2)" by (rule parse_args_unknown)
  moreover from unknown have "Unknown \<in> set (map judge (takeWhile (\<lambda>s. s \<noteq> ''--'') argv))"
    by force
  ultimately show ?thesis using unknown(1) by (simp add: usage_def)
next
  case positional
  then show ?thesis by (simp add: usage_def parse_args_positional)
qed

theorem parse_args_usage_witness:
  "parse_args [''--'', ''bsarch.exe'', ''--''] = Inr \<lparr>bsarch = PyStr ''bsarch.exe'', directory = PyList []\<rparr>
   \<and> parse_args [''-verbose'', ''bsarch.exe'', ''data'', ''-hx''] = Inl (SystemExit 0)
   \<and> parse_args [''bsarch.exe'', ''-1.5'', ''--he=1''] = Inl (SystemExit 2)
   \<and> parse_args [''bsarch.exe'', ''-1.5'', ''--'', ''--help''] = Inl (SystemExit 2)
   \<and> parse_args [''-5'', ''--'', ''-h''] = Inr \<lparr>bsarch = PyStr ''-5'', directory = PyStr ''-h''\<rparr>"
  by (simp add: parse_args_usage usage_def judge_def decisive_def positional_result_def
        negative_number_def digit_def at_end_def)

end
