(* ===== verification/Pack_Arguments.thy ===== *)
theory Pack_Arguments
  imports Pack_Argparse
begin

text \<open>
  The function \<^verbatim>\<open>parse_arguments\<close> of \<^verbatim>\<open>tes4_pack.py\<close>: it builds the parser
  of \<open>Pack_Argparse\<close> and returns what \<^verbatim>\<open>parse_args\<close> makes of the command line.

  \<^item> \<open>parse_arguments\<close> is the function; the command line is its argument
    because the model has no global \<^verbatim>\<open>sys.argv\<close>.
  \<^item> \<open>untyped\<close> takes a namespace whose two attributes are strings to the
    namespace of values that the parser returns for it. The rest of the
    development states what the script does with such a namespace.
  \<^item> \<open>dashed\<close> recognises the strings that begin with \<^verbatim>\<open>-\<close>; a command line
    without them has no option and no \<^verbatim>\<open>--\<close>.

  The lemmas give the result of \<open>parse_arguments\<close> on the command lines the
  other theories need: two plain strings, a wrong number of plain strings,
  a request for help, and what a returned namespace can hold.
\<close>

section \<open>The function\<close>

definition parse_arguments :: "string list \<Rightarrow> pyval args result" where
  "parse_arguments argv = parse_args argv"

section \<open>Namespaces of strings\<close>

definition untyped :: "string args \<Rightarrow> pyval args" where
  "untyped a = \<lparr>bsarch = PyStr (bsarch a), directory = PyStr (directory a)\<rparr>"

definition dashed :: "string \<Rightarrow> bool" where
  "dashed s \<longleftrightarrow> (case s of [] \<Rightarrow> False | c # _ \<Rightarrow> c = CHR ''-'')"

lemmas arguments_defs [pack_defs] = dashed_def parse_arguments_def

lemma bsarch_untyped [simp]: "bsarch (untyped a) = PyStr (bsarch a)"
  by (simp add: untyped_def)

lemma directory_untyped [simp]: "directory (untyped a) = PyStr (directory a)"
  by (simp add: untyped_def)

lemma untyped_inject [simp]: "untyped a = untyped b \<longleftrightarrow> a = b"
  by (cases a; cases b) (simp add: untyped_def)

section \<open>Positional command lines\<close>

lemma judge_not_dashed: "\<not> dashed s \<Longrightarrow> judge s = Positional"
  by (cases s) (simp_all add: dashed_def judge_def)

lemma not_dashed_all:
  "\<not> list_ex dashed argv \<Longrightarrow> takeWhile (\<lambda>s. s \<noteq> ''--'') argv = argv \<and>
     dropWhile (\<lambda>s. s \<noteq> ''--'') argv = [] \<and> (\<forall>s \<in> set argv. judge s = Positional)"
  by (auto simp: list_ex_iff takeWhile_eq_all_conv dropWhile_eq_Nil_conv judge_not_dashed dashed_def)

lemma parse_arguments_positional:
  "\<not> list_ex dashed argv \<Longrightarrow> parse_arguments argv = positional_result argv"
  using parse_args_positional [of argv] by (simp add: parse_arguments_def not_dashed_all)

lemma parse_arguments_two:
  "\<not> dashed b \<Longrightarrow> \<not> dashed d \<Longrightarrow>
     parse_arguments [b, d] = Inr (untyped \<lparr>bsarch = b, directory = d\<rparr>)"
  by (auto simp: parse_arguments_positional positional_result_def untyped_def dashed_def)

lemma parse_arguments_Inr_positional:
  assumes "\<not> list_ex dashed argv" and "parse_arguments argv = Inr ns"
  shows "\<exists>a. ns = untyped a \<and> argv = [bsarch a, directory a]"
proof -
  from assms obtain b d where argv: "argv = [b, d]"
    by (auto simp: parse_arguments_positional positional_result_def split: list.splits)
  with assms have "ns = untyped \<lparr>bsarch = b, directory = d\<rparr>"
    by (simp add: parse_arguments_two)
  with argv show ?thesis by (intro exI [of _ "\<lparr>bsarch = b, directory = d\<rparr>"]) simp
qed

lemma parse_arguments_wrong_count:
  "\<not> list_ex dashed argv \<Longrightarrow> length argv \<noteq> 2 \<Longrightarrow>
     parse_arguments argv = Inl (SystemExit 2)"
  by (auto simp: parse_arguments_positional positional_result_def split: list.splits)

section \<open>Command lines with options\<close>

lemma parse_arguments_decisive:
  "find decisive (map judge (takeWhile (\<lambda>s. s \<noteq> ''--'') argv)) = Some j \<Longrightarrow>
     parse_arguments argv = Inl (SystemExit (if j = Shows_help then 0 else 2))"
  by (simp add: parse_arguments_def parse_args_decisive)

lemma parse_arguments_help:
  "parse_arguments (''-h'' # argv) = Inl (SystemExit 0)"
  "parse_arguments (''--help'' # argv) = Inl (SystemExit 0)"
  by (simp_all add: parse_arguments_decisive [where j = Shows_help] judge_def decisive_def)

section \<open>Every result\<close>

lemma positional_result_Inr:
  assumes "positional_result strings = Inr ns"
  shows "(\<exists>a. ns = untyped a) \<or> (\<exists>b. ns = \<lparr>bsarch = PyStr b, directory = PyList []\<rparr>)"
proof -
  from assms obtain x y
    where ns: "ns = \<lparr>bsarch = PyStr x, directory = if y = ''--'' then PyList [] else PyStr y\<rparr>"
    by (auto simp: positional_result_def split: list.splits)
  show ?thesis
  proof (cases "y = ''--''")
    case True
    with ns show ?thesis by simp
  next
    case False
    with ns have "ns = untyped \<lparr>bsarch = x, directory = y\<rparr>" by (simp add: untyped_def)
    then show ?thesis by blast
  qed
qed

lemma usage_cases:
  obtains (exit) n where "usage argv = Inl (SystemExit n)" "n = 0 \<or> n = 2"
  | (strings) a where "usage argv = Inr (untyped a)"
  | (marker) b where "usage argv = Inr \<lparr>bsarch = PyStr b, directory = PyList []\<rparr>"
proof (cases "usage argv")
  case (Inl e)
  then have "e = SystemExit 0 \<or> e = SystemExit 2"
    by (auto simp: usage_def Let_def positional_result_def
             split: option.splits if_splits list.splits)
  with Inl show ?thesis by (auto intro: exit)
next
  case (Inr ns)
  then have "positional_result (takeWhile (\<lambda>s. s \<noteq> ''--'') argv @
                                drop 1 (dropWhile (\<lambda>s. s \<noteq> ''--'') argv)) = Inr ns"
    by (simp add: usage_def Let_def split: option.splits if_splits)
  from positional_result_Inr [OF this] Inr show ?thesis
    by (auto intro: strings marker)
qed

lemma parse_arguments_marker_last:
  "parse_arguments [''--'', b, ''--''] = Inr \<lparr>bsarch = PyStr b, directory = PyList []\<rparr>"
  by (simp add: parse_arguments_def parse_args_positional positional_result_def)

lemma parse_arguments_marker_twice:
  "judge b = Positional \<Longrightarrow> b \<noteq> ''--'' \<Longrightarrow>
     parse_arguments [b, ''--'', ''--''] = Inr \<lparr>bsarch = PyStr b, directory = PyList []\<rparr>"
  by (simp add: parse_arguments_def parse_args_positional positional_result_def)

lemma marker_last_cases:
  assumes "takeWhile (\<lambda>s. s \<noteq> ''--'') argv @ drop 1 (dropWhile (\<lambda>s. s \<noteq> ''--'') argv) = [x, ''--'']"
  shows "argv = [''--'', x, ''--''] \<or> argv = [x, ''--'', ''--'']"
proof (cases rule: dropWhile_marker [of argv])
  case 1
  with assms have "''--'' \<in> set (takeWhile (\<lambda>s. s \<noteq> ''--'') argv)" by simp
  then show ?thesis by (auto dest: set_takeWhileD)
next
  case (2 after)
  define before where "before = takeWhile (\<lambda>s. s \<noteq> ''--'') argv"
  have "''--'' \<notin> set before" by (auto simp: before_def dest: set_takeWhileD)
  moreover from assms 2(1) have "before @ after = [x, ''--'']" by (simp add: before_def)
  ultimately have "before = [] \<and> after = [x, ''--''] \<or> before = [x] \<and> after = [''--'']"
    by (cases before rule: list_shape) auto
  moreover from 2(2) have "argv = before @ ''--'' # after" by (simp only: before_def)
  ultimately show ?thesis by auto
qed

lemma parse_arguments_Inl:
  "parse_arguments argv = Inl e \<Longrightarrow> e = SystemExit 0 \<or> e = SystemExit 2"
  by (simp add: parse_arguments_def parse_args_Inl)

section \<open>Properties\<close>

text \<open>
  C15. When \<open>parse_arguments\<close> returns, the attribute \<^verbatim>\<open>bsarch\<close> is a string, and
  so is \<^verbatim>\<open>directory\<close>, with one exception: on the command lines
  \<^verbatim>\<open>-- B --\<close> and \<^verbatim>\<open>B -- --\<close> the attribute \<^verbatim>\<open>directory\<close> is the empty list.
\<close>

theorem parse_arguments_namespace:
  assumes "parse_arguments argv = Inr ns"
  shows "(\<exists>a. ns = untyped a) \<or>
         (\<exists>b. ns = \<lparr>bsarch = PyStr b, directory = PyList []\<rparr> \<and>
              (argv = [''--'', b, ''--''] \<or> argv = [b, ''--'', ''--'']))"
proof -
  let ?strings = "takeWhile (\<lambda>s. s \<noteq> ''--'') argv @ drop 1 (dropWhile (\<lambda>s. s \<noteq> ''--'') argv)"
  from assms have "parse_args argv = Inr ns" by (simp add: parse_arguments_def)
  from parse_args_Inr [OF this] have "positional_result ?strings = Inr ns" by simp
  then obtain x y where two: "?strings = [x, y]"
    and ns: "ns = \<lparr>bsarch = PyStr x, directory = if y = ''--'' then PyList [] else PyStr y\<rparr>"
    by (auto simp: positional_result_def split: list.splits)
  show ?thesis
  proof (cases "y = ''--''")
    case True
    with two have "argv = [''--'', x, ''--''] \<or> argv = [x, ''--'', ''--'']"
      by (intro marker_last_cases) simp
    with ns True show ?thesis by auto
  next
    case False
    with ns have "ns = untyped \<lparr>bsarch = x, directory = y\<rparr>" by (simp add: untyped_def)
    then show ?thesis by blast
  qed
qed

theorem parse_arguments_namespace_witness:
  "parse_arguments [''--'', ''b'', ''--''] = Inr \<lparr>bsarch = PyStr ''b'', directory = PyList []\<rparr> \<and>
   ((\<exists>a. \<lparr>bsarch = PyStr ''b'', directory = PyList []\<rparr> = untyped a) \<or>
    (\<exists>b. \<lparr>bsarch = PyStr ''b'', directory = PyList []\<rparr> = \<lparr>bsarch = PyStr b, directory = PyList []\<rparr> \<and>
         ([''--'', ''b'', ''--''] = [''--'', b, ''--''] \<or> [''--'', ''b'', ''--''] = [b, ''--'', ''--''])))"
  using parse_arguments_namespace [OF parse_arguments_marker_last [of "''b''"]]
  by (simp add: parse_arguments_marker_last)

end
