(* ===== verification/Pack_Combinate.thy ===== *)
theory Pack_Combinate
  imports Pack_Flags Pack_Itertools Pack_Format Pack_World Pack_Arguments
begin

text \<open>
  The function \<^verbatim>\<open>combinate\<close> of \<^verbatim>\<open>tes4_pack.py\<close>: for each format and each
  combination of flags, one child process, started and awaited before the
  next, with \<^verbatim>\<open>check=True\<close>.

  \<^item> \<open>af_of\<close> is the value of the variable \<^verbatim>\<open>af\<close>: the last element of the
    running bitwise unions of a combination.
  \<^item> \<open>command\<close> is the argument list of one call of \<^verbatim>\<open>subprocess.run\<close>: a
    list of values, with the two attributes of the namespace as the parser
    left them.
  \<^item> \<open>combinate_body\<close> is the body of the inner loop, \<open>combinate_formats\<close> the outer
    loop with the inner loop in it, \<open>combinate\<close> the function. The inner loop
    runs over the iterator that \<open>powerset\<close> returned, and it is the same
    iterator for every format.

  The specification the code is compared with is written separately, and is
  not a translation of any code:
  \<^item> \<open>flag_union\<close> is the bitwise union of a combination, \<open>flag_combinations\<close> the
    sixteen unions in the order of the power set;
  \<^item> \<open>command_line\<close> is the command line of a job for a namespace of strings;
  \<^item> \<open>run_all\<close> runs a list of command lines one after the other and stops at
    the first that fails; \<open>calls_made\<close> is the log it writes and \<open>verdict\<close> its
    result;
  \<^item> \<open>planned\<close> is the list of the forty-eight command lines that the
    description of the tool promises, \<open>executed\<close> the list the code really
    works through.

  The lemmas show that \<open>combinate\<close>, given a namespace of strings, is \<open>run_all\<close>
  on \<open>executed\<close> whatever the child processes do, that \<open>executed\<close> is the first
  third of \<open>planned\<close>, and what the log and the result are when every process
  succeeds and when one fails. Given a namespace with an attribute that is
  not a string, \<open>combinate\<close> raises \<^verbatim>\<open>TypeError\<close> at its first call and starts
  nothing.
\<close>

unbundle bit_operations_syntax

section \<open>The code\<close>

definition command :: "pyval args \<Rightarrow> string \<Rightarrow> int \<Rightarrow> pyval list" where
  "command a_args format af =
     [bsarch a_args, PyStr ''pack'', directory a_args, PyStr (archive_name format af),
      PyStr (format_switch format), PyStr (af_switch af)]"

definition af_of :: "int list \<Rightarrow> int result" where
  "af_of combo = getitem (accumulate combo (\<lambda>sum elem. sum OR elem) 0) (- 1)"

definition combinate_body :: "env \<Rightarrow> pyval args \<Rightarrow> string \<Rightarrow> int list \<Rightarrow> (unit, world) exec" where
  "combinate_body env a_args format combo =
     bind_exec (lift_result (af_of combo))
       (\<lambda>af. subprocess_run env (command a_args format af) True)"

fun combinate_formats ::
  "env \<Rightarrow> pyval args \<Rightarrow> string list \<Rightarrow> int list iterator \<Rightarrow> (unit, world) exec" where
  "combinate_formats env a_args [] combinations_it = return_exec ()"
| "combinate_formats env a_args (format # formats) combinations_it =
     bind_exec (for_iter (combinate_body env a_args format) combinations_it)
       (\<lambda>combinations_it. combinate_formats env a_args formats combinations_it)"

definition combinate :: "env \<Rightarrow> pyval args \<Rightarrow> (unit, world) exec" where
  "combinate env a_args =
     (let combinations_it = powerset (map flag_value members);
          formats = [''tes4'', ''tes5'', ''sse'']
      in combinate_formats env a_args formats combinations_it)"

section \<open>The specification\<close>

definition command_line :: "string args \<Rightarrow> string \<Rightarrow> int \<Rightarrow> string list" where
  "command_line a format af =
     [bsarch a, ''pack'', directory a, archive_name format af,
      format_switch format, af_switch af]"

definition flag_union :: "int list \<Rightarrow> int" where
  "flag_union combo = foldl (OR) 0 combo"

definition flag_combinations :: "int list" where
  "flag_combinations = map flag_union (pending (powerset (map flag_value members)))"

definition run_all :: "env \<Rightarrow> string list list \<Rightarrow> (unit, world) exec" where
  "run_all env cmds = for_in (\<lambda>cmd. run_child env cmd True) cmds"

fun calls_made :: "env \<Rightarrow> path \<Rightarrow> call list \<Rightarrow> string list list \<Rightarrow> call list" where
  "calls_made env dir history [] = []"
| "calls_made env dir history (cmd # cmds) =
     (let c = \<lparr>call_cwd = dir, call_args = cmd, call_outcome = env history dir cmd\<rparr>
      in c # (if call_outcome c = Exited 0 then calls_made env dir (history @ [c]) cmds else []))"

definition raised :: "call \<Rightarrow> py_error option" where
  "raised c =
     (case call_outcome c of
        Failed e \<Rightarrow> Some (OSError e)
      | Exited retcode \<Rightarrow>
          if retcode \<noteq> 0 then Some (CalledProcessError retcode (call_args c)) else None)"

definition verdict :: "call list \<Rightarrow> unit result" where
  "verdict cs =
     (if cs = [] then Inr ()
      else case raised (last cs) of None \<Rightarrow> Inr () | Some e \<Rightarrow> Inl e)"

definition planned :: "string args \<Rightarrow> string list list" where
  "planned a = concat (map (\<lambda>format. map (command_line a format) flag_combinations)
                          [''tes4'', ''tes5'', ''sse''])"

definition executed :: "string args \<Rightarrow> string list list" where
  "executed a = map (command_line a ''tes4'') flag_combinations"

definition succeeded :: "path \<Rightarrow> string list \<Rightarrow> call" where
  "succeeded dir cmd = \<lparr>call_cwd = dir, call_args = cmd, call_outcome = Exited 0\<rparr>"

section \<open>One call\<close>

lemma raised_None_iff: "raised c = None \<longleftrightarrow> call_outcome c = Exited 0"
  by (auto simp: raised_def split: outcome.splits)

lemma raised_succeeded [simp]: "raised (succeeded dir cmd) = None"
  by (simp add: raised_def succeeded_def)

lemma af_of_flag_union: "af_of combo = Inr (flag_union combo)"
  by (simp add: af_of_def flag_union_def getitem_last last_accumulate)

lemma run_child_call:
  "run_child env cmd True w =
     (let c = \<lparr>call_cwd = cwd w, call_args = cmd, call_outcome = env (log w) (cwd w) cmd\<rparr>
      in (case raised c of None \<Rightarrow> Inr () | Some e \<Rightarrow> Inl e, w\<lparr>log := log w @ [c]\<rparr>))"
  by (simp add: run_child_def raised_def Let_def split: outcome.splits)

lemma command_untyped: "command (untyped a) format af = map PyStr (command_line a format af)"
  by (simp add: command_def command_line_def)

lemma command_not_strings:
  "\<not> is_PyStr (bsarch ns) \<or> \<not> is_PyStr (directory ns) \<Longrightarrow>
     \<not> list_all is_PyStr (command ns format af)"
  by (auto simp: command_def)

lemma combinate_body_eq:
  "combinate_body env (untyped a) format combo =
     run_child env (command_line a format (flag_union combo)) True"
  by (simp add: combinate_body_def af_of_flag_union fun_eq_iff bind_exec_def command_untyped)

lemma combinate_body_TypeError:
  "\<not> is_PyStr (bsarch ns) \<or> \<not> is_PyStr (directory ns) \<Longrightarrow>
     combinate_body env ns format combo w = (Inl TypeError, w)"
  by (simp add: combinate_body_def af_of_flag_union bind_exec_def subprocess_run_TypeError
        command_not_strings)

section \<open>Running a list of commands\<close>

lemma verdict_Nil [simp]: "verdict [] = Inr ()"
  by (simp add: verdict_def)

lemma verdict_Cons:
  "verdict (c # cs) =
     (if cs = [] then (case raised c of None \<Rightarrow> Inr () | Some e \<Rightarrow> Inl e) else verdict cs)"
  by (simp add: verdict_def)

lemma run_all_Nil [simp]: "run_all env [] = return_exec ()"
  by (simp add: run_all_def)

lemma run_all_Cons:
  "run_all env (cmd # cmds) = bind_exec (run_child env cmd True) (\<lambda>_. run_all env cmds)"
  by (simp add: run_all_def)

lemma run_all_calls_made:
  "run_all env cmds w =
     (verdict (calls_made env (cwd w) (log w) cmds),
      w\<lparr>log := log w @ calls_made env (cwd w) (log w) cmds\<rparr>)"
proof (induction cmds arbitrary: w)
  case Nil
  then show ?case by simp
next
  case (Cons cmd cmds)
  define c where
    "c = \<lparr>call_cwd = cwd w, call_args = cmd, call_outcome = env (log w) (cwd w) cmd\<rparr>"
  show ?case
  proof (cases "raised c")
    case None
    then have ok: "call_outcome c = Exited 0" by (simp add: raised_None_iff)
    from None have "run_all env (cmd # cmds) w = run_all env cmds (w\<lparr>log := log w @ [c]\<rparr>)"
      by (simp add: run_all_Cons run_child_call bind_exec_def c_def)
    also note Cons.IH
    finally show ?thesis
      using None ok by (simp add: verdict_Cons Let_def flip: c_def)
  next
    case (Some e)
    then have "call_outcome c \<noteq> Exited 0" by (simp flip: raised_None_iff)
    with Some show ?thesis
      by (simp add: run_all_Cons run_child_call bind_exec_def verdict_Cons Let_def
               flip: c_def)
  qed
qed

section \<open>The log of a run\<close>

lemma calls_made_eq_Nil [simp]: "calls_made env dir h cmds = [] \<longleftrightarrow> cmds = []"
  by (cases cmds) (simp_all add: Let_def)

lemma calls_made_args: "prefix (map call_args (calls_made env dir h cmds)) cmds"
  by (induction cmds arbitrary: h) (auto simp: Let_def)

lemma calls_made_length: "length (calls_made env dir h cmds) \<le> length cmds"
  using prefix_length_le [OF calls_made_args [of env dir h cmds]] by simp

lemma calls_made_cwd: "c \<in> set (calls_made env dir h cmds) \<Longrightarrow> call_cwd c = dir"
  by (induction cmds arbitrary: h) (auto simp: Let_def split: if_splits)

lemma calls_made_butlast:
  "c \<in> set (butlast (calls_made env dir h cmds)) \<Longrightarrow> call_outcome c = Exited 0"
  by (induction cmds arbitrary: h) (auto simp: Let_def split: if_splits)

lemma calls_made_outcome:
  "i < length (calls_made env dir h cmds) \<Longrightarrow>
     call_outcome (calls_made env dir h cmds ! i)
       = env (h @ take i (calls_made env dir h cmds)) dir (cmds ! i)"
proof (induction cmds arbitrary: h i)
  case Nil
  then show ?case by simp
next
  case (Cons cmd cmds)
  then show ?case by (cases i) (auto simp: Let_def split: if_splits)
qed

lemma calls_made_all_succeed:
  "(\<And>h cmd. env h dir cmd = Exited 0) \<Longrightarrow>
     calls_made env dir h cmds = map (succeeded dir) cmds"
  by (induction cmds arbitrary: h) (auto simp: Let_def succeeded_def)

lemma verdict_Inr_all:
  "verdict (calls_made env dir h cmds) = Inr () \<Longrightarrow>
     calls_made env dir h cmds = map (succeeded dir) cmds"
proof (induction cmds arbitrary: h)
  case Nil
  then show ?case by simp
next
  case (Cons cmd cmds)
  then show ?case
    by (auto simp: Let_def verdict_Cons succeeded_def raised_None_iff
             split: if_splits option.splits)
qed

lemma verdict_map_succeeded [simp]: "verdict (map (succeeded dir) cmds) = Inr ()"
  by (simp add: verdict_def last_map)

lemma verdict_Inl_last:
  "verdict cs = Inl e \<Longrightarrow> cs \<noteq> [] \<and> raised (last cs) = Some e"
  by (auto simp: verdict_def split: if_splits option.splits)

section \<open>The loops of combinate\<close>

lemma for_in_map: "for_in body (map g xs) = for_in (\<lambda>x. body (g x)) xs"
  by (induction xs) auto

lemma combinate_formats_exhausted:
  "combinate_formats env a formats (Iterator []) = return_exec ()"
  by (induction formats) auto

lemma combinate_formats_for_in:
  "combinate_formats env ns (format # formats) it =
     for_in (combinate_body env ns format) (pending it)"
proof -
  have "combinate_formats env ns (format # formats) it
      = bind_exec (for_in (combinate_body env ns format) (pending it))
          (\<lambda>_. combinate_formats env ns formats (Iterator []))"
    by (simp add: for_iter_for_in bind_exec_assoc)
  then show ?thesis
    by (simp add: combinate_formats_exhausted)
qed

lemma combinate_formats_Cons:
  "combinate_formats env (untyped a) (format # formats) it =
     run_all env (map (\<lambda>combo. command_line a format (flag_union combo)) (pending it))"
  by (simp only: combinate_formats_for_in)
     (simp add: run_all_def for_in_map combinate_body_eq [abs_def])

lemma combinate_TypeError:
  assumes "\<not> is_PyStr (bsarch ns) \<or> \<not> is_PyStr (directory ns)"
  shows "combinate env ns w = (Inl TypeError, w)"
proof -
  have "length (pending (powerset (map flag_value members))) \<noteq> 0"
    by (simp only: length_powerset) simp
  then obtain combo combos where "pending (powerset (map flag_value members)) = combo # combos"
    by (cases "pending (powerset (map flag_value members))") simp_all
  with assms show ?thesis
    by (simp only: combinate_def Let_def combinate_formats_for_in)
       (simp add: combinate_body_TypeError bind_exec_def)
qed

lemma combinate_calls_made:
  "combinate env (untyped a) w =
     (verdict (calls_made env (cwd w) (log w) (executed a)),
      w\<lparr>log := log w @ calls_made env (cwd w) (log w) (executed a)\<rparr>)"
  by (simp only: combinate_def Let_def combinate_formats_Cons executed_def
        flag_combinations_def map_map comp_def run_all_calls_made)

lemma combinate_run_all: "combinate env (untyped a) w = run_all env (executed a) w"
  by (simp only: combinate_calls_made run_all_calls_made)

lemma args_cases:
  fixes ns :: "pyval args"
  obtains (strings) a where "ns = untyped a"
  | (other) "\<not> is_PyStr (bsarch ns) \<or> \<not> is_PyStr (directory ns)"
proof (cases "is_PyStr (bsarch ns) \<and> is_PyStr (directory ns)")
  case True
  then have "ns = untyped \<lparr>bsarch = str_of (bsarch ns), directory = str_of (directory ns)\<rparr>"
    by (cases ns) (auto simp: untyped_def is_PyStr_def)
  then show ?thesis by (rule strings)
next
  case False
  then show ?thesis by (intro other) simp
qed

section \<open>The jobs\<close>

lemma flag_combinations_eq [pack_defs]:
  "flag_combinations = [0, 1, 2, 4, 256, 3, 5, 257, 6, 258, 260, 7, 259, 261, 262, 263]"
  by (simp add: flag_combinations_def flag_union_def pending_powerset pack_defs upt_rec)

lemma length_flag_combinations: "length flag_combinations = 16"
  by (simp add: flag_combinations_def length_powerset length_members)

lemma length_executed: "length (executed a) = 16"
  by (simp add: executed_def length_flag_combinations)

lemma length_planned: "length (planned a) = 48"
  by (simp add: planned_def length_flag_combinations)

lemma executed_planned: "executed a = take 16 (planned a)"
  by (simp add: planned_def executed_def length_flag_combinations)

lemma combinate_frame:
  assumes "combinate env ns w = (r, w')"
  shows "\<exists>cs. w' = w\<lparr>log := log w @ cs\<rparr> \<and> list_all (\<lambda>c. call_cwd c = cwd w) cs \<and>
           length cs \<le> 16"
proof (cases ns rule: args_cases)
  case (strings a)
  let ?cs = "calls_made env (cwd w) (log w) (executed a)"
  from assms strings have "w' = w\<lparr>log := log w @ ?cs\<rparr>"
    by (simp add: combinate_calls_made)
  moreover have "list_all (\<lambda>c. call_cwd c = cwd w) ?cs"
    by (auto simp: list_all_iff dest: calls_made_cwd)
  moreover have "length ?cs \<le> 16"
    using calls_made_length [of env "cwd w" "log w" "executed a"]
    by (simp add: length_executed)
  ultimately show ?thesis by blast
next
  case other
  with assms have "w' = w\<lparr>log := log w @ []\<rparr>" by (simp add: combinate_TypeError)
  then show ?thesis by (intro exI [of _ "[]"]) simp
qed

section \<open>Unions of flags\<close>

lemma bit_foldl_or:
  "bit (foldl (OR) a vs) n \<longleftrightarrow> bit a n \<or> (\<exists>v\<in>set vs. bit v n)" for a :: int
  by (induction vs arbitrary: a) (auto simp: bit_or_iff)

lemma bit_flag_union: "bit (flag_union vs) n \<longleftrightarrow> (\<exists>v\<in>set vs. bit v n)"
  by (simp add: flag_union_def bit_foldl_or)

lemma flag_in_union: "bit (flag_union (map flag_value ps)) (flag_bit f) \<longleftrightarrow> f \<in> set ps"
  by (auto simp: bit_flag_union bit_flag_value)

lemma flag_union_mask: "flag_union (map flag_value ps) AND 0x107 = flag_union (map flag_value ps)"
proof -
  have "foldl (OR) a (map flag_value ps) AND 0x107 = foldl (OR) a (map flag_value ps)"
    if "a AND 0x107 = a" for a
    using that
  proof (induction ps arbitrary: a)
    case Nil
    then show ?case by simp
  next
    case (Cons p ps)
    have "(a OR flag_value p) AND 0x107 = a OR flag_value p"
      by (simp only: bit.conj_disj_distrib2 Cons.prems flag_value_in_mask)
    then show ?case by (simp add: Cons.IH)
  qed
  then show ?thesis by (simp add: flag_union_def)
qed

section \<open>Properties\<close>

text \<open>
  C1. Whatever the child processes do, \<open>combinate\<close> is the sequential, fail-fast
  run of the sixteen command lines of the first format, \<^verbatim>\<open>tes4\<close>, in the
  order of the power set. The iterator of combinations is used up by the
  first pass of the inner loop, so the passes for \<^verbatim>\<open>tes5\<close> and \<^verbatim>\<open>sse\<close>
  start no process.
\<close>

theorem combinate_executed: "combinate env (untyped a) = run_all env (executed a)"
  by (simp only: combinate_def Let_def combinate_formats_Cons executed_def
        flag_combinations_def map_map comp_def)

theorem combinate_executed_witness:
  "map call_args (log (snd (combinate (\<lambda>h d c. Exited 0)
       (untyped \<lparr>bsarch = ''bsarch'', directory = ''data''\<rparr>) \<lparr>cwd = [''bin''], fs = [], log = []\<rparr>)))
   = [[''bsarch'', ''pack'', ''data'', ''tes4_0.bsa'', ''-tes4'', ''-af:0x0''],
      [''bsarch'', ''pack'', ''data'', ''tes4_1.bsa'', ''-tes4'', ''-af:0x1''],
      [''bsarch'', ''pack'', ''data'', ''tes4_2.bsa'', ''-tes4'', ''-af:0x2''],
      [''bsarch'', ''pack'', ''data'', ''tes4_4.bsa'', ''-tes4'', ''-af:0x4''],
      [''bsarch'', ''pack'', ''data'', ''tes4_100.bsa'', ''-tes4'', ''-af:0x100''],
      [''bsarch'', ''pack'', ''data'', ''tes4_3.bsa'', ''-tes4'', ''-af:0x3''],
      [''bsarch'', ''pack'', ''data'', ''tes4_5.bsa'', ''-tes4'', ''-af:0x5''],
      [''bsarch'', ''pack'', ''data'', ''tes4_101.bsa'', ''-tes4'', ''-af:0x101''],
      [''bsarch'', ''pack'', ''data'', ''tes4_6.bsa'', ''-tes4'', ''-af:0x6''],
      [''bsarch'', ''pack'', ''data'', ''tes4_102.bsa'', ''-tes4'', ''-af:0x102''],
      [''bsarch'', ''pack'', ''data'', ''tes4_104.bsa'', ''-tes4'', ''-af:0x104''],
      [''bsarch'', ''pack'', ''data'', ''tes4_7.bsa'', ''-tes4'', ''-af:0x7''],
      [''bsarch'', ''pack'', ''data'', ''tes4_103.bsa'', ''-tes4'', ''-af:0x103''],
      [''bsarch'', ''pack'', ''data'', ''tes4_105.bsa'', ''-tes4'', ''-af:0x105''],
      [''bsarch'', ''pack'', ''data'', ''tes4_106.bsa'', ''-tes4'', ''-af:0x106''],
      [''bsarch'', ''pack'', ''data'', ''tes4_107.bsa'', ''-tes4'', ''-af:0x107'']]"
  unfolding combinate_executed
  by (simp add: run_all_calls_made calls_made_all_succeed executed_def command_line_def
        succeeded_def comp_def pack_defs hex_upper.simps)

text \<open>
  C2. If every child process exits with status 0, \<open>combinate\<close> returns normally
  and has appended to the log exactly the sixteen command lines of the format
  \<^verbatim>\<open>tes4\<close>, each started in the working directory and each successful. The
  working directory and the file system are as before.
\<close>

theorem combinate_all_succeed:
  assumes "\<And>h cmd. env h (cwd w) cmd = Exited 0"
  shows "combinate env (untyped a) w = (Inr (), w\<lparr>log := log w @ map (succeeded (cwd w)) (executed a)\<rparr>)"
  using assms by (simp add: combinate_calls_made calls_made_all_succeed)

theorem combinate_all_succeed_witness:
  "combinate (\<lambda>h d c. Exited 0) (untyped \<lparr>bsarch = ''b'', directory = ''d''\<rparr>)
     \<lparr>cwd = [''bin''], fs = [([], Dir), ([''bin''], Dir)], log = []\<rparr>
   = (Inr (), \<lparr>cwd = [''bin''], fs = [([], Dir), ([''bin''], Dir)],
        log = map (\<lambda>cmd. \<lparr>call_cwd = [''bin''], call_args = cmd, call_outcome = Exited 0\<rparr>)
          [[''b'', ''pack'', ''d'', ''tes4_0.bsa'', ''-tes4'', ''-af:0x0''],
           [''b'', ''pack'', ''d'', ''tes4_1.bsa'', ''-tes4'', ''-af:0x1''],
           [''b'', ''pack'', ''d'', ''tes4_2.bsa'', ''-tes4'', ''-af:0x2''],
           [''b'', ''pack'', ''d'', ''tes4_4.bsa'', ''-tes4'', ''-af:0x4''],
           [''b'', ''pack'', ''d'', ''tes4_100.bsa'', ''-tes4'', ''-af:0x100''],
           [''b'', ''pack'', ''d'', ''tes4_3.bsa'', ''-tes4'', ''-af:0x3''],
           [''b'', ''pack'', ''d'', ''tes4_5.bsa'', ''-tes4'', ''-af:0x5''],
           [''b'', ''pack'', ''d'', ''tes4_101.bsa'', ''-tes4'', ''-af:0x101''],
           [''b'', ''pack'', ''d'', ''tes4_6.bsa'', ''-tes4'', ''-af:0x6''],
           [''b'', ''pack'', ''d'', ''tes4_102.bsa'', ''-tes4'', ''-af:0x102''],
           [''b'', ''pack'', ''d'', ''tes4_104.bsa'', ''-tes4'', ''-af:0x104''],
           [''b'', ''pack'', ''d'', ''tes4_7.bsa'', ''-tes4'', ''-af:0x7''],
           [''b'', ''pack'', ''d'', ''tes4_103.bsa'', ''-tes4'', ''-af:0x103''],
           [''b'', ''pack'', ''d'', ''tes4_105.bsa'', ''-tes4'', ''-af:0x105''],
           [''b'', ''pack'', ''d'', ''tes4_106.bsa'', ''-tes4'', ''-af:0x106''],
           [''b'', ''pack'', ''d'', ''tes4_107.bsa'', ''-tes4'', ''-af:0x107'']]\<rparr>)"
  by (simp add: combinate_all_succeed executed_def command_line_def succeeded_def comp_def
        pack_defs hex_upper.simps)

text \<open>
  C3. If \<open>combinate\<close> raises, then the call logged last is the one that failed
  and the exception is the one that call raises (\<open>CalledProcessError\<close> with the
  return code and the command line for a non-zero exit, the start-up error
  otherwise); every call before it exited with 0; the calls are the first
  command lines of \<open>executed\<close>, with none skipped; and no later command line was
  started.
\<close>

theorem combinate_fail_fast:
  assumes "combinate env (untyped a) w = (Inl e, w')"
  shows "\<exists>cs c. log w' = log w @ cs @ [c] \<and> list_all (\<lambda>x. call_outcome x = Exited 0) cs \<and>
           raised c = Some e \<and> map call_args (cs @ [c]) = take (Suc (length cs)) (executed a) \<and>
           length cs < 16"
proof -
  define made where "made = calls_made env (cwd w) (log w) (executed a)"
  from assms have v: "verdict made = Inl e" and l: "log w' = log w @ made"
    by (auto simp: combinate_calls_made made_def)
  from v have "made \<noteq> []" and r: "raised (last made) = Some e"
    by (auto dest: verdict_Inl_last)
  then obtain cs c where made: "made = cs @ [c]"
    by (cases made rule: rev_cases) auto
  have "list_all (\<lambda>x. call_outcome x = Exited 0) (butlast made)"
    by (auto simp: list_all_iff made_def dest: calls_made_butlast)
  with made have ok: "list_all (\<lambda>x. call_outcome x = Exited 0) cs" by simp
  have "prefix (map call_args made) (executed a)"
    unfolding made_def by (rule calls_made_args)
  then have "map call_args made = take (length made) (executed a)"
    by (auto simp: prefix_def)
  with made have args: "map call_args (cs @ [c]) = take (Suc (length cs)) (executed a)"
    by simp
  have "length made \<le> 16"
    using calls_made_length [of env "cwd w" "log w" "executed a"]
    by (simp add: made_def length_executed)
  with made have len: "length cs < 16" by simp
  from l r made ok args len show ?thesis
    by (intro exI [of _ cs] exI [of _ c]) simp
qed

theorem combinate_fail_fast_witness:
  "combinate (\<lambda>h d c. if length h = 2 then Exited 3 else Exited 0)
     (untyped \<lparr>bsarch = ''b'', directory = ''d''\<rparr>) \<lparr>cwd = [], fs = [([], Dir)], log = []\<rparr>
   = (Inl (CalledProcessError 3 [''b'', ''pack'', ''d'', ''tes4_2.bsa'', ''-tes4'', ''-af:0x2'']),
      \<lparr>cwd = [], fs = [([], Dir)],
       log = [\<lparr>call_cwd = [], call_args = [''b'', ''pack'', ''d'', ''tes4_0.bsa'', ''-tes4'', ''-af:0x0''],
                call_outcome = Exited 0\<rparr>,
              \<lparr>call_cwd = [], call_args = [''b'', ''pack'', ''d'', ''tes4_1.bsa'', ''-tes4'', ''-af:0x1''],
                call_outcome = Exited 0\<rparr>,
              \<lparr>call_cwd = [], call_args = [''b'', ''pack'', ''d'', ''tes4_2.bsa'', ''-tes4'', ''-af:0x2''],
                call_outcome = Exited 3\<rparr>]\<rparr>)
   \<and> (\<exists>cs c. [\<lparr>call_cwd = [], call_args = [''b'', ''pack'', ''d'', ''tes4_0.bsa'', ''-tes4'', ''-af:0x0''],
                call_outcome = Exited 0\<rparr>,
              \<lparr>call_cwd = [], call_args = [''b'', ''pack'', ''d'', ''tes4_1.bsa'', ''-tes4'', ''-af:0x1''],
                call_outcome = Exited 0\<rparr>,
              \<lparr>call_cwd = [], call_args = [''b'', ''pack'', ''d'', ''tes4_2.bsa'', ''-tes4'', ''-af:0x2''],
                call_outcome = Exited 3\<rparr>] = cs @ [c] \<and> length cs < 16 \<and>
          raised c = Some (CalledProcessError 3
            [''b'', ''pack'', ''d'', ''tes4_2.bsa'', ''-tes4'', ''-af:0x2'']))"
proof -
  let ?env = "\<lambda>h d c. if length h = 2 then Exited 3 else Exited (0::int)"
  let ?a = "\<lparr>bsarch = ''b'', directory = ''d''\<rparr>"
  let ?w = "\<lparr>cwd = [], fs = [([], Dir)], log = []\<rparr>"
  have run: "combinate ?env (untyped ?a) ?w
     = (Inl (CalledProcessError 3 [''b'', ''pack'', ''d'', ''tes4_2.bsa'', ''-tes4'', ''-af:0x2'']),
        \<lparr>cwd = [], fs = [([], Dir)],
         log = [\<lparr>call_cwd = [], call_args = [''b'', ''pack'', ''d'', ''tes4_0.bsa'', ''-tes4'', ''-af:0x0''],
                  call_outcome = Exited 0\<rparr>,
                \<lparr>call_cwd = [], call_args = [''b'', ''pack'', ''d'', ''tes4_1.bsa'', ''-tes4'', ''-af:0x1''],
                  call_outcome = Exited 0\<rparr>,
                \<lparr>call_cwd = [], call_args = [''b'', ''pack'', ''d'', ''tes4_2.bsa'', ''-tes4'', ''-af:0x2''],
                  call_outcome = Exited 3\<rparr>]\<rparr>)"
    by (simp add: combinate_calls_made executed_def command_line_def Let_def verdict_def raised_def
          pack_defs hex_upper.simps)
  from combinate_fail_fast [OF run] run show ?thesis
    by auto
qed

text \<open>
  C34. The value passed as \<^verbatim>\<open>-af\<close> depends only on which flags are in the
  combination, neither on their order nor on repetitions, and two
  combinations get the same value only if they hold the same flags.
\<close>

theorem af_of_eq_iff:
  "af_of (map flag_value ps) = af_of (map flag_value qs) \<longleftrightarrow> set ps = set qs"
proof
  assume "af_of (map flag_value ps) = af_of (map flag_value qs)"
  then have "bit (flag_union (map flag_value ps)) (flag_bit f)
      \<longleftrightarrow> bit (flag_union (map flag_value qs)) (flag_bit f)" for f
    by (simp add: af_of_flag_union)
  then show "set ps = set qs" by (simp only: flag_in_union) blast
next
  assume "set ps = set qs"
  then have "flag_union (map flag_value ps) = flag_union (map flag_value qs)"
    by (intro bit_eqI) (simp add: bit_flag_union)
  then show "af_of (map flag_value ps) = af_of (map flag_value qs)"
    by (simp add: af_of_flag_union)
qed

text \<open>
  C35. The sixteen flag values of a run are pairwise different, begin with 0
  (no flag) and end with \<open>0x107\<close> (all flags), and every one of them lies
  between the two and has no bit outside the mask \<open>0x107\<close>.
\<close>

theorem flag_combinations_range:
  "map af_of (pending (powerset (map flag_value members))) = map Inr flag_combinations \<and>
   length flag_combinations = 16 \<and> distinct flag_combinations \<and>
   hd flag_combinations = 0 \<and> last flag_combinations = 0x107 \<and>
   list_all (\<lambda>af. 0 \<le> af \<and> af \<le> 0x107 \<and> af AND 0x107 = af) flag_combinations"
proof -
  have "map af_of (pending (powerset (map flag_value members))) = map Inr flag_combinations"
    by (simp add: flag_combinations_def af_of_flag_union [abs_def] comp_def)
  then show ?thesis by (simp add: flag_combinations_eq)
qed

end
