(* ===== verification/Pack_Main.thy ===== *)
theory Pack_Main
  imports Pack_Combinate
begin

text \<open>
  The function \<^verbatim>\<open>main\<close> of \<^verbatim>\<open>tes4_pack.py\<close> and the module's last two
  lines, which call it.

  \<^item> \<open>main\<close> parses the command line, changes to the directory of the script,
    makes the directory \<^verbatim>\<open>bin\<close> there unless it exists, changes into it and
    calls \<open>combinate\<close>. Its parameter \<open>file\<close> is
    \<^verbatim>\<open>os.path.realpath(__file__)\<close>, the resolved path of the script, which the
    interpreter provides.
  \<^item> \<open>exit_status\<close> is what the interpreter does with the outcome of \<^verbatim>\<open>main()\<close>:
    status 0 when it returns, the status carried by \<^verbatim>\<open>SystemExit\<close>, status 1
    for any other exception that nothing catches.
  \<^item> \<open>script\<close> is the whole run: the exit status and the world left behind.

  The lemmas describe each place where \<open>main\<close> can stop (in the parser, at
  one of the three library calls before the loop, at a child process, or at
  the first call of \<^verbatim>\<open>subprocess.run\<close> when an attribute of the namespace is
  not a string), what has been done to the world by then, and that \<open>wf_world\<close>
  is kept throughout. The section on the exit status computes the status from
  the command line, the file system and the answers of the child processes.
\<close>

section \<open>The code\<close>

definition main ::
  "env \<Rightarrow> path \<Rightarrow> string list \<Rightarrow> (unit, world) exec" where
  "main env file argv =
     bind_exec (lift_result (parse_arguments argv)) (\<lambda>args.
     bind_exec (os_chdir (Absolute (dirname file))) (\<lambda>_.
     (let out = ''bin''
      in bind_exec (os_makedirs out True) (\<lambda>_.
         bind_exec (os_chdir (Relative [out])) (\<lambda>_.
         combinate env args)))))"

definition exit_status :: "unit result \<Rightarrow> int" where
  "exit_status r = (case r of Inr _ \<Rightarrow> 0 | Inl (SystemExit n) \<Rightarrow> n | Inl _ \<Rightarrow> 1)"

definition script ::
  "env \<Rightarrow> path \<Rightarrow> string list \<Rightarrow> world \<Rightarrow> int \<times> world" where
  "script env file argv w =
     (case main env file argv w of (r, w') \<Rightarrow> (exit_status r, w'))"

section \<open>Where the output goes\<close>

definition bin_dir :: "path \<Rightarrow> path" where
  "bin_dir file = dirname file @ [''bin'']"

definition prepared :: "path \<Rightarrow> world \<Rightarrow> world" where
  "prepared file w =
     (if lookup w (bin_dir file) = None
      then w\<lparr>fs := fs w @ [(bin_dir file, Dir)], cwd := bin_dir file\<rparr>
      else w\<lparr>cwd := bin_dir file\<rparr>)"

definition prepare :: "path \<Rightarrow> (unit, world) exec" where
  "prepare file =
     bind_exec (os_chdir (Absolute (dirname file))) (\<lambda>_.
     bind_exec (os_makedirs ''bin'' True) (\<lambda>_. os_chdir (Relative [''bin''])))"

section \<open>The steps before combinate\<close>

lemma main_prepare:
  "main env file argv =
     bind_exec (lift_result (parse_arguments argv)) (\<lambda>args.
       bind_exec (prepare file) (\<lambda>_. combinate env args))"
  by (simp add: main_def prepare_def Let_def bind_exec_assoc)

lemma prepare_eq:
  "prepare file w =
     (case lookup w (dirname file) of
        None \<Rightarrow> (Inl (OSError (missing w (dirname file))), w)
      | Some File \<Rightarrow> (Inl (OSError NotADirectoryError), w)
      | Some Dir \<Rightarrow>
          (case lookup w (bin_dir file) of
             Some File \<Rightarrow> (Inl (OSError FileExistsError), w\<lparr>cwd := dirname file\<rparr>)
           | _ \<Rightarrow> (Inr (), prepared file w)))"
proof (cases "lookup w (dirname file)")
  case None
  then show ?thesis
    by (simp add: prepare_def bind_exec_def os_chdir_def resolve_def)
next
  case (Some n)
  show ?thesis
  proof (cases n)
    case File
    with Some show ?thesis
      by (simp add: prepare_def bind_exec_def os_chdir_def resolve_def)
  next
    case Dir
    with Some have "prepare file w
        = bind_exec (os_makedirs ''bin'' True) (\<lambda>_. os_chdir (Relative [''bin'']))
            (w\<lparr>cwd := dirname file\<rparr>)"
      by (simp add: prepare_def bind_exec_def os_chdir_def resolve_def)
    also have "\<dots> = (case lookup w (bin_dir file) of
             Some File \<Rightarrow> (Inl (OSError FileExistsError), w\<lparr>cwd := dirname file\<rparr>)
           | _ \<Rightarrow> (Inr (), prepared file w))"
      using Some Dir
      by (simp add: bind_exec_def os_makedirs_def os_mkdir_def os_chdir_def isdir_def
            resolve_def bin_dir_def prepared_def lookup_fs_append Let_def
            split: option.split node.split)
    finally show ?thesis using Some Dir by simp
  qed
qed

lemma prepare_Inr_iff:
  "prepare file w = (Inr u, w') \<longleftrightarrow>
     lookup w (dirname file) = Some Dir \<and> lookup w (bin_dir file) \<noteq> Some File \<and>
     w' = prepared file w"
  by (auto simp: prepare_eq split: option.splits node.splits)

lemma prepare_Inl_iff:
  "prepare file w = (Inl e, w') \<longleftrightarrow>
     (lookup w (dirname file) = None \<and> e = OSError (missing w (dirname file)) \<and> w' = w) \<or>
     (lookup w (dirname file) = Some File \<and> e = OSError NotADirectoryError \<and> w' = w) \<or>
     (lookup w (dirname file) = Some Dir \<and> lookup w (bin_dir file) = Some File \<and>
      e = OSError FileExistsError \<and> w' = w\<lparr>cwd := dirname file\<rparr>)"
  by (auto simp: prepare_eq split: option.splits node.splits)

lemma prepare_log: "prepare file w = (r, w') \<Longrightarrow> log w' = log w"
  by (cases r) (auto simp: prepare_Inr_iff prepare_Inl_iff prepared_def)

lemma wf_prepared:
  assumes "wf_world w" and "lookup w (dirname file) = Some Dir"
    and "lookup w (bin_dir file) \<noteq> Some File"
  shows "wf_world (prepared file w)"
proof (cases "lookup w (bin_dir file)")
  case None
  with assms(1,2) have "wf_world (w\<lparr>fs := fs w @ [(bin_dir file, Dir)]\<rparr>)"
    by (intro wf_world_fs_append) (simp_all add: bin_dir_def)
  then have "wf_world (w\<lparr>fs := fs w @ [(bin_dir file, Dir)], cwd := bin_dir file\<rparr>)"
    by (rule wf_world_cwd_update) (simp add: lookup_fs_append None)
  with None show ?thesis by (simp add: prepared_def)
next
  case (Some n)
  with assms(3) have "lookup w (bin_dir file) = Some Dir" by simp
  with assms(1) Some show ?thesis by (simp add: prepared_def wf_world_cwd_update)
qed

lemma prepare_wf:
  assumes "wf_world w" and "prepare file w = (r, w')"
  shows "wf_world w'"
proof (cases r)
  case (Inl e)
  with assms show ?thesis by (auto simp: prepare_Inl_iff intro: wf_world_cwd_update)
next
  case (Inr u)
  with assms show ?thesis by (auto simp: prepare_Inr_iff intro: wf_prepared)
qed

lemma prepared_simps [simp]:
  "cwd (prepared file w) = bin_dir file"
  "log (prepared file w) = log w"
  by (simp_all add: prepared_def)

lemma lookup_prepared:
  "lookup w (bin_dir file) \<noteq> Some File \<Longrightarrow> lookup (prepared file w) (bin_dir file) = Some Dir"
  by (cases "lookup w (bin_dir file)") (auto simp: prepared_def lookup_fs_append)

section \<open>The invariant\<close>

lemma run_all_wf: "wf_world w \<Longrightarrow> run_all env cmds w = (r, w') \<Longrightarrow> wf_world w'"
  by (simp add: run_all_calls_made) auto

lemma combinate_wf: "wf_world w \<Longrightarrow> combinate env ns w = (r, w') \<Longrightarrow> wf_world w'"
  by (auto dest: combinate_frame)

section \<open>The whole of main\<close>

lemma main_eq:
  "main env file argv w =
     (case parse_arguments argv of
        Inl e \<Rightarrow> (Inl e, w)
      | Inr ns \<Rightarrow>
          (case prepare file w of
             (Inl e, w1) \<Rightarrow> (Inl e, w1)
           | (Inr u, w1) \<Rightarrow> combinate env ns w1))"
  by (simp add: main_prepare bind_exec_def split: sum.splits prod.splits)

lemma main_prepared:
  assumes "parse_arguments argv = Inr ns"
    and "lookup w (dirname file) = Some Dir" and "lookup w (bin_dir file) \<noteq> Some File"
  shows "main env file argv w = combinate env ns (prepared file w)"
proof -
  from assms(2,3) have "prepare file w = (Inr (), prepared file w)"
    by (simp add: prepare_Inr_iff)
  with assms(1) show ?thesis by (simp add: main_eq)
qed

lemma exit_status_simps [simp]:
  "exit_status (Inr u) = 0"
  "exit_status (Inl (SystemExit n)) = n"
  "exit_status (Inl (CalledProcessError rc cmd)) = 1"
  "exit_status (Inl (OSError x)) = 1"
  "exit_status (Inl TypeError) = 1"
  by (simp_all add: exit_status_def)

lemma hd_executed: "executed a = command_line a ''tes4'' 0 # tl (executed a)"
  by (simp add: executed_def flag_combinations_eq)

section \<open>A second run\<close>

lemma lookup_prepared_dirname:
  "lookup w (dirname file) = Some Dir \<Longrightarrow> lookup (prepared file w) (dirname file) = Some Dir"
  by (simp add: prepared_def lookup_fs_append lookup_def)

lemma prepared_again:
  assumes "lookup w (bin_dir file) \<noteq> Some File"
  shows "prepared file ((prepared file w)\<lparr>log := l, cwd := d\<rparr>) = (prepared file w)\<lparr>log := l\<rparr>"
proof -
  let ?x = "(prepared file w)\<lparr>log := l, cwd := d\<rparr>"
  from lookup_prepared [OF assms] have "lookup ?x (bin_dir file) = Some Dir"
    by (simp add: lookup_log_update lookup_cwd_update)
  then have "prepared file ?x = ?x\<lparr>cwd := bin_dir file\<rparr>"
    by (simp add: prepared_def [where w = ?x])
  then show ?thesis by (simp add: world.equality)
qed

lemma prepare_again:
  assumes "lookup w (dirname file) = Some Dir" and "lookup w (bin_dir file) \<noteq> Some File"
  shows "prepare file ((prepared file w)\<lparr>log := l, cwd := d\<rparr>)
       = (Inr (), (prepared file w)\<lparr>log := l\<rparr>)"
  using assms
  by (simp add: prepare_Inr_iff lookup_prepared_dirname lookup_prepared prepared_again
        lookup_log_update lookup_cwd_update)

lemma main_Inr_prepared:
  assumes "main env file argv w = (Inr u, w')" and "parse_arguments argv = Inr (untyped a)"
  shows "lookup w (dirname file) = Some Dir \<and> lookup w (bin_dir file) \<noteq> Some File \<and>
         w' = (prepared file w)\<lparr>log := log w'\<rparr>"
proof -
  obtain r1 w1 where p: "prepare file w = (r1, w1)" by (cases "prepare file w")
  with assms obtain u1 where "r1 = Inr u1" and c: "combinate env (untyped a) w1 = (Inr u, w')"
    by (cases r1) (auto simp: main_eq)
  with p have "lookup w (dirname file) = Some Dir" "lookup w (bin_dir file) \<noteq> Some File"
    "w1 = prepared file w"
    by (simp_all add: prepare_Inr_iff)
  with c show ?thesis by (auto simp: combinate_calls_made)
qed

lemma prepare_frame:
  assumes "prepare file w = (r, w')"
  shows "(fs w' = fs w \<or> fs w' = fs w @ [(bin_dir file, Dir)] \<and> lookup w (bin_dir file) = None)
       \<and> cwd w' \<in> set [cwd w, dirname file, bin_dir file]"
  using assms
  by (cases r) (auto simp: prepare_Inl_iff prepare_Inr_iff prepared_def)

section \<open>The exit status\<close>

lemma exit_status_verdict: "exit_status (verdict cs) = (if verdict cs = Inr () then 0 else 1)"
  by (auto simp: verdict_def raised_def exit_status_def
           split: option.splits outcome.splits if_splits)

lemma verdict_calls_made_iff:
  "verdict (calls_made env dir h cmds) = Inr () \<longleftrightarrow>
     (\<forall>c \<in> set (calls_made env dir h cmds). call_outcome c = Exited 0)"
proof
  assume "verdict (calls_made env dir h cmds) = Inr ()"
  then have "calls_made env dir h cmds = map (succeeded dir) cmds" by (rule verdict_Inr_all)
  then show "\<forall>c \<in> set (calls_made env dir h cmds). call_outcome c = Exited 0"
    by (auto simp: succeeded_def)
next
  assume ok: "\<forall>c \<in> set (calls_made env dir h cmds). call_outcome c = Exited 0"
  show "verdict (calls_made env dir h cmds) = Inr ()"
  proof (cases "calls_made env dir h cmds = []")
    case True
    then show ?thesis by (simp add: verdict_def)
  next
    case False
    with ok have "raised (last (calls_made env dir h cmds)) = None"
      by (simp add: raised_None_iff)
    with False show ?thesis by (simp add: verdict_def)
  qed
qed

lemma prepare_status:
  "exit_status (fst (bind_exec (prepare file) body w)) =
     (if lookup w (dirname file) = Some Dir \<and> lookup w (bin_dir file) \<noteq> Some File
      then exit_status (fst (body () (prepared file w))) else 1)"
  by (simp add: bind_exec_def prepare_eq split: option.splits node.splits)

lemma combinate_status:
  "exit_status (fst (combinate env ns w)) =
     (if \<exists>a. ns = untyped a \<and>
            (\<forall>c \<in> set (calls_made env (cwd w) (log w) (executed a)). call_outcome c = Exited 0)
      then 0 else 1)"
proof (cases ns rule: args_cases)
  case (strings a)
  then show ?thesis
    by (simp add: combinate_calls_made exit_status_verdict verdict_calls_made_iff)
next
  case other
  then have "\<nexists>a. ns = untyped a" by auto
  with other show ?thesis by (simp add: combinate_TypeError)
qed

lemma script_status_eq:
  "fst (script env file argv w) =
     (case parse_arguments argv of
        Inl e \<Rightarrow> exit_status (Inl e)
      | Inr ns \<Rightarrow>
          if lookup w (dirname file) = Some Dir \<and> lookup w (bin_dir file) \<noteq> Some File \<and>
             (\<exists>a. ns = untyped a \<and>
                (\<forall>c \<in> set (calls_made env (bin_dir file) (log w) (executed a)).
                   call_outcome c = Exited 0))
          then 0 else 1)"
proof (cases "parse_arguments argv")
  case (Inl e)
  then show ?thesis by (simp add: script_def main_eq)
next
  case (Inr ns)
  have "fst (script env file argv w) =
      exit_status (fst (bind_exec (prepare file) (\<lambda>_. combinate env ns) w))"
    by (simp add: script_def main_prepare Inr split: prod.splits)
  then show ?thesis
    by (simp add: Inr prepare_status combinate_status prepare_log)
qed

lemma main_wf:
  assumes "wf_world w" and "main env file argv w = (r, w')"
  shows "wf_world w'"
proof (cases "parse_arguments argv")
  case (Inl e)
  with assms show ?thesis by (simp add: main_eq)
next
  case (Inr ns)
  obtain r1 w1 where p: "prepare file w = (r1, w1)" by (cases "prepare file w")
  with assms(1) have "wf_world w1" by (rule prepare_wf)
  with assms(2) Inr p show ?thesis
    by (cases r1) (auto simp: main_eq dest: combinate_wf)
qed

section \<open>Properties\<close>

text \<open>
  C6. With a well-formed command line, the directory of the script in place
  and nothing but possibly a directory at \<^verbatim>\<open>bin\<close>, and with child processes
  that all exit with 0, \<open>main\<close> returns normally; the working directory is
  \<^verbatim>\<open>bin\<close> beside the script, which now exists; and the log has grown by the
  sixteen command lines of \<open>executed\<close>, every one started in \<^verbatim>\<open>bin\<close>.
\<close>

theorem main_all_succeed:
  assumes "parse_arguments argv = Inr (untyped a)"
    and "lookup w (dirname file) = Some Dir" and "lookup w (bin_dir file) \<noteq> Some File"
    and "\<And>h cmd. env h (bin_dir file) cmd = Exited 0"
  shows "main env file argv w =
           (Inr (), (prepared file w)\<lparr>log := log w @ map (succeeded (bin_dir file)) (executed a)\<rparr>)"
  using assms(4)
  by (simp add: main_prepared [OF assms(1-3)] combinate_calls_made calls_made_all_succeed)

theorem main_all_succeed_witness:
  "main (\<lambda>h d c. Exited 0) [''tools'', ''tes4_pack.py'']
     [''bsarch.exe'', ''data'']
     \<lparr>cwd = [], fs = [([], Dir), ([''tools''], Dir), ([''tools'', ''tes4_pack.py''], File)], log = []\<rparr>
   = (Inr (),
      \<lparr>cwd = [''tools'', ''bin''],
       fs = [([], Dir), ([''tools''], Dir), ([''tools'', ''tes4_pack.py''], File),
             ([''tools'', ''bin''], Dir)],
       log = map (succeeded [''tools'', ''bin''])
               (executed \<lparr>bsarch = ''bsarch.exe'', directory = ''data''\<rparr>)\<rparr>)"
  by (simp add: main_all_succeed [where a = "\<lparr>bsarch = ''bsarch.exe'', directory = ''data''\<rparr>"]
        parse_arguments_two dashed_def lookup_def dirname_def bin_dir_def prepared_def)

text \<open>
  C7. Whatever the command line, the file system and the child processes:
  every process that \<open>main\<close> starts is started in the directory \<^verbatim>\<open>bin\<close> beside
  the script, and \<open>main\<close> starts at most sixteen. Nothing is ever run from the
  directory the user called the script in.
\<close>

theorem main_calls_in_bin:
  assumes "main env file argv w = (r, w')"
  shows "\<exists>cs. log w' = log w @ cs \<and> list_all (\<lambda>c. call_cwd c = bin_dir file) cs \<and>
           length cs \<le> 16"
proof (cases "parse_arguments argv")
  case (Inl e)
  with assms show ?thesis by (simp add: main_eq)
next
  case (Inr ns)
  obtain r1 w1 where p: "prepare file w = (r1, w1)" by (cases "prepare file w")
  then have l: "log w1 = log w" by (rule prepare_log)
  show ?thesis
  proof (cases r1)
    case (Inl e)
    with assms \<open>parse_arguments argv = Inr ns\<close> p l show ?thesis by (simp add: main_eq)
  next
    case (Inr u)
    with p have w1: "w1 = prepared file w" by (simp add: prepare_Inr_iff)
    with assms \<open>parse_arguments argv = Inr ns\<close> p Inr
    have "combinate env ns (prepared file w) = (r, w')" by (simp add: main_eq)
    from combinate_frame [OF this] show ?thesis
      by auto
  qed
qed

theorem main_calls_in_bin_witness:
  "\<exists>cs. log (snd (main (\<lambda>h d c. Exited 1) [''t'', ''p.py'']
       [''b'', ''d''] \<lparr>cwd = [], fs = [([], Dir), ([''t''], Dir)], log = []\<rparr>)) = [] @ cs \<and>
     list_all (\<lambda>c. call_cwd c = bin_dir [''t'', ''p.py'']) cs \<and> length cs \<le> 16"
  by (rule main_calls_in_bin [of _ _ _ "\<lparr>cwd = [], fs = [([], Dir), ([''t''], Dir)], log = []\<rparr>",
        simplified world.simps]) (rule surjective_pairing)

text \<open>
  C10. A command line without dashed strings that does not have exactly two
  arguments ends the script with status 2 before any work begins: the working
  directory, the file system and the log are untouched.
\<close>

theorem script_usage_error:
  assumes "\<not> list_ex dashed argv" and "length argv \<noteq> 2"
  shows "script env file argv w = (2, w)"
  using assms by (simp add: script_def main_eq parse_arguments_wrong_count)

theorem script_usage_error_witness:
  "script (\<lambda>h d c. Exited 0) [''t'', ''p.py''] [''bsarch.exe'']
     \<lparr>cwd = [], fs = [([], Dir), ([''t''], Dir)], log = []\<rparr>
   = (2, \<lparr>cwd = [], fs = [([], Dir), ([''t''], Dir)], log = []\<rparr>)"
  by (rule script_usage_error) (simp_all add: dashed_def)

text \<open>
  C9. If something that is not a directory is in the way at \<^verbatim>\<open>bin\<close>,
  \<open>main\<close> raises \<^verbatim>\<open>FileExistsError\<close>. No process has been started and
  the file system is as before, but the working directory has already been
  changed to the directory of the script.
\<close>

theorem main_bin_is_file:
  assumes "parse_arguments argv = Inr (untyped a)"
    and "lookup w (dirname file) = Some Dir" and "lookup w (bin_dir file) = Some File"
  shows "main env file argv w = (Inl (OSError FileExistsError), w\<lparr>cwd := dirname file\<rparr>)"
  using assms by (simp add: main_eq prepare_eq)

theorem main_bin_is_file_witness:
  "main (\<lambda>h d c. Exited 0) [''t'', ''p.py''] [''b'', ''d'']
     \<lparr>cwd = [], fs = [([], Dir), ([''t''], Dir), ([''t'', ''bin''], File)], log = []\<rparr>
   = (Inl (OSError FileExistsError),
      \<lparr>cwd = [''t''], fs = [([], Dir), ([''t''], Dir), ([''t'', ''bin''], File)], log = []\<rparr>)"
  by (simp add: main_bin_is_file [where a = "\<lparr>bsarch = ''b'', directory = ''d''\<rparr>"]
        parse_arguments_two dashed_def lookup_def dirname_def bin_dir_def)

text \<open>
  C8. If the first child process does not exit with 0 (it could not be
  started, or it returned a non-zero code), the script ends with status 1 and
  that process is the only one in the log. The return code of the child is
  not the status of the script.
\<close>

theorem script_first_call_fails:
  assumes "parse_arguments argv = Inr (untyped a)"
    and "lookup w (dirname file) = Some Dir" and "lookup w (bin_dir file) \<noteq> Some File"
    and "env (log w) (bin_dir file) (command_line a ''tes4'' 0) = out" and "out \<noteq> Exited 0"
  shows "script env file argv w =
           (1, (prepared file w)\<lparr>log := log w @
                  [\<lparr>call_cwd = bin_dir file, call_args = command_line a ''tes4'' 0, call_outcome = out\<rparr>]\<rparr>)"
proof -
  let ?c = "\<lparr>call_cwd = bin_dir file, call_args = command_line a ''tes4'' 0, call_outcome = out\<rparr>"
  from assms(4,5) have "calls_made env (bin_dir file) (log w) (executed a) = [?c]"
    by (subst hd_executed) (simp add: Let_def)
  moreover from assms(5) have "exit_status (verdict [?c]) = 1"
    by (cases out) (auto simp: verdict_def raised_def)
  ultimately show ?thesis
    by (simp add: script_def main_prepared [OF assms(1-3)] combinate_calls_made)
qed

theorem script_first_call_fails_witness:
  "script (\<lambda>h d c. Exited 3) [''t'', ''p.py''] [''b'', ''d'']
     \<lparr>cwd = [], fs = [([], Dir), ([''t''], Dir)], log = []\<rparr>
   = (1, \<lparr>cwd = [''t'', ''bin''], fs = [([], Dir), ([''t''], Dir), ([''t'', ''bin''], Dir)],
          log = [\<lparr>call_cwd = [''t'', ''bin''],
                   call_args = [''b'', ''pack'', ''d'', ''tes4_0.bsa'', ''-tes4'', ''-af:0x0''],
                   call_outcome = Exited 3\<rparr>]\<rparr>)"
  by (simp add: script_first_call_fails [where a = "\<lparr>bsarch = ''b'', directory = ''d''\<rparr>"
            and out = "Exited 3"]
        parse_arguments_two dashed_def lookup_def dirname_def bin_dir_def prepared_def
        command_line_def format_defs hex_upper.simps)

text \<open>
  C23. A run after a run that went well reuses \<^verbatim>\<open>bin\<close>: the second \<open>main\<close>
  changes neither the file system nor the working directory, and starts its
  jobs in \<^verbatim>\<open>bin\<close> again, whatever directory it is called from. It ends as
  its own child processes decide.
\<close>

theorem main_rerun:
  assumes "main env file argv w = (Inr (), w')"
    and "parse_arguments argv = Inr (untyped a)"
  shows "main env' file argv (w'\<lparr>cwd := d\<rparr>) =
           (verdict (calls_made env' (bin_dir file) (log w') (executed a)),
            w'\<lparr>log := log w' @ calls_made env' (bin_dir file) (log w') (executed a)\<rparr>)"
proof -
  define l where "l = log w'"
  from main_Inr_prepared [OF assms]
  have d: "lookup w (dirname file) = Some Dir" and b: "lookup w (bin_dir file) \<noteq> Some File"
    and w': "w' = (prepared file w)\<lparr>log := l\<rparr>"
    by (simp_all add: l_def)
  from w' have "prepare file (w'\<lparr>cwd := d\<rparr>) = (Inr (), w')"
    by (simp add: prepare_again [OF d b])
  moreover from w' have "cwd w' = bin_dir file" by simp
  ultimately show ?thesis
    using assms(2) by (simp add: main_eq combinate_calls_made)
qed

theorem main_rerun_witness:
  "main (\<lambda>h d c. Failed PermissionError) [''t'', ''p.py''] [''b'', ''d'']
     ((snd (main (\<lambda>h d c. Exited 0) [''t'', ''p.py''] [''b'', ''d'']
         \<lparr>cwd = [], fs = [([], Dir), ([''t''], Dir)], log = []\<rparr>))\<lparr>cwd := [''home'']\<rparr>)
   = (Inl (OSError PermissionError),
      \<lparr>cwd = [''t'', ''bin''], fs = [([], Dir), ([''t''], Dir), ([''t'', ''bin''], Dir)],
       log = map (succeeded [''t'', ''bin'']) (executed \<lparr>bsarch = ''b'', directory = ''d''\<rparr>) @
         [\<lparr>call_cwd = [''t'', ''bin''],
           call_args = [''b'', ''pack'', ''d'', ''tes4_0.bsa'', ''-tes4'', ''-af:0x0''],
           call_outcome = Failed PermissionError\<rparr>]\<rparr>)"
proof -
  let ?a = "\<lparr>bsarch = ''b'', directory = ''d''\<rparr>"
  let ?w = "\<lparr>cwd = [], fs = [([], Dir), ([''t''], Dir)], log = []\<rparr>"
  let ?w' = "\<lparr>cwd = [''t'', ''bin''], fs = [([], Dir), ([''t''], Dir), ([''t'', ''bin''], Dir)],
              log = map (succeeded [''t'', ''bin'']) (executed ?a)\<rparr>"
  let ?c = "\<lparr>call_cwd = [''t'', ''bin''],
             call_args = [''b'', ''pack'', ''d'', ''tes4_0.bsa'', ''-tes4'', ''-af:0x0''],
             call_outcome = Failed PermissionError\<rparr>"
  have parse: "parse_arguments [''b'', ''d''] = Inr (untyped ?a)"
    by (simp add: parse_arguments_two dashed_def)
  have first: "main (\<lambda>h d c. Exited 0) [''t'', ''p.py''] [''b'', ''d''] ?w = (Inr (), ?w')"
    by (simp add: main_prepared [OF parse] combinate_calls_made calls_made_all_succeed
          lookup_def dirname_def bin_dir_def prepared_def)
  have calls: "calls_made (\<lambda>h d c. Failed PermissionError) (bin_dir [''t'', ''p.py''])
      (log ?w') (executed ?a) = [?c]"
    by (subst hd_executed)
       (simp add: Let_def bin_dir_def dirname_def command_line_def format_defs hex_upper.simps)
  have "main (\<lambda>h d c. Failed PermissionError) [''t'', ''p.py''] [''b'', ''d'']
      (?w'\<lparr>cwd := [''home'']\<rparr>) = (verdict [?c], ?w'\<lparr>log := log ?w' @ [?c]\<rparr>)"
    using main_rerun [OF first parse, of "\<lambda>h d c. Failed PermissionError" "[''home'']"]
    by (simp only: calls)
  with first show ?thesis
    by (simp add: verdict_def raised_def)
qed

text \<open>
  C24. \<open>main\<close> never removes or replaces an entry of the file system: it leaves
  the entries as they are or adds the directory \<^verbatim>\<open>bin\<close> beside the script,
  which was not there, at the end. It leaves the working directory where it
  was, in the directory of the script, or in \<^verbatim>\<open>bin\<close>.
\<close>

theorem main_frame:
  assumes "main env file argv w = (r, w')"
  shows "(fs w' = fs w \<or> fs w' = fs w @ [(bin_dir file, Dir)] \<and> lookup w (bin_dir file) = None)
       \<and> cwd w' \<in> set [cwd w, dirname file, bin_dir file]"
proof (cases "parse_arguments argv")
  case (Inl e)
  with assms show ?thesis by (simp add: main_eq)
next
  case (Inr ns)
  obtain r1 w1 where p: "prepare file w = (r1, w1)" by (cases "prepare file w")
  from assms Inr p have "fs w' = fs w1 \<and> cwd w' = cwd w1"
    by (cases r1) (auto simp: main_eq dest: combinate_frame)
  with prepare_frame [OF p] show ?thesis by simp
qed

theorem main_frame_witness:
  "fs (snd (main (\<lambda>h d c. Exited 1) [''t'', ''p.py''] [''b'', ''d'']
       \<lparr>cwd = [''home''], fs = [([], Dir), ([''home''], Dir), ([''t''], Dir)], log = []\<rparr>))
     = [([], Dir), ([''home''], Dir), ([''t''], Dir), ([''t'', ''bin''], Dir)]
   \<and> cwd (snd (main (\<lambda>h d c. Exited 1) [''t'', ''p.py''] [''b'', ''d'']
       \<lparr>cwd = [''home''], fs = [([], Dir), ([''home''], Dir), ([''t''], Dir)], log = []\<rparr>))
     \<in> set [[''home''], [''t''], [''t'', ''bin'']]"
proof -
  let ?w = "\<lparr>cwd = [''home''], fs = [([], Dir), ([''home''], Dir), ([''t''], Dir)], log = []\<rparr>"
  let ?m = "main (\<lambda>h d c. Exited 1) [''t'', ''p.py''] [''b'', ''d''] ?w"
  have "parse_arguments [''b'', ''d''] = Inr (untyped \<lparr>bsarch = ''b'', directory = ''d''\<rparr>)"
    by (simp add: parse_arguments_two dashed_def)
  then have "fs (snd ?m) \<noteq> fs ?w"
    by (simp add: main_prepared combinate_calls_made lookup_def dirname_def bin_dir_def
          prepared_def)
  with main_frame [of _ "[''t'', ''p.py'']" _ ?w "fst ?m" "snd ?m"] show ?thesis
    by (simp add: bin_dir_def dirname_def)
qed

text \<open>
  C14. Help and rejected options end the script before any work. When the
  first string before a \<^verbatim>\<open>--\<close> that decides is a request for help
  (\<^verbatim>\<open>-h\<close>, \<^verbatim>\<open>--help\<close>, an abbreviation of it, or \<^verbatim>\<open>-h\<close> joined with other
  letters) the status is 0; when it is an option given a value it cannot take
  the status is 2. Working directory, file system and log are untouched, and
  what follows on the command line does not matter.
\<close>

theorem script_usage_exit:
  assumes "find decisive (map judge (takeWhile (\<lambda>s. s \<noteq> ''--'') argv)) = Some j"
  shows "script env file argv w = (if j = Shows_help then 0 else 2, w)"
  using parse_arguments_decisive [OF assms]
  by (simp add: script_def main_eq split: if_splits)

theorem script_usage_exit_witness:
  "script (\<lambda>h d c. Exited 0) [''t'', ''p.py''] [''bsarch.exe'', ''-hv'', ''--help=1'']
     \<lparr>cwd = [], fs = [([], Dir), ([''t''], Dir)], log = []\<rparr>
   = (0, \<lparr>cwd = [], fs = [([], Dir), ([''t''], Dir)], log = []\<rparr>) \<and>
   script (\<lambda>h d c. Exited 0) [''t'', ''p.py''] [''bsarch.exe'', ''--help=1'', ''-h'']
     \<lparr>cwd = [], fs = [([], Dir), ([''t''], Dir)], log = []\<rparr>
   = (2, \<lparr>cwd = [], fs = [([], Dir), ([''t''], Dir)], log = []\<rparr>)"
  by (simp add: script_usage_exit [where j = Shows_help] script_usage_exit [where j = Rejected]
        judge_def decisive_def)

text \<open>
  C13. A namespace whose \<^verbatim>\<open>directory\<close> is not a string gets past the parser
  and stops the script at the first call of \<^verbatim>\<open>subprocess.run\<close>: the status
  is 1, the working directory is \<^verbatim>\<open>bin\<close> beside the script, which has been
  created if it was missing, and no process has been started. The command
  line \<^verbatim>\<open>-- B --\<close> is one that ends so.
\<close>

theorem script_directory_not_string:
  assumes "parse_arguments argv = Inr ns" and "\<not> is_PyStr (directory ns)"
    and "lookup w (dirname file) = Some Dir" and "lookup w (bin_dir file) \<noteq> Some File"
  shows "script env file argv w = (1, prepared file w)"
  using assms(2)
  by (simp add: script_def main_prepared [OF assms(1,3,4)] combinate_TypeError)

theorem script_directory_not_string_witness:
  "script (\<lambda>h d c. Exited 0) [''t'', ''p.py''] [''--'', ''bsarch.exe'', ''--'']
     \<lparr>cwd = [], fs = [([], Dir), ([''t''], Dir)], log = []\<rparr>
   = (1, \<lparr>cwd = [''t'', ''bin''], fs = [([], Dir), ([''t''], Dir), ([''t'', ''bin''], Dir)],
          log = []\<rparr>)"
  by (simp add: script_directory_not_string [OF parse_arguments_marker_last]
        lookup_def dirname_def bin_dir_def prepared_def)

text \<open>
  C12. The exit status of the script on every command line, in every file
  system and with any child processes. It is 0, 1 or 2. It is 2 exactly when
  the parser reports a usage error. It is 0 exactly when the parser shows the
  help, or when the command line has two strings, the directory of the
  script exists, nothing but a directory is at \<^verbatim>\<open>bin\<close>, and every child
  process that is started exits with 0. In every other case it is 1.
\<close>

theorem script_status:
  "fst (script env file argv w) \<in> {0, 1, 2} \<and>
   (fst (script env file argv w) = 2 \<longleftrightarrow> parse_arguments argv = Inl (SystemExit 2)) \<and>
   (fst (script env file argv w) = 0 \<longleftrightarrow>
      parse_arguments argv = Inl (SystemExit 0) \<or>
      (\<exists>a. parse_arguments argv = Inr (untyped a) \<and>
           lookup w (dirname file) = Some Dir \<and> lookup w (bin_dir file) \<noteq> Some File \<and>
           (\<forall>c \<in> set (calls_made env (bin_dir file) (log w) (executed a)).
              call_outcome c = Exited 0)))"
proof (cases "parse_arguments argv")
  case (Inl e)
  then have "e = SystemExit 0 \<or> e = SystemExit 2" by (rule parse_arguments_Inl)
  with Inl show ?thesis by (auto simp: script_status_eq)
next
  case (Inr ns)
  then show ?thesis by (auto simp: script_status_eq)
qed

theorem script_status_witness:
  "fst (script (\<lambda>h d c. if length h = 15 then Exited 1 else Exited 0) [''t'', ''p.py'']
          [''b'', ''d''] \<lparr>cwd = [], fs = [([], Dir), ([''t''], Dir)], log = []\<rparr>) = 1"
proof -
  let ?env = "\<lambda>(h :: call list) (d :: path) (c :: string list).
                if length h = 15 then Exited 1 else Exited (0 :: int)"
  let ?w = "\<lparr>cwd = [], fs = [([], Dir), ([''t''], Dir)], log = []\<rparr>"
  let ?st = "fst (script ?env [''t'', ''p.py''] [''b'', ''d''] ?w)"
  have parse: "parse_arguments [''b'', ''d''] = Inr (untyped \<lparr>bsarch = ''b'', directory = ''d''\<rparr>)"
    by (simp add: parse_arguments_two dashed_def)
  have "\<exists>c \<in> set (calls_made ?env (bin_dir [''t'', ''p.py'']) (log ?w)
                    (executed \<lparr>bsarch = ''b'', directory = ''d''\<rparr>)). call_outcome c \<noteq> Exited 0"
    by (simp add: executed_def flag_combinations_eq Let_def)
  with script_status [of ?env "[''t'', ''p.py'']" "[''b'', ''d'']" ?w] parse
  have "?st \<noteq> 0 \<and> ?st \<noteq> 2 \<and> ?st \<in> {0, 1, 2}" by auto
  then show ?thesis by auto
qed

end
