(* ===== verification/Pack_Machine.thy ===== *)
theory Pack_Machine
  imports Pack_Combinate
begin

text \<open>
  The job loop as the state machine of the description:
  Start, then for each job Invoke, Wait and either Continue or Abort, then Done.

  \<^item> A state \<open>mstate\<close> is the phase, the jobs not yet started and the world.
    The phase \<open>Wait cmd\<close> holds the command line of the child process the
    script is blocked on; \<open>Abort e\<close> holds the exception that ended the run.
  \<^item> \<open>step\<close> is the transition relation. Its only transition with an effect is
    the one out of \<open>Wait\<close>: it is \<open>run_child\<close> with \<^verbatim>\<open>check=True\<close>, which is
    what the call of \<^verbatim>\<open>subprocess.run\<close> in \<^verbatim>\<open>combinate\<close> does with a command
    line of strings, and goes to \<open>Continue\<close> when the call returns and to
    \<open>Abort\<close> when it raises.
  \<^item> \<open>next_state\<close> is \<open>step\<close> as a function and \<open>run_machine\<close> iterates it with
    fuel. A job takes three transitions (Invoke, Wait, Continue) and the run
    one more (to Done), so \<open>3 * length cmds + 1\<close> transitions always suffice.
  \<^item> \<open>machine_inv\<close> is the invariant of the reachable states: working directory
    and file system never change, the log grows by the calls made, the
    command lines of the calls made, of the call waited for and of the jobs
    left are the job list, and only the last call of an aborted run failed.
  \<^item> \<open>outcome_state\<close> turns a result of the code into the terminal state that
    stands for it.

  The lemmas show that \<open>step\<close> is deterministic, that terminal states have no
  successor, that the invariant holds in every reachable state, and that the
  machine started on the jobs of \<open>combinate\<close> ends, within its fuel and in no
  other way, in the state that stands for the result of \<open>combinate\<close>.
\<close>

section \<open>States and transitions\<close>

datatype phase = Start | Invoke | Wait "string list" | Continue | Abort py_error | Done

type_synonym mstate = "phase \<times> string list list \<times> world"

inductive step :: "env \<Rightarrow> mstate \<Rightarrow> mstate \<Rightarrow> bool" for env where
  begin_some: "step env (Start, cmd # cmds, w) (Invoke, cmd # cmds, w)"
| begin_none: "step env (Start, [], w) (Done, [], w)"
| invoke: "step env (Invoke, cmd # cmds, w) (Wait cmd, cmds, w)"
| wait_ok: "run_child env cmd True w = (Inr u, w') \<Longrightarrow>
     step env (Wait cmd, cmds, w) (Continue, cmds, w')"
| wait_failed: "run_child env cmd True w = (Inl e, w') \<Longrightarrow>
     step env (Wait cmd, cmds, w) (Abort e, cmds, w')"
| continue_some: "step env (Continue, cmd # cmds, w) (Invoke, cmd # cmds, w)"
| continue_none: "step env (Continue, [], w) (Done, [], w)"

fun next_state :: "env \<Rightarrow> mstate \<Rightarrow> mstate option" where
  "next_state env (Start, cmd # cmds, w) = Some (Invoke, cmd # cmds, w)"
| "next_state env (Start, [], w) = Some (Done, [], w)"
| "next_state env (Invoke, cmd # cmds, w) = Some (Wait cmd, cmds, w)"
| "next_state env (Invoke, [], w) = None"
| "next_state env (Wait cmd, cmds, w) =
     (case run_child env cmd True w of
        (Inr u, w') \<Rightarrow> Some (Continue, cmds, w')
      | (Inl e, w') \<Rightarrow> Some (Abort e, cmds, w'))"
| "next_state env (Continue, cmd # cmds, w) = Some (Invoke, cmd # cmds, w)"
| "next_state env (Continue, [], w) = Some (Done, [], w)"
| "next_state env (Abort e, cmds, w) = None"
| "next_state env (Done, cmds, w) = None"

fun terminal :: "mstate \<Rightarrow> bool" where
  "terminal (Done, cmds, w) = True"
| "terminal (Abort e, cmds, w) = True"
| "terminal _ = False"

fun run_machine :: "nat \<Rightarrow> env \<Rightarrow> mstate \<Rightarrow> mstate" where
  "run_machine 0 env s = s"
| "run_machine (Suc n) env s =
     (case next_state env s of None \<Rightarrow> s | Some t \<Rightarrow> run_machine n env t)"

inductive reachable :: "env \<Rightarrow> string list list \<Rightarrow> world \<Rightarrow> mstate \<Rightarrow> bool"
  for env cmds w where
  reach_start: "reachable env cmds w (Start, cmds, w)"
| reach_step: "reachable env cmds w s \<Longrightarrow> step env s t \<Longrightarrow> reachable env cmds w t"

section \<open>The invariant and the outcome\<close>

fun current :: "phase \<Rightarrow> string list list" where
  "current (Wait cmd) = [cmd]"
| "current _ = []"

fun phase_ok :: "phase \<Rightarrow> string list list \<Rightarrow> call list \<Rightarrow> bool" where
  "phase_ok (Abort e) todo cs \<longleftrightarrow>
     cs \<noteq> [] \<and> raised (last cs) = Some e \<and> list_all (\<lambda>c. raised c = None) (butlast cs)"
| "phase_ok Done todo cs \<longleftrightarrow> todo = [] \<and> list_all (\<lambda>c. raised c = None) cs"
| "phase_ok _ todo cs \<longleftrightarrow> list_all (\<lambda>c. raised c = None) cs"

definition new_calls :: "world \<Rightarrow> world \<Rightarrow> call list" where
  "new_calls w0 w = drop (length (log w0)) (log w)"

fun machine_inv :: "string list list \<Rightarrow> world \<Rightarrow> mstate \<Rightarrow> bool" where
  "machine_inv cmds w0 (ph, todo, w) \<longleftrightarrow>
     cwd w = cwd w0 \<and> fs w = fs w0 \<and> log w = log w0 @ new_calls w0 w \<and>
     cmds = map call_args (new_calls w0 w) @ current ph @ todo \<and>
     list_all (\<lambda>c. call_cwd c = cwd w0) (new_calls w0 w) \<and>
     phase_ok ph todo (new_calls w0 w)"

definition outcome_state :: "string list list \<Rightarrow> world \<Rightarrow> unit result \<times> world \<Rightarrow> mstate" where
  "outcome_state cmds w rw =
     (case rw of
        (Inr u, w') \<Rightarrow> (Done, [], w')
      | (Inl e, w') \<Rightarrow> (Abort e, drop (length (log w') - length (log w)) cmds, w'))"

section \<open>Inversion\<close>

inductive_cases step_StartE: "step env (Start, cmds, w) t"
inductive_cases step_InvokeE: "step env (Invoke, cmds, w) t"
inductive_cases step_WaitE: "step env (Wait cmd, cmds, w) t"
inductive_cases step_ContinueE: "step env (Continue, cmds, w) t"
inductive_cases step_AbortE: "step env (Abort e, cmds, w) t"
inductive_cases step_DoneE: "step env (Done, cmds, w) t"

lemmas step_elims = step_StartE step_InvokeE step_WaitE step_ContinueE step_AbortE step_DoneE

section \<open>The relation and the function\<close>

lemma step_next_state: "step env s t \<longleftrightarrow> next_state env s = Some t"
proof
  assume "step env s t"
  then show "next_state env s = Some t"
    by (induction rule: step.induct) simp_all
next
  assume "next_state env s = Some t"
  then show "step env s t"
    by (induction env s rule: next_state.induct)
       (auto split: prod.splits sum.splits intro: step.intros)
qed

lemma step_deterministic: "step env s t \<Longrightarrow> step env s t' \<Longrightarrow> t = t'"
  by (simp add: step_next_state)

lemma terminal_no_step: "terminal s \<Longrightarrow> \<not> step env s t"
  by (cases s rule: terminal.cases) (auto elim: step_elims)

lemma terminal_next_state: "terminal s \<Longrightarrow> next_state env s = None"
  by (cases s rule: terminal.cases) simp_all

lemma run_machine_terminal [simp]: "terminal s \<Longrightarrow> run_machine n env s = s"
  by (cases n) (simp_all add: terminal_next_state)

lemma run_machine_steps: "rtranclp (step env) s (run_machine n env s)"
proof (induction n arbitrary: s)
  case 0
  then show ?case by simp
next
  case (Suc n)
  show ?case
  proof (cases "next_state env s")
    case None
    then show ?thesis by simp
  next
    case (Some t)
    then have "step env s t" by (simp add: step_next_state)
    moreover have "rtranclp (step env) t (run_machine n env t)" by (rule Suc.IH)
    ultimately show ?thesis using Some by (simp add: converse_rtranclp_into_rtranclp)
  qed
qed

lemma reachable_rtranclp: "reachable env cmds w s \<longleftrightarrow> rtranclp (step env) (Start, cmds, w) s"
proof
  assume "reachable env cmds w s"
  then show "rtranclp (step env) (Start, cmds, w) s"
    by (induction rule: reachable.induct) auto
next
  assume "rtranclp (step env) (Start, cmds, w) s"
  then show "reachable env cmds w s"
    by (induction rule: rtranclp_induct) (auto intro: reachable.intros)
qed

lemma reachable_run_machine: "reachable env cmds w (run_machine n env (Start, cmds, w))"
  by (simp add: reachable_rtranclp run_machine_steps)

lemma terminal_unique:
  assumes "rtranclp (step env) s t" and "rtranclp (step env) s t'"
    and "terminal t" and "terminal t'"
  shows "t = t'"
  using assms
proof (induction rule: converse_rtranclp_induct)
  case base
  then show ?case
    by (auto elim: converse_rtranclpE dest: terminal_no_step)
next
  case (step x y)
  from step.prems(1) step.hyps(1) step.prems(3) have "rtranclp (step env) y t'"
    by (auto elim!: converse_rtranclpE [of _ x t'] dest: step_deterministic terminal_no_step)
  with step show ?case by simp
qed

section \<open>The machine and the loop\<close>

lemma outcome_state_terminal [simp]: "terminal (outcome_state cmds w rw)"
  by (auto simp: outcome_state_def split: prod.splits sum.splits)

lemma run_all_log_grows: "run_all env cmds w = (r, w') \<Longrightarrow> length (log w) \<le> length (log w')"
  by (auto simp: run_all_calls_made)

lemma outcome_state_Cons_ok:
  assumes "run_child env cmd True w = (Inr u, w1)"
  shows "outcome_state (cmd # cmds) w (run_all env (cmd # cmds) w)
       = outcome_state cmds w1 (run_all env cmds w1)"
proof -
  obtain r w' where rw: "run_all env cmds w1 = (r, w')" by (cases "run_all env cmds w1")
  then have "length (log w1) \<le> length (log w')" by (rule run_all_log_grows)
  moreover from assms have "length (log w1) = Suc (length (log w))"
    by (simp add: run_child_log)
  ultimately have "length (log w') - length (log w) = Suc (length (log w') - length (log w1))"
    by simp
  moreover from assms have "run_all env (cmd # cmds) w = run_all env cmds w1"
    by (simp add: run_all_Cons)
  ultimately show ?thesis using rw
    by (simp add: outcome_state_def split: sum.splits)
qed

lemma outcome_state_Cons_failed:
  assumes "run_child env cmd True w = (Inl e, w1)"
  shows "outcome_state (cmd # cmds) w (run_all env (cmd # cmds) w) = (Abort e, cmds, w1)"
  using assms run_child_log [OF assms]
  by (simp add: run_all_Cons outcome_state_def)

lemma run_machine_Continue:
  "3 * length cmds + 1 \<le> n \<Longrightarrow>
     run_machine n env (Continue, cmds, w) = outcome_state cmds w (run_all env cmds w)"
proof (induction cmds arbitrary: n w)
  case Nil
  then obtain m where "n = Suc m" by (cases n) auto
  then show ?case by (simp add: outcome_state_def)
next
  case (Cons cmd cmds)
  define m where "m = n - 3"
  with Cons.prems have n: "n = Suc (Suc (Suc m))" and m: "3 * length cmds + 1 \<le> m"
    by simp_all
  obtain r w1 where run: "run_child env cmd True w = (r, w1)"
    by (cases "run_child env cmd True w")
  show ?case
  proof (cases r)
    case (Inr u)
    with n run have "run_machine n env (Continue, cmd # cmds, w)
        = run_machine m env (Continue, cmds, w1)"
      by simp
    with Cons.IH [OF m] run Inr show ?thesis by (simp add: outcome_state_Cons_ok)
  next
    case (Inl e)
    with n run show ?thesis by (simp add: outcome_state_Cons_failed)
  qed
qed

lemma run_machine_Start:
  "run_machine (Suc n) env (Start, cmds, w) = run_machine (Suc n) env (Continue, cmds, w)"
  by (cases cmds) simp_all

lemma run_machine_run_all:
  assumes "3 * length cmds + 1 \<le> n"
  shows "run_machine n env (Start, cmds, w) = outcome_state cmds w (run_all env cmds w)"
proof -
  from assms obtain m where "n = Suc m" by (cases n) auto
  with assms show ?thesis by (simp only: run_machine_Start run_machine_Continue)
qed

section \<open>The invariant\<close>

lemma new_calls_append: "log w = log w0 @ cs \<Longrightarrow> new_calls w0 w = cs"
  by (simp add: new_calls_def)

lemma machine_inv_iff:
  "machine_inv cmds w0 (ph, todo, w) \<longleftrightarrow>
     (\<exists>cs. log w = log w0 @ cs \<and> cwd w = cwd w0 \<and> fs w = fs w0 \<and>
        cmds = map call_args cs @ current ph @ todo \<and>
        list_all (\<lambda>c. call_cwd c = cwd w0) cs \<and> phase_ok ph todo cs)"
  by (auto simp: new_calls_append)

lemma machine_inv_start: "machine_inv cmds w (Start, cmds, w)"
  by (simp add: new_calls_def)

declare machine_inv.simps [simp del]

lemma run_child_Inr:
  "run_child env cmd True w = (Inr u, w') \<Longrightarrow>
     \<exists>c. w' = w\<lparr>log := log w @ [c]\<rparr> \<and> raised c = None \<and> call_cwd c = cwd w \<and> call_args c = cmd"
  by (auto simp: run_child_call Let_def split: option.splits)

lemma run_child_Inl:
  "run_child env cmd True w = (Inl e, w') \<Longrightarrow>
     \<exists>c. w' = w\<lparr>log := log w @ [c]\<rparr> \<and> raised c = Some e \<and> call_cwd c = cwd w \<and> call_args c = cmd"
  by (auto simp: run_child_call Let_def split: option.splits)

lemma step_machine_inv:
  assumes "step env s t" and "machine_inv cmds w0 s"
  shows "machine_inv cmds w0 t"
  using assms
proof (induction rule: step.induct)
  case (wait_ok cmd w u w' todo)
  from run_child_Inr [OF wait_ok(1)] wait_ok(2) show ?case
    by (auto simp: machine_inv_iff)
next
  case (wait_failed cmd w e w' todo)
  from run_child_Inl [OF wait_failed(1)] wait_failed(2) show ?case
    by (auto simp: machine_inv_iff)
qed (auto simp: machine_inv_iff)

section \<open>Properties\<close>

text \<open>
  C18. The state machine of the description, started on the sixteen jobs that
  \<open>combinate\<close> works through, stops within 49 transitions in the terminal
  state that stands for the result of \<open>combinate\<close>: \<open>Done\<close> with the world
  \<open>combinate\<close> leaves when it returns, \<open>Abort\<close> with the exception, the jobs never
  started and the world when it raises.
\<close>

theorem machine_refines_combinate:
  assumes "49 \<le> n"
  shows "run_machine n env (Start, executed a, w)
       = outcome_state (executed a) w (combinate env (untyped a) w)"
  using assms run_machine_run_all [of "executed a" n env w]
  by (simp add: length_executed combinate_run_all)

theorem machine_refines_combinate_witness:
  "run_machine 49 (\<lambda>h d c. if length h = 2 then Exited 3 else Exited 0)
     (Start, executed \<lparr>bsarch = ''b'', directory = ''d''\<rparr>, \<lparr>cwd = [], fs = [([], Dir)], log = []\<rparr>)
   = (Abort (CalledProcessError 3 [''b'', ''pack'', ''d'', ''tes4_2.bsa'', ''-tes4'', ''-af:0x2'']),
      drop 3 (executed \<lparr>bsarch = ''b'', directory = ''d''\<rparr>),
      \<lparr>cwd = [], fs = [([], Dir)],
       log = [\<lparr>call_cwd = [], call_args = [''b'', ''pack'', ''d'', ''tes4_0.bsa'', ''-tes4'', ''-af:0x0''],
                call_outcome = Exited 0\<rparr>,
              \<lparr>call_cwd = [], call_args = [''b'', ''pack'', ''d'', ''tes4_1.bsa'', ''-tes4'', ''-af:0x1''],
                call_outcome = Exited 0\<rparr>,
              \<lparr>call_cwd = [], call_args = [''b'', ''pack'', ''d'', ''tes4_2.bsa'', ''-tes4'', ''-af:0x2''],
                call_outcome = Exited 3\<rparr>]\<rparr>)"
proof -
  let ?env = "\<lambda>h d c. if length h = 2 then Exited 3 else Exited (0::int)"
  let ?a = "\<lparr>bsarch = ''b'', directory = ''d''\<rparr>"
  let ?w = "\<lparr>cwd = [], fs = [([], Dir)], log = []\<rparr>"
  have "combinate ?env (untyped ?a) ?w
     = (Inl (CalledProcessError 3 [''b'', ''pack'', ''d'', ''tes4_2.bsa'', ''-tes4'', ''-af:0x2'']),
        \<lparr>cwd = [], fs = [([], Dir)],
         log = [\<lparr>call_cwd = [], call_args = [''b'', ''pack'', ''d'', ''tes4_0.bsa'', ''-tes4'', ''-af:0x0''],
                  call_outcome = Exited 0\<rparr>,
                \<lparr>call_cwd = [], call_args = [''b'', ''pack'', ''d'', ''tes4_1.bsa'', ''-tes4'', ''-af:0x1''],
                  call_outcome = Exited 0\<rparr>,
                \<lparr>call_cwd = [], call_args = [''b'', ''pack'', ''d'', ''tes4_2.bsa'', ''-tes4'', ''-af:0x2''],
                  call_outcome = Exited 3\<rparr>]\<rparr>)"
    by (simp add: combinate_calls_made executed_def command_line_def Let_def verdict_def raised_def
          pack_defs hex_upper.simps)
  with machine_refines_combinate [of 49 ?env ?a ?w] show ?thesis
    by (simp add: outcome_state_def numeral_3_eq_3)
qed

text \<open>
  C19. In every state the machine can reach from \<open>Start\<close>, the working directory
  and the file system are those of the start, the log is the log of the start
  followed by the calls made, all of them started in the working directory;
  the command lines of the calls made, of the call waited for and of the jobs
  left are together the job list, in order; every call made has succeeded,
  except the last one of a run in \<open>Abort\<close>, which raised the exception of that
  state; and \<open>Done\<close> leaves no job behind.
\<close>

theorem reachable_invariant:
  "reachable env cmds w s \<Longrightarrow> machine_inv cmds w s"
proof (induction rule: reachable.induct)
  case reach_start
  show ?case by (rule machine_inv_start)
next
  case (reach_step s t)
  then show ?case by (blast intro: step_machine_inv)
qed

theorem reachable_invariant_witness:
  "reachable (\<lambda>h d c. Exited 0) [[''x''], [''y'']] \<lparr>cwd = [''bin''], fs = [], log = []\<rparr>
     (Wait [''y''], [],
      \<lparr>cwd = [''bin''], fs = [],
       log = [\<lparr>call_cwd = [''bin''], call_args = [''x''], call_outcome = Exited 0\<rparr>]\<rparr>)
   \<and> machine_inv [[''x''], [''y'']] \<lparr>cwd = [''bin''], fs = [], log = []\<rparr>
     (Wait [''y''], [],
      \<lparr>cwd = [''bin''], fs = [],
       log = [\<lparr>call_cwd = [''bin''], call_args = [''x''], call_outcome = Exited 0\<rparr>]\<rparr>)"
proof -
  let ?env = "\<lambda>h d c. Exited (0::int)"
  let ?w = "\<lparr>cwd = [''bin''], fs = [], log = []\<rparr>"
  have "reachable ?env [[''x''], [''y'']] ?w
     (Wait [''y''], [],
      \<lparr>cwd = [''bin''], fs = [],
       log = [\<lparr>call_cwd = [''bin''], call_args = [''x''], call_outcome = Exited 0\<rparr>]\<rparr>)"
    using reachable_run_machine [of ?env "[[''x''], [''y'']]" ?w 5]
    by (simp add: numeral_eq_Suc run_child_def)
  with reachable_invariant show ?thesis by blast
qed

text \<open>
  C20. The machine has one way to end: a terminal state reached from \<open>Start\<close> on
  the jobs of \<open>combinate\<close>, after any number of transitions, is the state that
  stands for the result of \<open>combinate\<close>.
\<close>

theorem machine_terminal_unique:
  assumes "reachable env (executed a) w s" and "terminal s"
  shows "s = outcome_state (executed a) w (combinate env (untyped a) w)"
proof -
  let ?t = "run_machine 49 env (Start, executed a, w)"
  have "?t = outcome_state (executed a) w (combinate env (untyped a) w)"
    using run_machine_run_all [of "executed a" 49 env w]
    by (simp add: length_executed combinate_run_all)
  moreover have "rtranclp (step env) (Start, executed a, w) ?t"
    by (rule run_machine_steps)
  moreover from assms(1) have "rtranclp (step env) (Start, executed a, w) s"
    by (simp add: reachable_rtranclp)
  ultimately show ?thesis
    using assms(2) terminal_unique [of env "(Start, executed a, w)" s ?t] by simp
qed

theorem machine_terminal_unique_witness:
  "run_machine 3 (\<lambda>h d c. Failed FileNotFoundError)
     (Start, executed \<lparr>bsarch = ''b'', directory = ''d''\<rparr>, \<lparr>cwd = [], fs = [], log = []\<rparr>)
   = outcome_state (executed \<lparr>bsarch = ''b'', directory = ''d''\<rparr>) \<lparr>cwd = [], fs = [], log = []\<rparr>
       (combinate (\<lambda>h d c. Failed FileNotFoundError) (untyped \<lparr>bsarch = ''b'', directory = ''d''\<rparr>)
          \<lparr>cwd = [], fs = [], log = []\<rparr>)
   \<and> terminal (run_machine 3 (\<lambda>h d c. Failed FileNotFoundError)
     (Start, executed \<lparr>bsarch = ''b'', directory = ''d''\<rparr>, \<lparr>cwd = [], fs = [], log = []\<rparr>))"
proof -
  let ?env = "\<lambda>h d c. Failed FileNotFoundError"
  let ?a = "\<lparr>bsarch = ''b'', directory = ''d''\<rparr>"
  let ?w = "\<lparr>cwd = [], fs = [], log = []\<rparr>"
  have t: "terminal (run_machine 3 ?env (Start, executed ?a, ?w))"
    by (simp add: numeral_eq_Suc executed_def flag_combinations_eq run_child_def)
  with machine_terminal_unique [OF reachable_run_machine [of ?env "executed ?a" ?w 3] t]
  show ?thesis by simp
qed

text \<open>
  C21. Whatever the child processes do, the machine started on the jobs of
  \<open>combinate\<close> is in a terminal state after 49 transitions, and that state is
  reachable: the loop always ends, with at most sixteen child processes.
\<close>

theorem machine_terminates:
  "terminal (run_machine 49 env (Start, executed a, w)) \<and>
   reachable env (executed a) w (run_machine 49 env (Start, executed a, w)) \<and>
   length (log (snd (snd (run_machine 49 env (Start, executed a, w))))) \<le> length (log w) + 16"
proof -
  have eq: "run_machine 49 env (Start, executed a, w)
      = outcome_state (executed a) w (run_all env (executed a) w)"
    using run_machine_run_all [of "executed a" 49 env w] by (simp add: length_executed)
  have "length (calls_made env (cwd w) (log w) (executed a)) \<le> 16"
    using calls_made_length [of env "cwd w" "log w" "executed a"] by (simp add: length_executed)
  then have "length (log (snd (snd (outcome_state (executed a) w (run_all env (executed a) w)))))
      \<le> length (log w) + 16"
    by (simp add: outcome_state_def run_all_calls_made split: sum.splits)
  with eq show ?thesis
    by (simp add: reachable_run_machine [of env "executed a" w 49, unfolded eq])
qed

end
