(* ===== verification/Pack_Variants.thy ===== *)
theory Pack_Variants
  imports Pack_Combinate
begin

text \<open>
  Two other ways to write the enumeration of \<^verbatim>\<open>combinate\<close>, compared with the
  code. Neither is code of the script.

  \<^item> \<open>combinate_list\<close> is \<^verbatim>\<open>combinate\<close> with the combinations kept in a list
    (\<^verbatim>\<open>list(powerset(...))\<close>) instead of the iterator: the body and both loops
    are those of the code, but every pass of the inner loop starts from the
    first combination.
  \<^item> \<open>mask_select\<close>, \<open>mask_powerset\<close> and \<open>mask_jobs\<close> are the loop over the bit
    masks \<open>0\<close> to \<open>2 ^ n - 1\<close> that the design notes of the description
    propose in place of \<^verbatim>\<open>powerset\<close>: bit \<open>i\<close> of the mask selects element \<open>i\<close>.

  The lemmas show that the loops over a list run the forty-eight planned
  jobs and begin with what \<open>combinate\<close> does, and that the loop over masks
  yields the combinations of \<open>powerset\<close>, each as often, in another order.
\<close>

section \<open>The loops over a list\<close>

definition combinate_list :: "env \<Rightarrow> pyval args \<Rightarrow> (unit, world) exec" where
  "combinate_list env a_args =
     (let combinations_l = pending (powerset (map flag_value members));
          formats = [''tes4'', ''tes5'', ''sse'']
      in for_in (\<lambda>format. for_in (combinate_body env a_args format) combinations_l) formats)"

section \<open>The loop over bit masks\<close>

definition mask_select :: "'a list \<Rightarrow> nat \<Rightarrow> 'a list" where
  "mask_select xs m = map (nth xs) (filter (bit m) [0..<length xs])"

definition mask_powerset :: "'a list \<Rightarrow> 'a list list" where
  "mask_powerset xs = map (mask_select xs) [0..<2 ^ length xs]"

definition mask_jobs :: "string args \<Rightarrow> string list list" where
  "mask_jobs a =
     concat (map (\<lambda>format. map (\<lambda>combo. command_line a format (flag_union combo))
                               (mask_powerset (map flag_value members)))
                 [''tes4'', ''tes5'', ''sse''])"

section \<open>Nested loops\<close>

lemma for_in_concat: "for_in body (concat xss) = for_in (\<lambda>xs. for_in body xs) xss"
  by (induction xss) (simp_all add: for_in_append)

lemma run_all_concat_map:
  "run_all env (concat (map f xs)) = for_in (\<lambda>x. run_all env (f x)) xs"
  by (simp add: run_all_def for_in_concat for_in_map)

lemma combinate_list_run_all: "combinate_list env (untyped a) = run_all env (planned a)"
proof -
  have "combinate_list env (untyped a)
      = for_in (\<lambda>format. run_all env (map (\<lambda>combo. command_line a format (flag_union combo))
                 (pending (powerset (map flag_value members)))))
          [''tes4'', ''tes5'', ''sse'']"
    by (simp only: combinate_list_def Let_def run_all_def for_in_map combinate_body_eq [abs_def])
  also have "\<dots> = run_all env (planned a)"
    by (simp only: planned_def flag_combinations_def map_map comp_def run_all_concat_map)
  finally show ?thesis .
qed

section \<open>Masks and subsequences\<close>

lemma mask_select_Nil [simp]: "mask_select [] m = []"
  by (simp add: mask_select_def)

lemma mask_select_Cons:
  "mask_select (x # xs) m = (if odd m then [x] else []) @ mask_select xs (m div 2)"
proof -
  have "[0..<length (x # xs)] = 0 # map Suc [0..<length xs]"
    by (simp add: upt_conv_Cons map_Suc_upt del: upt_Suc)
  then show ?thesis
    by (simp add: mask_select_def filter_map comp_def bit_Suc bit_0 del: upt_Suc)
qed

lemma mset_map_double:
  "mset (map f [0..<2 * k])
     = mset (map (\<lambda>j. f (2 * j)) [0..<k]) + mset (map (\<lambda>j. f (2 * j + 1)) [0..<k])"
  by (induction k) simp_all

lemma mset_mask_powerset: "mset (mask_powerset xs) = mset (subseqs xs)"
proof (induction xs)
  case Nil
  then show ?case by (simp add: mask_powerset_def)
next
  case (Cons x xs)
  have "mset (mask_powerset (x # xs))
      = mset (map (\<lambda>j. mask_select (x # xs) (2 * j)) [0..<2 ^ length xs])
      + mset (map (\<lambda>j. mask_select (x # xs) (2 * j + 1)) [0..<2 ^ length xs])"
    by (simp add: mask_powerset_def mset_map_double del: upt_Suc mset_map)
  also have "\<dots> = mset (mask_powerset xs) + mset (map (Cons x) (mask_powerset xs))"
    by (simp add: mask_select_Cons mask_powerset_def comp_def del: upt_Suc)
  finally show ?case
    by (simp add: Cons.IH Let_def)
qed

lemma mset_mask_powerset_powerset: "mset (mask_powerset xs) = mset (pending (powerset xs))"
  by (simp only: mset_mask_powerset mset_powerset)

lemma mset_mask_jobs: "mset (mask_jobs a) = mset (planned a)"
proof -
  have "mset (map (\<lambda>combo. command_line a format (flag_union combo))
           (mask_powerset (map flag_value members)))
      = mset (map (command_line a format) flag_combinations)" for format
    by (simp only: flag_combinations_def map_map comp_def mset_map mset_mask_powerset_powerset)
  then show ?thesis
    by (simp add: mask_jobs_def planned_def)
qed

lemma run_all_append:
  "run_all env (xs @ ys) = bind_exec (run_all env xs) (\<lambda>_. run_all env ys)"
  by (simp add: run_all_def for_in_append)

lemma planned_split: "planned a = executed a @ drop 16 (planned a)"
  using append_take_drop_id [of 16 "planned a"] by (simp only: executed_planned)

lemma mask_flag_values:
  "map flag_union (mask_powerset (map flag_value members))
     = [0, 1, 2, 3, 4, 5, 6, 7, 256, 257, 258, 259, 260, 261, 262, 263]"
  by (simp add: mask_powerset_def mask_select_Cons upt_16 flag_union_def pack_defs)

section \<open>Properties\<close>

text \<open>
  C22. With the combinations kept in a list instead of an iterator, the two
  loops run the forty-eight planned jobs, and \<open>combinate\<close> is the beginning of
  that run: the loops over the list do what \<open>combinate\<close> does and then, if it
  returned, go on with the thirty-two jobs of \<^verbatim>\<open>tes5\<close> and \<^verbatim>\<open>sse\<close>.
\<close>

theorem combinate_list_planned:
  "combinate_list env (untyped a) = run_all env (planned a) \<and>
   combinate_list env (untyped a) = bind_exec (combinate env (untyped a)) (\<lambda>_. run_all env (drop 16 (planned a))) \<and>
   length (drop 16 (planned a)) = 32"
proof -
  have "run_all env (planned a)
      = bind_exec (run_all env (executed a)) (\<lambda>_. run_all env (drop 16 (planned a)))"
    using run_all_append [of env "executed a" "drop 16 (planned a)"]
    by (simp only: planned_split [symmetric])
  then show ?thesis
    by (simp add: combinate_list_run_all combinate_run_all [abs_def] length_planned)
qed

text \<open>
  C33. The loop over the bit masks \<open>0\<close> to \<open>2 ^ n - 1\<close>, in which bit \<open>i\<close> of the
  mask selects element \<open>i\<close>, yields the same combinations as \<open>powerset\<close>, each as
  often, in another order: by increasing mask and not by increasing length.
\<close>

theorem mask_powerset_correct:
  "mset (mask_powerset xs) = mset (pending (powerset xs)) \<and>
   length (mask_powerset xs) = 2 ^ length xs \<and>
   mask_powerset [a, b] = [[], [a], [b], [a, b]] \<and>
   pending (powerset [a, b, c]) = [[], [a], [b], [c], [a, b], [a, c], [b, c], [a, b, c]] \<and>
   mask_powerset [a, b, c] = [[], [a], [b], [a, b], [c], [a, c], [b, c], [a, b, c]]"
proof (intro conjI)
  show "mset (mask_powerset xs) = mset (pending (powerset xs))"
    by (rule mset_mask_powerset_powerset)
  show "length (mask_powerset xs) = 2 ^ length xs"
    by (simp add: mask_powerset_def)
  show "mask_powerset [a, b] = [[], [a], [b], [a, b]]"
    by (simp add: mask_powerset_def mask_select_Cons upt_rec)
  show "pending (powerset [a, b, c]) = [[], [a], [b], [c], [a, b], [a, c], [b, c], [a, b, c]]"
    by (simp add: pending_powerset upt_rec numeral_eq_Suc)
  show "mask_powerset [a, b, c] = [[], [a], [b], [a, b], [c], [a, c], [b, c], [a, b, c]]"
    by (simp add: mask_powerset_def mask_select_Cons upt_rec)
qed

text \<open>
  Run over the flags and the three formats, the loop over bit masks has
  the forty-eight planned jobs, each once; the flag values come in the order
  0 to 7 and 0x100 to 0x107.
\<close>

theorem mask_jobs_planned:
  "mset (mask_jobs a) = mset (planned a) \<and>
   map flag_union (mask_powerset (map flag_value members))
     = [0, 1, 2, 3, 4, 5, 6, 7, 0x100, 0x101, 0x102, 0x103, 0x104, 0x105, 0x106, 0x107]"
  by (simp add: mset_mask_jobs mask_flag_values)

end
