(* ===== verification/Pack_Stepping.thy ===== *)
theory Pack_Stepping
  imports Pack_Itertools
begin

text \<open>
  The algorithm of \<^verbatim>\<open>itertools.combinations\<close>, as the documentation of the
  Python library gives it, compared with the recursive \<open>combinations\<close> of
  \<open>Pack_Itertools\<close>. The script only calls the library function; this theory
  is the evidence that \<open>combinations\<close> lists what the library yields, in the
  same order.

  The library keeps a list \<^verbatim>\<open>indices\<close> of \<open>r\<close> positions into the pool, at first
  \<open>0\<close> to \<open>r - 1\<close>, and yields the elements at these positions. Then it repeats:
  \<^item> \<open>movable\<close>: search from the right for a position \<open>i\<close> whose index is not
    yet \<open>i + n - r\<close>, the greatest it can have; stop if there is none;
  \<^item> \<open>advance\<close>: add one to that index and set every index to its right to
    one more than its left neighbour (\<open>follow\<close> is that assignment);
  \<^item> yield the elements at the new positions.

  \<open>next_indices\<close> is one round of the search and the update,
  \<open>combinations_loop\<close> the \<^verbatim>\<open>while True\<close> loop with what it yields, and
  \<open>combinations_iter\<close> the whole function. The loop is a partial function:
  that it ends is part of what is proved, for every pool and every \<open>r\<close>.

  For the proof, \<open>step_rec\<close> is the same step by recursion on the list of
  positions, and \<open>linked f xs\<close> says that every element of \<open>xs\<close> is taken to the
  next one by \<open>f\<close>. The recursive step links the list \<open>combinations [a..<n] r\<close>
  and has no successor for its last element.
\<close>

section \<open>The algorithm\<close>

definition movable :: "nat \<Rightarrow> nat \<Rightarrow> nat list \<Rightarrow> nat option" where
  "movable n r indices = find (\<lambda>i. indices ! i \<noteq> i + n - r) (rev [0..<r])"

definition follow :: "nat \<Rightarrow> nat list \<Rightarrow> nat list" where
  "follow j indices = indices[j := indices ! (j - 1) + 1]"

definition advance :: "nat \<Rightarrow> nat \<Rightarrow> nat list \<Rightarrow> nat list" where
  "advance i r indices = fold follow [i + 1..<r] (indices[i := indices ! i + 1])"

definition next_indices :: "nat \<Rightarrow> nat \<Rightarrow> nat list \<Rightarrow> nat list option" where
  "next_indices n r indices = map_option (\<lambda>i. advance i r indices) (movable n r indices)"

partial_function (option) combinations_loop :: "'a list \<Rightarrow> nat \<Rightarrow> nat list \<Rightarrow> 'a list list option" where
  "combinations_loop pool r indices =
     (case next_indices (length pool) r indices of
        None \<Rightarrow> Some []
      | Some indices' \<Rightarrow>
          Option.bind (combinations_loop pool r indices')
            (\<lambda>rest. Some (map (nth pool) indices' # rest)))"

definition combinations_iter :: "'a list \<Rightarrow> nat \<Rightarrow> 'a list list option" where
  "combinations_iter iterable r =
     (let pool = iterable; n = length pool
      in if r > n then Some []
         else let indices = [0..<r]
              in Option.bind (combinations_loop pool r indices)
                   (\<lambda>rest. Some (map (nth pool) indices # rest)))"

section \<open>The step, by recursion on the positions\<close>

fun step_rec :: "nat \<Rightarrow> nat list \<Rightarrow> nat list option" where
  "step_rec n [] = None"
| "step_rec n (x # v) =
     (case step_rec n v of
        Some v' \<Rightarrow> Some (x # v')
      | None \<Rightarrow> if x \<noteq> n - Suc (length v) then Some [Suc x..<Suc x + Suc (length v)] else None)"

fun linked :: "('a \<Rightarrow> 'a option) \<Rightarrow> 'a list \<Rightarrow> bool" where
  "linked f [] = True"
| "linked f [x] = True"
| "linked f (x # y # ys) = (f x = Some y \<and> linked f (y # ys))"

section \<open>Searching from the right\<close>

lemma find_append:
  "find P (xs @ ys) = (case find P xs of Some x \<Rightarrow> Some x | None \<Rightarrow> find P ys)"
  by (induction xs) auto

lemma find_map: "find P (map f xs) = map_option f (find (P \<circ> f) xs)"
  by (induction xs) auto

lemma rev_upt_Suc: "rev [0..<Suc r] = rev (map Suc [0..<r]) @ [0]"
  by (simp only: upt_conv_Cons [of 0 "Suc r", OF zero_less_Suc] map_Suc_upt [symmetric] rev.simps)

lemma movable_Nil [simp]: "movable n 0 v = None"
  by (simp add: movable_def)

lemma movable_Cons:
  "movable n (Suc r) (x # v) =
     (case movable n r v of Some i \<Rightarrow> Some (Suc i) | None \<Rightarrow> if x \<noteq> n - Suc r then Some 0 else None)"
proof -
  have "find (\<lambda>i. (x # v) ! i \<noteq> i + n - Suc r) (rev (map Suc [0..<r]))
      = map_option Suc (movable n r v)"
    by (simp add: movable_def rev_map find_map comp_def del: upt_Suc)
  then show ?thesis
    by (simp add: movable_def [of n "Suc r"] rev_upt_Suc find_append split: option.splits
          del: upt_Suc)
qed

section \<open>Resetting the positions to the right\<close>

lemma follow_Cons: "follow (Suc (Suc k)) (x # w) = x # follow (Suc k) w"
  by (simp add: follow_def)

lemma fold_follow_Cons:
  "\<forall>j\<in>set js. 0 < j \<Longrightarrow> fold follow (map Suc js) (x # w) = x # fold follow js w"
proof (induction js arbitrary: w)
  case Nil
  then show ?case by simp
next
  case (Cons j js)
  then obtain k where "j = Suc k" by (cases j) auto
  with Cons show ?case by (simp add: follow_Cons)
qed

lemma advance_Suc: "advance (Suc i) (Suc r) (x # v) = x # advance i r v"
proof -
  have "[Suc i + 1..<Suc r] = map Suc [i + 1..<r]"
    by (simp add: map_Suc_upt del: upt_Suc)
  then show ?thesis
    by (simp add: advance_def fold_follow_Cons del: upt_Suc)
qed

lemma fold_follow_fill:
  assumes "length ind = m" and "0 < k" and "k \<le> m" and "take k ind = [a..<a + k]"
  shows "fold follow [k..<m] ind = [a..<a + m]"
  using assms
proof (induction "m - k" arbitrary: k ind)
  case 0
  then show ?case by simp
next
  case (Suc d)
  then have k: "k < m" by simp
  let ?ind = "follow k ind"
  from Suc.prems have "ind ! (k - 1) = [a..<a + k] ! (k - 1)"
    by (metis diff_less less_numeral_extra(1) nth_take)
  with Suc.prems have prev: "ind ! (k - 1) = a + k - 1" by simp
  have "take (Suc k) ?ind = take k ind @ [ind ! (k - 1) + 1]"
    using k Suc.prems(1) by (simp add: take_Suc_conv_app_nth follow_def)
  with prev Suc.prems have "take (Suc k) ?ind = [a..<a + Suc k]" by simp
  moreover from Suc.hyps(2) have "d = m - Suc k" by simp
  ultimately have "fold follow [Suc k..<m] ?ind = [a..<a + m]"
    using Suc.prems k by (intro Suc.hyps(1)) (simp_all add: follow_def)
  with k show ?case by (simp add: upt_conv_Cons del: upt_Suc)
qed

lemma advance_0:
  assumes "length v = r"
  shows "advance 0 (Suc r) (x # v) = [Suc x..<Suc x + Suc r]"
proof -
  have "take 1 (Suc x # v) = [Suc x..<Suc x + 1]" by simp
  with assms have "fold follow [1..<Suc r] (Suc x # v) = [Suc x..<Suc x + Suc r]"
    by (intro fold_follow_fill) simp_all
  then show ?thesis by (simp add: advance_def del: upt_Suc)
qed

section \<open>The two steps agree\<close>

lemma next_indices_step_rec: "length v = r \<Longrightarrow> next_indices n r v = step_rec n v"
proof (induction v arbitrary: r)
  case Nil
  then show ?case by (simp add: next_indices_def)
next
  case (Cons x v)
  then obtain r' where r: "r = Suc r'" and len: "length v = r'" by (cases r) auto
  from Cons.IH [OF len] have "step_rec n v = map_option (\<lambda>i. advance i r' v) (movable n r' v)"
    by (simp add: next_indices_def)
  with r len show ?case
    by (simp add: next_indices_def movable_Cons advance_Suc advance_0 split: option.splits
          del: upt_Suc)
qed

section \<open>Lists linked by a step\<close>

lemma linked_Cons:
  "linked f (x # xs) \<longleftrightarrow> (xs = [] \<or> f x = Some (hd xs) \<and> linked f xs)"
  by (cases xs) simp_all

lemma linked_append:
  "linked f (xs @ ys) \<longleftrightarrow>
     linked f xs \<and> linked f ys \<and> (xs = [] \<or> ys = [] \<or> f (last xs) = Some (hd ys))"
  by (induction f xs rule: linked.induct) (auto simp: linked_Cons)

lemma linked_map:
  assumes "linked f xs" and "\<And>x y. f x = Some y \<Longrightarrow> g (h x) = Some (h y)"
  shows "linked g (map h xs)"
  using assms by (induction f xs rule: linked.induct) auto

lemma linked_cong: "(\<And>x. x \<in> set xs \<Longrightarrow> f x = g x) \<Longrightarrow> linked f xs = linked g xs"
  by (induction f xs rule: linked.induct) auto

section \<open>The first and the last combination\<close>

lemma combinations_eq_Nil_iff: "combinations xs r = [] \<longleftrightarrow> length xs < r"
  by (simp only: length_0_conv [symmetric] length_combinations binomial_eq_0_iff)

lemma hd_combinations: "r \<le> length xs \<Longrightarrow> hd (combinations xs r) = take r xs"
  by (induction xs r rule: combinations.induct)
     (simp_all add: hd_append combinations_eq_Nil_iff hd_map)

lemma last_combinations: "r \<le> length xs \<Longrightarrow> last (combinations xs r) = drop (length xs - r) xs"
proof (induction xs r rule: combinations.induct)
  case (3 x xs r)
  show ?case
  proof (cases "Suc r \<le> length xs")
    case True
    then have "length xs - r = Suc (length xs - Suc r)" by simp
    with 3 True show ?thesis by (simp add: combinations_eq_Nil_iff)
  next
    case False
    with 3 have "r = length xs" by simp
    then show ?thesis by (simp add: combinations_too_long combinations_all)
  qed
qed simp_all

lemma step_rec_greatest: "r \<le> n \<Longrightarrow> step_rec n [n - r..<n] = None"
proof (induction r)
  case 0
  then show ?case by simp
next
  case (Suc r)
  then have "[n - Suc r..<n] = (n - Suc r) # [n - r..<n]"
    by (simp add: upt_conv_Cons Suc_diff_Suc)
  with Suc show ?case by simp
qed

section \<open>The recursive step walks through the combinations\<close>

lemma linked_combinations_upt: "linked (step_rec n) (combinations [a..<n] r)"
proof (induction "[a..<n]" r arbitrary: a rule: combinations.induct)
  case 1
  then show ?case by simp
next
  case (2 r)
  then show ?case by simp
next
  case (3 x xs r)
  from 3(3) [symmetric] have a: "a < n" and x: "x = a" and xs: "xs = [Suc a..<n]"
    by (auto simp: upt_eq_Cons_conv)
  let ?A = "combinations [Suc a..<n] r" and ?B = "combinations [Suc a..<n] (Suc r)"
  from 3(1) [OF xs] have "linked (step_rec n) ?A" by (simp add: xs)
  then have "linked (step_rec n) (map ((#) a) ?A)"
    by (rule linked_map) simp
  moreover from 3(2) [OF xs] have "linked (step_rec n) ?B" by (simp add: xs)
  moreover have "step_rec n (last (map ((#) a) ?A)) = Some (hd ?B)" if "?A \<noteq> []" "?B \<noteq> []"
  proof -
    from that(2) a have b: "Suc (Suc (a + r)) \<le> n" by (simp add: combinations_eq_Nil_iff)
    then have "last ?A = [n - r..<n]" "hd ?B = [Suc a..<Suc a + Suc r]"
      by (simp_all add: last_combinations hd_combinations Suc_diff_Suc)
    moreover from b have "step_rec n [n - r..<n] = None" by (intro step_rec_greatest) simp
    ultimately show ?thesis using that(1) b by (simp add: last_map)
  qed
  moreover from a have "combinations [a..<n] (Suc r) = map ((#) a) ?A @ ?B"
    by (simp add: upt_conv_Cons)
  ultimately show ?case
    by (auto simp: linked_append)
qed

lemma step_rec_last_combinations:
  assumes "a + r \<le> n"
  shows "step_rec n (last (combinations [a..<n] r)) = None"
proof -
  from assms have "last (combinations [a..<n] r) = [n - r..<n]"
    by (simp add: last_combinations)
  with assms show ?thesis by (simp add: step_rec_greatest)
qed

section \<open>The loop\<close>

lemma combinations_loop_linked:
  assumes "linked (next_indices (length pool) r) (v # vs)"
    and "next_indices (length pool) r (last (v # vs)) = None"
  shows "combinations_loop pool r v = Some (map (map (nth pool)) vs)"
  using assms
proof (induction vs arbitrary: v)
  case Nil
  then show ?case by (subst combinations_loop.simps) simp
next
  case (Cons u vs)
  then have "next_indices (length pool) r v = Some u"
    and "combinations_loop pool r u = Some (map (map (nth pool)) vs)"
    by simp_all
  then show ?case by (subst combinations_loop.simps) simp
qed

lemma linked_nth: "linked f xs \<Longrightarrow> Suc k < length xs \<Longrightarrow> f (xs ! k) = Some (xs ! Suc k)"
proof (induction f xs arbitrary: k rule: linked.induct)
  case (3 f x y ys)
  then show ?case by (cases k) simp_all
qed simp_all

lemma linked_next_indices: "linked (next_indices n r) (combinations [0..<n] r)"
proof -
  have "linked (next_indices n r) (combinations [0..<n] r)
      = linked (step_rec n) (combinations [0..<n] r)"
    by (rule linked_cong) (simp add: next_indices_step_rec length_in_combinations)
  then show ?thesis by (simp add: linked_combinations_upt)
qed

section \<open>Properties\<close>

text \<open>
  C31. The algorithm of \<^verbatim>\<open>itertools.combinations\<close> ends for every pool and
  every \<open>r\<close>, and what it has yielded by then is the list \<open>combinations xs r\<close>,
  element by element in the same order.
\<close>

theorem combinations_iter_correct: "combinations_iter xs r = Some (combinations xs r)"
proof (cases "r \<le> length xs")
  case False
  then show ?thesis by (simp add: combinations_iter_def combinations_too_long)
next
  case True
  let ?n = "length xs"
  let ?L = "combinations [0..<?n] r"
  from True have ne: "?L \<noteq> []" and hd: "hd ?L = [0..<r]"
    by (simp_all add: combinations_eq_Nil_iff hd_combinations)
  then have L: "?L = [0..<r] # tl ?L" by (cases ?L) simp_all
  have "linked (next_indices ?n r) ?L = linked (step_rec ?n) ?L"
    by (rule linked_cong) (simp add: next_indices_step_rec length_in_combinations)
  then have "linked (next_indices ?n r) ([0..<r] # tl ?L)"
    using linked_combinations_upt [of ?n 0 r] L by simp
  moreover from ne have "length (last ?L) = r"
    by (intro length_in_combinations [of _ "[0..<?n]"]) simp
  then have "next_indices ?n r (last ?L) = None"
    using True step_rec_last_combinations [of 0 r ?n]
    by (simp add: next_indices_step_rec)
  then have "next_indices ?n r (last ([0..<r] # tl ?L)) = None" using L by simp
  ultimately have "combinations_loop xs r [0..<r] = Some (map (map (nth xs)) (tl ?L))"
    by (rule combinations_loop_linked)
  then have "combinations_iter xs r = Some (map (map (nth xs)) ([0..<r] # tl ?L))"
    using True by (simp add: combinations_iter_def)
  with L show ?thesis by (simp add: combinations_nth [of xs r])
qed

text \<open>
  One round of the loop takes each combination of positions to the one
  that follows it in \<open>combinations [0..<n] r\<close>, and it finds no position to move
  when the positions are the last \<open>r\<close> of the pool.
\<close>

theorem next_indices_successor:
  assumes "Suc k < length (combinations [0..<n] r)"
  shows "next_indices n r (combinations [0..<n] r ! k) = Some (combinations [0..<n] r ! Suc k) \<and>
         next_indices n r [n - r..<n] = None"
proof
  from linked_next_indices assms
  show "next_indices n r (combinations [0..<n] r ! k) = Some (combinations [0..<n] r ! Suc k)"
    by (rule linked_nth)
  from assms have "combinations [0..<n] r \<noteq> []" by auto
  then have "r \<le> n" by (simp add: combinations_eq_Nil_iff)
  then show "next_indices n r [n - r..<n] = None"
    by (simp add: next_indices_step_rec step_rec_greatest)
qed

theorem next_indices_successor_witness:
  "next_indices 4 2 [0, 3] = Some [1, 2] \<and> next_indices 4 2 [2, 3] = None"
proof -
  have c: "combinations [0..<4] 2 = [[0, 1], [0, 2], [0, 3], [1, 2], [1, 3], [2, 3]]"
    by (simp add: upt_rec numeral_eq_Suc)
  have "[4 - 2..<4] = [2, 3 :: nat]" by (simp add: upt_rec)
  with next_indices_successor [of 2 4 2] show ?thesis by (simp add: c)
qed

end
