(* ===== verification/Pack_Blocking.thy ===== *)
theory Pack_Blocking
  imports Pack_Main
begin

text \<open>
  Child processes that do not exit. \<^verbatim>\<open>subprocess.run\<close> is called without a
  timeout and waits for the child, so a child that never exits keeps the
  script waiting for ever. In the other theories the environment always
  answers; here it may not.

  \<^item> \<open>penv\<close> is an environment that answers \<open>None\<close> for a child that never
    exits.
  \<^item> \<open>waiting\<close> is a statement that may never come back: it gives \<open>None\<close> then,
    and otherwise what an \<open>exec\<close> gives. \<open>bind_blocking\<close> is the sequence of
    two such statements, \<open>returns\<close> a statement that always comes back.
  \<^item> \<open>subprocess_run_blocking\<close> is \<^verbatim>\<open>subprocess.run\<close> in such an environment:
    it is \<open>run_child\<close> with the answer of the child, and \<open>None\<close> when there
    is no answer.
  \<^item> \<open>for_iter_blocking\<close>, \<open>combinate_body_blocking\<close>, \<open>combinate_formats_blocking\<close>,
    \<open>combinate_blocking\<close>, \<open>main_blocking\<close> and \<open>script_blocking\<close> are the code of
    lines 15 to 29 and 37 to 48 once more, statement by statement as in
    \<open>Pack_Combinate\<close> and \<open>Pack_Main\<close>, with \<open>bind_blocking\<close> for the sequence
    and \<open>subprocess_run_blocking\<close> for the call of the child.
  \<^item> \<open>run_all_blocking\<close> is the sequential fail-fast run of a job list in such
    an environment, the specification that \<open>combinate_blocking\<close> is compared
    with.
  \<^item> \<open>answered_ok\<close> says of a list of calls that each was started in the given
    directory after the ones before it and exited with 0.

  The lemmas show that \<open>combinate_blocking\<close> is \<open>run_all_blocking\<close> on the
  sixteen jobs, that the run is that of \<open>combinate\<close> when every child exits,
  and that it has no result exactly when it reaches a child that never exits,
  which it does when all children before that one have exited with 0; and
  the same of the whole script, whose parser and preparation of \<^verbatim>\<open>bin\<close> never
  wait.
\<close>

section \<open>Definitions\<close>

type_synonym penv = "call list \<Rightarrow> path \<Rightarrow> string list \<Rightarrow> outcome option"

fun run_all_blocking :: "penv \<Rightarrow> string list list \<Rightarrow> world \<Rightarrow> (unit result \<times> world) option" where
  "run_all_blocking penv [] w = Some (Inr (), w)"
| "run_all_blocking penv (cmd # cmds) w =
     (case penv (log w) (cwd w) cmd of
        None \<Rightarrow> None
      | Some out \<Rightarrow>
          (case run_child (\<lambda>h d c. out) cmd True w of
             (Inl e, w') \<Rightarrow> Some (Inl e, w')
           | (Inr u, w') \<Rightarrow> run_all_blocking penv cmds w'))"

fun answered_ok :: "penv \<Rightarrow> path \<Rightarrow> call list \<Rightarrow> call list \<Rightarrow> bool" where
  "answered_ok penv d h [] = True"
| "answered_ok penv d h (c # cs) \<longleftrightarrow>
     c = succeeded d (call_args c) \<and> penv h d (call_args c) = Some (Exited 0) \<and>
     answered_ok penv d (h @ [c]) cs"

section \<open>The code, with children that may not exit\<close>

type_synonym 'a waiting = "world \<Rightarrow> ('a result \<times> world) option"

definition returns :: "('a, world) exec \<Rightarrow> 'a waiting" where
  "returns m w = Some (m w)"

definition bind_blocking :: "'a waiting \<Rightarrow> ('a \<Rightarrow> 'b waiting) \<Rightarrow> 'b waiting" where
  "bind_blocking m f w =
     (case m w of
        None \<Rightarrow> None
      | Some (Inl e, w') \<Rightarrow> Some (Inl e, w')
      | Some (Inr v, w') \<Rightarrow> f v w')"

definition subprocess_run_blocking :: "penv \<Rightarrow> pyval list \<Rightarrow> bool \<Rightarrow> unit waiting" where
  "subprocess_run_blocking penv args check w =
     (if list_all is_PyStr args
      then case penv (log w) (cwd w) (map str_of args) of
             None \<Rightarrow> None
           | Some out \<Rightarrow> Some (run_child (\<lambda>h d c. out) (map str_of args) check w)
      else Some (Inl TypeError, w))"

fun for_iter_blocking :: "('a \<Rightarrow> unit waiting) \<Rightarrow> 'a iterator \<Rightarrow> 'a iterator waiting" where
  "for_iter_blocking body (Iterator []) = returns (return_exec (Iterator []))"
| "for_iter_blocking body (Iterator (x # xs)) =
     bind_blocking (body x) (\<lambda>_. for_iter_blocking body (Iterator xs))"

definition combinate_body_blocking ::
  "penv \<Rightarrow> pyval args \<Rightarrow> string \<Rightarrow> int list \<Rightarrow> unit waiting" where
  "combinate_body_blocking penv a_args format combo =
     bind_blocking (returns (lift_result (af_of combo)))
       (\<lambda>af. subprocess_run_blocking penv (command a_args format af) True)"

fun combinate_formats_blocking ::
  "penv \<Rightarrow> pyval args \<Rightarrow> string list \<Rightarrow> int list iterator \<Rightarrow> unit waiting" where
  "combinate_formats_blocking penv a_args [] combinations_it = returns (return_exec ())"
| "combinate_formats_blocking penv a_args (format # formats) combinations_it =
     bind_blocking (for_iter_blocking (combinate_body_blocking penv a_args format) combinations_it)
       (\<lambda>combinations_it. combinate_formats_blocking penv a_args formats combinations_it)"

definition combinate_blocking :: "penv \<Rightarrow> pyval args \<Rightarrow> unit waiting" where
  "combinate_blocking penv a_args =
     (let combinations_it = powerset (map flag_value members);
          formats = [''tes4'', ''tes5'', ''sse'']
      in combinate_formats_blocking penv a_args formats combinations_it)"

definition main_blocking :: "penv \<Rightarrow> path \<Rightarrow> string list \<Rightarrow> unit waiting" where
  "main_blocking penv file argv =
     bind_blocking (returns (lift_result (parse_arguments argv))) (\<lambda>args.
     bind_blocking (returns (os_chdir (Absolute (dirname file)))) (\<lambda>_.
     (let out = ''bin''
      in bind_blocking (returns (os_makedirs out True)) (\<lambda>_.
         bind_blocking (returns (os_chdir (Relative [out]))) (\<lambda>_.
         combinate_blocking penv args)))))"

definition script_blocking :: "penv \<Rightarrow> path \<Rightarrow> string list \<Rightarrow> world \<Rightarrow> (int \<times> world) option" where
  "script_blocking penv file argv w =
     map_option (\<lambda>(r, w'). (exit_status r, w')) (main_blocking penv file argv w)"

section \<open>When every child exits\<close>

lemma run_child_const:
  "env (log w) (cwd w) cmd = out \<Longrightarrow>
     run_child (\<lambda>h d c. out) cmd check w = run_child env cmd check w"
  by (simp add: run_child_def)

lemma run_all_blocking_total:
  assumes "\<And>h d c. penv h d c = Some (env h d c)"
  shows "run_all_blocking penv cmds w = Some (run_all env cmds w)"
proof (induction cmds arbitrary: w)
  case Nil
  then show ?case by simp
next
  case (Cons cmd cmds)
  have "run_child (\<lambda>h d c. env (log w) (cwd w) cmd) cmd True w = run_child env cmd True w"
    by (rule run_child_const) simp
  with Cons show ?case
    by (simp add: assms run_all_Cons bind_exec_def split: prod.splits sum.splits)
qed

section \<open>When a child does not exit\<close>

lemma run_child_Exited_0:
  "run_child (\<lambda>h d c. Exited 0) cmd True w
     = (Inr (), w\<lparr>log := log w @ [succeeded (cwd w) cmd]\<rparr>)"
  by (simp add: run_child_def succeeded_def)

lemma run_child_not_0:
  "out \<noteq> Exited 0 \<Longrightarrow> \<exists>e w'. run_child (\<lambda>h d c. out) cmd True w = (Inl e, w')"
  by (cases out) (auto simp: run_child_def)

lemma answered_ok_Cons_iff:
  "(\<exists>cs. cmd # cmds = map call_args cs @ x # rest \<and> answered_ok penv d h cs \<and>
          penv (h @ cs) d x = None) \<longleftrightarrow>
   (x = cmd \<and> rest = cmds \<and> penv h d cmd = None) \<or>
   (penv h d cmd = Some (Exited 0) \<and>
    (\<exists>cs. cmds = map call_args cs @ x # rest \<and>
          answered_ok penv d (h @ [succeeded d cmd]) cs \<and>
          penv (h @ [succeeded d cmd] @ cs) d x = None))"
  (is "?L \<longleftrightarrow> ?A \<or> ?B")
proof
  assume ?L
  then obtain cs where cs: "cmd # cmds = map call_args cs @ x # rest"
    "answered_ok penv d h cs" "penv (h @ cs) d x = None"
    by blast
  show "?A \<or> ?B"
  proof (cases cs)
    case Nil
    with cs show ?thesis by simp
  next
    case (Cons c cs')
    with cs have "c = succeeded d cmd" by simp
    with cs Cons have ?B by auto
    then show ?thesis ..
  qed
next
  assume "?A \<or> ?B"
  then show ?L
  proof
    assume ?A
    then have "cmd # cmds = map call_args [] @ x # rest \<and> answered_ok penv d h [] \<and>
        penv (h @ []) d x = None"
      by simp
    then show ?L by (rule exI)
  next
    assume ?B
    then obtain cs where "cmds = map call_args cs @ x # rest"
      "answered_ok penv d (h @ [succeeded d cmd]) cs"
      "penv (h @ [succeeded d cmd] @ cs) d x = None" "penv h d cmd = Some (Exited 0)"
      by blast
    then have "cmd # cmds = map call_args (succeeded d cmd # cs) @ x # rest \<and>
        answered_ok penv d h (succeeded d cmd # cs) \<and>
        penv (h @ succeeded d cmd # cs) d x = None"
      by (simp add: succeeded_def)
    then show ?L by (rule exI)
  qed
qed

lemma run_all_blocking_None_iff:
  "run_all_blocking penv cmds w = None \<longleftrightarrow>
     (\<exists>x rest cs. cmds = map call_args cs @ x # rest \<and>
        answered_ok penv (cwd w) (log w) cs \<and> penv (log w @ cs) (cwd w) x = None)"
proof (induction cmds arbitrary: w)
  case Nil
  then show ?case by simp
next
  case (Cons cmd cmds)
  show ?case
  proof (cases "penv (log w) (cwd w) cmd")
    case None
    then show ?thesis by (simp only: answered_ok_Cons_iff) auto
  next
    case (Some out)
    show ?thesis
    proof (cases "out = Exited 0")
      case True
      with Some Cons.IH [of "w\<lparr>log := log w @ [succeeded (cwd w) cmd]\<rparr>"] show ?thesis
        by (simp only: answered_ok_Cons_iff) (simp add: run_child_Exited_0)
    next
      case False
      then obtain e w' where "run_child (\<lambda>h d c. out) cmd True w = (Inl e, w')"
        using run_child_not_0 by blast
      with Some False show ?thesis
        by (simp only: answered_ok_Cons_iff) simp
    qed
  qed
qed

lemma answered_ok_length:
  "cmds = map call_args cs @ x # rest \<Longrightarrow> length cs < length cmds"
  by simp

section \<open>The code is the run of the job list\<close>

lemma bind_blocking_returns:
  "bind_blocking (returns m) f w =
     (case m w of (Inl e, w') \<Rightarrow> Some (Inl e, w') | (Inr v, w') \<Rightarrow> f v w')"
  by (simp add: bind_blocking_def returns_def split: prod.splits sum.splits)

lemma combinate_body_blocking_untyped:
  "combinate_body_blocking penv (untyped a) format combo w =
     (case penv (log w) (cwd w) (command_line a format (flag_union combo)) of
        None \<Rightarrow> None
      | Some out \<Rightarrow> Some (run_child (\<lambda>h d c. out) (command_line a format (flag_union combo)) True w))"
  by (simp add: combinate_body_blocking_def bind_blocking_returns af_of_flag_union
        subprocess_run_blocking_def command_untyped list_all_iff comp_def
        cong: option.case_cong)

lemma combinate_body_blocking_other:
  "\<not> is_PyStr (bsarch ns) \<or> \<not> is_PyStr (directory ns) \<Longrightarrow>
     combinate_body_blocking penv ns format combo w = Some (Inl TypeError, w)"
  by (simp add: combinate_body_blocking_def bind_blocking_returns af_of_flag_union
        subprocess_run_blocking_def command_not_strings)

lemma for_iter_blocking_run_all:
  "for_iter_blocking (combinate_body_blocking penv (untyped a) format) (Iterator combos) w =
     map_option (\<lambda>(r, w'). (map_sum id (\<lambda>_. Iterator []) r, w'))
       (run_all_blocking penv (map (\<lambda>combo. command_line a format (flag_union combo)) combos) w)"
proof (induction combos arbitrary: w)
  case Nil
  then show ?case by (simp add: returns_def)
next
  case (Cons combo combos)
  then show ?case
    by (simp add: bind_blocking_def combinate_body_blocking_untyped
          split: option.splits prod.splits sum.splits)
qed

lemma combinate_formats_blocking_exhausted:
  "combinate_formats_blocking penv ns formats (Iterator []) w = Some (Inr (), w)"
  by (induction formats) (simp_all add: returns_def bind_blocking_def)

lemma combinate_formats_blocking_Cons:
  "combinate_formats_blocking penv (untyped a) (format # formats) (Iterator combos) w =
     run_all_blocking penv (map (\<lambda>combo. command_line a format (flag_union combo)) combos) w"
proof (cases "run_all_blocking penv (map (\<lambda>combo. command_line a format (flag_union combo)) combos) w")
  case None
  then show ?thesis
    by (simp add: bind_blocking_def for_iter_blocking_run_all)
next
  case (Some rw)
  then show ?thesis
    by (cases rw; cases "fst rw")
      (simp_all add: bind_blocking_def for_iter_blocking_run_all
        combinate_formats_blocking_exhausted)
qed

lemma combinate_blocking_eq:
  "combinate_blocking penv ns w =
     (if is_PyStr (bsarch ns) \<and> is_PyStr (directory ns)
      then run_all_blocking penv
             (executed \<lparr>bsarch = str_of (bsarch ns), directory = str_of (directory ns)\<rparr>) w
      else Some (Inl TypeError, w))"
proof (cases ns rule: args_cases)
  case (strings a)
  have "combinate_blocking penv (untyped a) w = run_all_blocking penv (executed a) w"
    using combinate_formats_blocking_Cons
      [of penv a "''tes4''" "[''tes5'', ''sse'']" "pending (powerset (map flag_value members))" w]
    by (simp add: combinate_blocking_def Let_def executed_def flag_combinations_def comp_def
          del: combinate_formats_blocking.simps)
  with strings show ?thesis by (cases a) (simp add: untyped_def)
next
  case other
  have "length (pending (powerset (map flag_value members))) \<noteq> 0"
    by (simp only: length_powerset) simp
  then obtain combo combos where "powerset (map flag_value members) = Iterator (combo # combos)"
    by (cases "powerset (map flag_value members)")
      (auto simp: neq_Nil_conv)
  with other show ?thesis
    by (auto simp: combinate_blocking_def bind_blocking_def combinate_body_blocking_other)
qed

lemma main_blocking_eq:
  "main_blocking penv file argv w =
     (case parse_arguments argv of
        Inl e \<Rightarrow> Some (Inl e, w)
      | Inr ns \<Rightarrow>
          (case prepare file w of
             (Inl e, w1) \<Rightarrow> Some (Inl e, w1)
           | (Inr u, w1) \<Rightarrow> combinate_blocking penv ns w1))"
  by (simp add: main_blocking_def bind_blocking_returns prepare_def bind_exec_def Let_def
        split: prod.splits sum.splits)

section \<open>The whole script\<close>

lemma combinate_blocking_untyped [simp]:
  "combinate_blocking penv (untyped a) w = run_all_blocking penv (executed a) w"
  by (cases a) (simp add: combinate_blocking_eq untyped_def)

lemma combinate_blocking_other:
  "\<not> is_PyStr (bsarch ns) \<or> \<not> is_PyStr (directory ns) \<Longrightarrow>
     combinate_blocking penv ns w = Some (Inl TypeError, w)"
  by (auto simp: combinate_blocking_eq)

lemma combinate_blocking_answered:
  assumes "\<And>h d c. penv h d c = Some (env h d c)"
  shows "combinate_blocking penv ns w = Some (combinate env ns w)"
proof (cases ns rule: args_cases)
  case (strings a)
  with run_all_blocking_total [of penv env "executed a" w, OF assms] show ?thesis
    by (simp add: combinate_run_all)
next
  case other
  then show ?thesis by (simp add: combinate_blocking_other combinate_TypeError)
qed

lemma main_blocking_answered:
  assumes "\<And>h d c. penv h d c = Some (env h d c)"
  shows "main_blocking penv file argv w = Some (main env file argv w)"
  by (simp add: main_blocking_eq main_eq combinate_blocking_answered [OF assms]
           split: sum.splits prod.splits)

lemma main_blocking_None_iff:
  "main_blocking penv file argv w = None \<longleftrightarrow>
     (\<exists>a. parse_arguments argv = Inr (untyped a) \<and>
          lookup w (dirname file) = Some Dir \<and> lookup w (bin_dir file) \<noteq> Some File \<and>
          run_all_blocking penv (executed a) (prepared file w) = None)"
proof (cases "parse_arguments argv")
  case (Inl e)
  then show ?thesis by (simp add: main_blocking_eq)
next
  case (Inr ns)
  show ?thesis
  proof (cases ns rule: args_cases)
    case (strings a)
    with Inr show ?thesis
      by (auto simp: main_blocking_eq prepare_eq split: option.splits node.splits)
  next
    case other
    then have "ns \<noteq> untyped a" for a by auto
    with Inr other show ?thesis
      by (auto simp: main_blocking_eq combinate_blocking_other split: prod.splits sum.splits)
  qed
qed

section \<open>Properties\<close>

text \<open>
  C26. If every child process exits, the code with children that may not
  exit is \<open>combinate\<close>: it has a result, and the result and the world are
  those of \<open>combinate\<close> in the environment of the answers, whatever the
  namespace holds; and so is the run of the sixteen jobs one after the other.
\<close>

theorem combinate_blocking_total:
  assumes "\<And>h d c. penv h d c = Some (env h d c)"
  shows "combinate_blocking penv ns w = Some (combinate env ns w) \<and>
         run_all_blocking penv (executed a) w = Some (combinate env (untyped a) w)"
  using run_all_blocking_total [of penv env "executed a" w, OF assms]
    combinate_blocking_answered [of penv env ns w, OF assms]
  by (simp only: combinate_run_all simp_thms)

theorem combinate_blocking_total_witness:
  "combinate_blocking (\<lambda>h d c. Some (Exited 0)) (untyped \<lparr>bsarch = ''b'', directory = ''d''\<rparr>)
     \<lparr>cwd = [''bin''], fs = [], log = []\<rparr>
   = Some (combinate (\<lambda>h d c. Exited 0) (untyped \<lparr>bsarch = ''b'', directory = ''d''\<rparr>)
       \<lparr>cwd = [''bin''], fs = [], log = []\<rparr>) \<and>
   run_all_blocking (\<lambda>h d c. Some (Exited 0)) (executed \<lparr>bsarch = ''b'', directory = ''d''\<rparr>)
     \<lparr>cwd = [''bin''], fs = [], log = []\<rparr>
   = Some (combinate (\<lambda>h d c. Exited 0) (untyped \<lparr>bsarch = ''b'', directory = ''d''\<rparr>)
       \<lparr>cwd = [''bin''], fs = [], log = []\<rparr>)"
  by (rule combinate_blocking_total) simp

text \<open>
  The run of the jobs waits for ever exactly when it reaches a child process
  that never exits, and it reaches the child of a job exactly when the children
  of all jobs before it, in the order of the run, have exited with 0. That
  child is one of the sixteen of the run; a child that fails ends the run
  instead, and the jobs after it are never waited for.
\<close>

theorem combinate_blocks_iff:
  "run_all_blocking penv (executed a) w = None \<longleftrightarrow>
     (\<exists>x rest cs. executed a = map call_args cs @ x # rest \<and> length cs < 16 \<and>
        answered_ok penv (cwd w) (log w) cs \<and> penv (log w @ cs) (cwd w) x = None)"
proof -
  have "length cs < 16" if "executed a = map call_args cs @ x # rest" for cs x rest
    using answered_ok_length [OF that] by (simp add: length_executed)
  then show ?thesis
    by (simp only: run_all_blocking_None_iff) blast
qed

text \<open>
  C25. The whole script with child processes that may never exit. If every
  child exits, the script ends as \<open>script\<close> says. It waits for ever exactly
  when the command line has two strings, the directory of the script exists,
  nothing but a directory is at \<^verbatim>\<open>bin\<close>, and the run of the jobs in \<^verbatim>\<open>bin\<close>
  reaches a child that never exits after children that all exited with 0.
  The parser and the preparation of \<^verbatim>\<open>bin\<close> never wait.
\<close>

theorem script_blocks_iff:
  "((\<forall>h d c. penv h d c = Some (env h d c)) \<longrightarrow>
      script_blocking penv file argv w = Some (script env file argv w)) \<and>
   (script_blocking penv file argv w = None \<longleftrightarrow>
      (\<exists>a. parse_arguments argv = Inr (untyped a) \<and>
           lookup w (dirname file) = Some Dir \<and> lookup w (bin_dir file) \<noteq> Some File \<and>
           (\<exists>x rest cs. executed a = map call_args cs @ x # rest \<and> length cs < 16 \<and>
              answered_ok penv (bin_dir file) (log w) cs \<and>
              penv (log w @ cs) (bin_dir file) x = None)))"
proof (intro conjI impI)
  assume "\<forall>h d c. penv h d c = Some (env h d c)"
  then show "script_blocking penv file argv w = Some (script env file argv w)"
    by (simp add: script_blocking_def script_def main_blocking_answered)
next
  have "length cs < 16" if "executed a = map call_args cs @ x # rest" for a cs x rest
    using answered_ok_length [OF that] by (simp add: length_executed)
  then show "script_blocking penv file argv w = None \<longleftrightarrow>
      (\<exists>a. parse_arguments argv = Inr (untyped a) \<and>
           lookup w (dirname file) = Some Dir \<and> lookup w (bin_dir file) \<noteq> Some File \<and>
           (\<exists>x rest cs. executed a = map call_args cs @ x # rest \<and> length cs < 16 \<and>
              answered_ok penv (bin_dir file) (log w) cs \<and>
              penv (log w @ cs) (bin_dir file) x = None))"
    by (simp add: script_blocking_def main_blocking_None_iff run_all_blocking_None_iff) blast
qed

theorem script_blocks_iff_witness:
  "script_blocking (\<lambda>h d c. if length h = 2 then None else Some (Exited 0)) [''t'', ''p.py'']
     [''b'', ''d''] \<lparr>cwd = [], fs = [([], Dir), ([''t''], Dir)], log = []\<rparr> = None \<and>
   script_blocking (\<lambda>h d c. if length h = 2 then None else Some (Exited 0)) [''t'', ''p.py'']
     [''b'', ''-h''] \<lparr>cwd = [], fs = [([], Dir), ([''t''], Dir)], log = []\<rparr>
   = Some (0, \<lparr>cwd = [], fs = [([], Dir), ([''t''], Dir)], log = []\<rparr>)"
proof -
  let ?penv = "\<lambda>(h :: call list) (d :: path) (c :: string list).
                 if length h = 2 then None else Some (Exited 0)"
  let ?a = "\<lparr>bsarch = ''b'', directory = ''d''\<rparr>"
  let ?w = "\<lparr>cwd = [], fs = [([], Dir), ([''t''], Dir)], log = []\<rparr>"
  let ?cs = "map (succeeded [''t'', ''bin'']) (take 2 (executed ?a))"
  have "executed ?a = map call_args ?cs @ (executed ?a ! 2) # drop 3 (executed ?a)"
    by (simp add: executed_def flag_combinations_eq succeeded_def)
  moreover have "answered_ok ?penv [''t'', ''bin''] [] ?cs"
    by (simp add: executed_def flag_combinations_eq succeeded_def)
  moreover have "parse_arguments [''b'', ''d''] = Inr (untyped ?a)"
    by (simp add: parse_arguments_two dashed_def)
  ultimately have "\<exists>a. parse_arguments [''b'', ''d''] = Inr (untyped a) \<and>
           lookup ?w (dirname [''t'', ''p.py'']) = Some Dir \<and>
           lookup ?w (bin_dir [''t'', ''p.py'']) \<noteq> Some File \<and>
           (\<exists>x rest cs. executed a = map call_args cs @ x # rest \<and> length cs < 16 \<and>
              answered_ok ?penv (bin_dir [''t'', ''p.py'']) (log ?w) cs \<and>
              ?penv (log ?w @ cs) (bin_dir [''t'', ''p.py'']) x = None)"
    by (intro exI [of _ ?a] exI [of _ "executed ?a ! 2"] exI [of _ "drop 3 (executed ?a)"]
          exI [of _ ?cs] conjI)
       (simp_all add: lookup_def dirname_def bin_dir_def length_executed)
  with script_blocks_iff [of ?penv "\<lambda>h d c. Exited 0" "[''t'', ''p.py'']" "[''b'', ''d'']" ?w]
  have "script_blocking ?penv [''t'', ''p.py''] [''b'', ''d''] ?w = None" by blast
  moreover have "script_blocking ?penv [''t'', ''p.py''] [''b'', ''-h''] ?w = Some (0, ?w)"
    by (simp add: script_blocking_def main_blocking_eq parse_arguments_decisive [where j = Shows_help]
          judge_def decisive_def)
  ultimately show ?thesis by blast
qed

end
