(* ===== verification/Pack_Paths.thy ===== *)
theory Pack_Paths
  imports Pack_Main
begin

text \<open>
  Paths as the strings that \<^verbatim>\<open>tes4_pack.py\<close> passes to the library.

  \<^item> The string methods that the path functions use (\<open>str_rfind\<close>,
    \<open>str_rstrip\<close>, \<open>str_split\<close>, \<open>str_join\<close>, \<open>str_partition\<close>).
  \<^item> The functions of \<^verbatim>\<open>posixpath.py\<close> of CPython 3.11 that line 40 calls and
    the ones they call: \<open>path_isabs\<close>, \<open>path_join\<close>, \<open>path_split\<close>,
    \<open>path_dirname\<close>, \<open>path_normpath\<close>, \<open>path_abspath\<close>, \<open>joinrealpath\<close> and
    \<open>path_realpath\<close>, with \<open>path_exists\<close> and \<open>path_isdir\<close> for
    \<^verbatim>\<open>os.makedirs\<close>.
  \<^item> The system calls on path strings: \<open>namei\<close> is the resolution of a path,
    one name after the other, with \<^verbatim>\<open>.\<close> and \<^verbatim>\<open>..\<close>; \<open>posix_stat\<close>,
    \<open>posix_getcwd\<close>, \<open>posix_chdir\<close> and \<open>posix_mkdir\<close> are built on it.
  \<^item> \<open>makedirs\<close> is \<^verbatim>\<open>os.makedirs\<close> of \<^verbatim>\<open>os.py\<close> for any path string.
  \<^item> \<open>main_posix\<close> and \<open>script_posix\<close> are \<^verbatim>\<open>main\<close> and the script over these:
    their parameter \<open>file\<close> is the string \<^verbatim>\<open>__file__\<close>.

  There are no symbolic links in the file system of the model, so
  \<open>joinrealpath\<close> never follows one. \<open>render\<close> writes a list of components as
  an absolute path string, \<open>location\<close> is the list that \<^verbatim>\<open>realpath\<close> leads to.

  The lemmas show that \<open>path_realpath\<close> returns \<open>render\<close> of \<open>location\<close>, that
  on rendered paths the functions on strings are the functions on component
  lists of \<open>Pack_World\<close>, and that \<open>main_posix\<close> is \<open>main\<close> at the location of
  the script.
\<close>

section \<open>Methods of str\<close>

definition sep :: char where
  "sep = CHR ''/''"

definition str_rfind :: "string \<Rightarrow> char \<Rightarrow> int" where
  "str_rfind s c = int (length (dropWhile (\<lambda>x. x \<noteq> c) (rev s))) - 1"

definition str_rstrip :: "string \<Rightarrow> char \<Rightarrow> string" where
  "str_rstrip s c = rev (dropWhile (\<lambda>x. x = c) (rev s))"

fun str_split :: "string \<Rightarrow> char \<Rightarrow> string list" where
  "str_split [] c = [[]]"
| "str_split (x # xs) c =
     (if x = c then [] # str_split xs c
      else case str_split xs c of [] \<Rightarrow> [[x]] | y # ys \<Rightarrow> (x # y) # ys)"

fun str_join :: "char \<Rightarrow> string list \<Rightarrow> string" where
  "str_join c [] = []"
| "str_join c [x] = x"
| "str_join c (x # y # ys) = x @ c # str_join c (y # ys)"

definition str_partition :: "string \<Rightarrow> char \<Rightarrow> string \<times> string" where
  "str_partition s c = (takeWhile (\<lambda>x. x \<noteq> c) s, drop 1 (dropWhile (\<lambda>x. x \<noteq> c) s))"

section \<open>posixpath: functions on strings\<close>

definition path_isabs :: "string \<Rightarrow> bool" where
  "path_isabs s \<longleftrightarrow> take 1 s = [sep]"

definition join_part :: "string \<Rightarrow> string \<Rightarrow> string" where
  "join_part path b =
     (if path_isabs b then b
      else if path = [] \<or> last path = sep then path @ b
      else path @ sep # b)"

definition path_join :: "string \<Rightarrow> string list \<Rightarrow> string" where
  "path_join a p = foldl join_part a p"

definition path_split :: "string \<Rightarrow> string \<times> string" where
  "path_split p =
     (let i = nat (str_rfind p sep + 1);
          head = take i p;
          tail = drop i p
      in (if head \<noteq> [] \<and> head \<noteq> replicate (length head) sep then str_rstrip head sep else head,
          tail))"

definition path_dirname :: "string \<Rightarrow> string" where
  "path_dirname p =
     (let i = nat (str_rfind p sep + 1);
          head = take i p
      in if head \<noteq> [] \<and> head \<noteq> replicate (length head) sep then str_rstrip head sep else head)"

definition norm_part :: "nat \<Rightarrow> string list \<Rightarrow> string \<Rightarrow> string list" where
  "norm_part initial_slashes new_comps part =
     (if part = [] \<or> part = ''.'' then new_comps
      else if part \<noteq> ''..'' \<or> (initial_slashes = 0 \<and> new_comps = []) \<or>
              (new_comps \<noteq> [] \<and> last new_comps = ''..'')
           then new_comps @ [part]
      else if new_comps \<noteq> [] then butlast new_comps
      else new_comps)"

definition path_normpath :: "string \<Rightarrow> string" where
  "path_normpath path =
     (if path = [] then ''.''
      else
        let initial_slashes =
              (if path_isabs path
               then if take 2 path = [sep, sep] \<and> take 3 path \<noteq> [sep, sep, sep] then 2 else 1
               else 0);
            comps = foldl (norm_part initial_slashes) [] (str_split path sep);
            joined = replicate initial_slashes sep @ str_join sep comps
        in if joined = [] then ''.'' else joined)"

function joinrealpath_loop :: "string \<Rightarrow> string \<Rightarrow> string" where
  "joinrealpath_loop path rest =
     (if rest = [] then path
      else
        let name = fst (str_partition rest sep);
            rest' = snd (str_partition rest sep)
        in if name = [] \<or> name = ''.'' then joinrealpath_loop path rest'
           else if name = ''..'' then
             (if path \<noteq> [] then
                (if snd (path_split path) = ''..''
                 then joinrealpath_loop (path_join (fst (path_split path)) [''..'', ''..'']) rest'
                 else joinrealpath_loop (fst (path_split path)) rest')
              else joinrealpath_loop ''..'' rest')
           else joinrealpath_loop (path_join path [name]) rest')"
  by pat_completeness auto
termination
proof -
  have shorter: "length (snd (str_partition rest sep)) < length rest" if "rest \<noteq> []" for rest
    using that length_dropWhile_le [of "\<lambda>x. x \<noteq> sep" rest]
    by (cases rest) (auto simp: str_partition_def)
  show ?thesis
    by (relation "measure (\<lambda>(path, rest). length rest)") (auto simp: shorter case_prod_beta)
qed

declare joinrealpath_loop.simps [simp del]

definition joinrealpath :: "string \<Rightarrow> string \<Rightarrow> string" where
  "joinrealpath path rest =
     (if path_isabs rest then joinrealpath_loop [sep] (drop 1 rest)
      else joinrealpath_loop path rest)"

section \<open>System calls on path strings\<close>

definition render :: "path \<Rightarrow> string" where
  "render p = sep # str_join sep p"

fun namei :: "world \<Rightarrow> path \<Rightarrow> string list \<Rightarrow> os_error + path" where
  "namei w cur [] = Inr cur"
| "namei w cur (name # names) =
     (case lookup w cur of
        None \<Rightarrow> Inl FileNotFoundError
      | Some File \<Rightarrow> Inl NotADirectoryError
      | Some Dir \<Rightarrow>
          if name = [] \<or> name = ''.'' then namei w cur names
          else if name = ''..'' then namei w (butlast cur) names
          else namei w (cur @ [name]) names)"

definition start_dir :: "world \<Rightarrow> string \<Rightarrow> path" where
  "start_dir w s = (if path_isabs s then [] else cwd w)"

definition stat_from :: "world \<Rightarrow> path \<Rightarrow> string list \<Rightarrow> os_error + path \<times> node" where
  "stat_from w cur names =
     (case namei w cur names of
        Inl e \<Rightarrow> Inl e
      | Inr p \<Rightarrow> (case lookup w p of None \<Rightarrow> Inl FileNotFoundError | Some n \<Rightarrow> Inr (p, n)))"

definition posix_stat :: "string \<Rightarrow> world \<Rightarrow> os_error + path \<times> node" where
  "posix_stat s w =
     (if s = [] then Inl FileNotFoundError else stat_from w (start_dir w s) (str_split s sep))"

definition path_exists :: "string \<Rightarrow> world \<Rightarrow> bool" where
  "path_exists s w \<longleftrightarrow> (case posix_stat s w of Inl e \<Rightarrow> False | Inr r \<Rightarrow> True)"

definition path_isdir :: "string \<Rightarrow> world \<Rightarrow> bool" where
  "path_isdir s w \<longleftrightarrow> (case posix_stat s w of Inl e \<Rightarrow> False | Inr r \<Rightarrow> snd r = Dir)"

definition posix_getcwd :: "(string, world) exec" where
  "posix_getcwd w =
     (if lookup w (cwd w) = Some Dir then (Inr (render (cwd w)), w)
      else (Inl (OSError FileNotFoundError), w))"

definition posix_chdir :: "string \<Rightarrow> (unit, world) exec" where
  "posix_chdir s w =
     (case posix_stat s w of
        Inl e \<Rightarrow> (Inl (OSError e), w)
      | Inr (p, File) \<Rightarrow> (Inl (OSError NotADirectoryError), w)
      | Inr (p, Dir) \<Rightarrow> (Inr (), w\<lparr>cwd := p\<rparr>))"

definition posix_mkdir :: "string \<Rightarrow> (unit, world) exec" where
  "posix_mkdir s w =
     (let names = rev (dropWhile (\<lambda>n. n = []) (rev (str_split s sep)))
      in if s = [] then (Inl (OSError FileNotFoundError), w)
         else if names = [] then (Inl (OSError FileExistsError), w)
         else case namei w (start_dir w s) (butlast names) of
                Inl e \<Rightarrow> (Inl (OSError e), w)
              | Inr parent \<Rightarrow>
                  (case lookup w parent of
                     None \<Rightarrow> (Inl (OSError FileNotFoundError), w)
                   | Some File \<Rightarrow> (Inl (OSError NotADirectoryError), w)
                   | Some Dir \<Rightarrow>
                       if last names = ''.'' \<or> last names = ''..'' \<or>
                          lookup w (parent @ [last names]) \<noteq> None
                       then (Inl (OSError FileExistsError), w)
                       else (Inr (), w\<lparr>fs := fs w @ [(parent @ [last names], Dir)]\<rparr>)))"

section \<open>posixpath: functions that ask the system\<close>

definition path_abspath :: "string \<Rightarrow> (string, world) exec" where
  "path_abspath path =
     (if \<not> path_isabs path
      then bind_exec posix_getcwd (\<lambda>cwd. return_exec (path_normpath (path_join cwd [path])))
      else return_exec (path_normpath path))"

definition path_realpath :: "string \<Rightarrow> (string, world) exec" where
  "path_realpath filename = path_abspath (joinrealpath [] filename)"

section \<open>os.makedirs\<close>

definition head_tail :: "string \<Rightarrow> string \<times> string" where
  "head_tail name =
     (if snd (path_split name) = [] then path_split (fst (path_split name)) else path_split name)"

function makedirs :: "string \<Rightarrow> bool \<Rightarrow> (unit, world) exec" where
  "makedirs name exist_ok w =
     (let head = fst (head_tail name);
          tail = snd (head_tail name);
          mkdir = (\<lambda>w1. case posix_mkdir name w1 of
                     (Inl (OSError e), w2) \<Rightarrow>
                       if \<not> exist_ok \<or> \<not> path_isdir name w2 then (Inl (OSError e), w2)
                       else (Inr (), w2)
                   | (r, w2) \<Rightarrow> (r, w2))
      in if tail \<noteq> [] \<and> head \<noteq> [] \<and> \<not> path_exists head w
         then (case makedirs head exist_ok w of
                 (Inl (OSError FileExistsError), w1) \<Rightarrow> if tail = ''.'' then (Inr (), w1) else mkdir w1
               | (Inl e, w1) \<Rightarrow> (Inl e, w1)
               | (Inr u, w1) \<Rightarrow> if tail = ''.'' then (Inr (), w1) else mkdir w1)
         else mkdir w)"
  by pat_completeness auto
termination
proof -
  have split_le: "length (fst (path_split p)) + length (snd (path_split p)) \<le> length p" for p
  proof -
    define head where "head = take (nat (str_rfind p sep + 1)) p"
    have "length (str_rstrip head sep) \<le> length head"
      using length_dropWhile_le [of "\<lambda>x. x = sep" "rev head"] by (simp add: str_rstrip_def)
    moreover have "length head + length (drop (nat (str_rfind p sep + 1)) p) \<le> length p"
      by (simp add: head_def)
    ultimately show ?thesis
      by (simp add: path_split_def Let_def head_def [symmetric])
  qed
  have shorter: "length (fst (head_tail name)) < length name" if "snd (head_tail name) \<noteq> []" for name
    using that split_le [of name] split_le [of "fst (path_split name)"]
    by (auto simp: head_tail_def simp flip: length_greater_0_conv split: if_splits)
  show ?thesis
    by (relation "measure (\<lambda>(name, exist_ok, w). length name)") (auto simp: shorter)
qed

declare makedirs.simps [simp del]

section \<open>main over path strings\<close>

definition main_posix :: "env \<Rightarrow> string \<Rightarrow> string list \<Rightarrow> (unit, world) exec" where
  "main_posix env file argv =
     bind_exec (lift_result (parse_arguments argv)) (\<lambda>args.
     bind_exec (path_realpath file) (\<lambda>real.
     bind_exec (posix_chdir (path_dirname real)) (\<lambda>_.
     (let out = ''bin''
      in bind_exec (makedirs out True) (\<lambda>_.
         bind_exec (posix_chdir out) (\<lambda>_.
         combinate env args))))))"

definition script_posix :: "env \<Rightarrow> string \<Rightarrow> string list \<Rightarrow> world \<Rightarrow> int \<times> world" where
  "script_posix env file argv w =
     (case main_posix env file argv w of (r, w') \<Rightarrow> (exit_status r, w'))"

section \<open>Where a path leads\<close>

definition plain_name :: "string \<Rightarrow> bool" where
  "plain_name n \<longleftrightarrow> n \<noteq> [] \<and> sep \<notin> set n \<and> n \<noteq> ''.'' \<and> n \<noteq> ''..''"

definition plain_path :: "path \<Rightarrow> bool" where
  "plain_path p = list_all plain_name p"

definition enter :: "path \<Rightarrow> string \<Rightarrow> path" where
  "enter p n = (if n = [] \<or> n = ''.'' then p else if n = ''..'' then butlast p else p @ [n])"

definition location :: "world \<Rightarrow> string \<Rightarrow> path" where
  "location w s = foldl enter (start_dir w s) (str_split s sep)"

definition prepare_posix :: "string \<Rightarrow> (unit, world) exec" where
  "prepare_posix file =
     bind_exec (path_realpath file) (\<lambda>real.
     bind_exec (posix_chdir (path_dirname real)) (\<lambda>_.
     bind_exec (makedirs ''bin'' True) (\<lambda>_. posix_chdir ''bin'')))"

section \<open>Notions for the proofs\<close>

definition named :: "string \<Rightarrow> bool" where
  "named n \<longleftrightarrow> n \<noteq> [] \<and> sep \<notin> set n"

definition real_part :: "string \<Rightarrow> string \<Rightarrow> string" where
  "real_part path name =
     (if name = [] \<or> name = ''.'' then path
      else if name = ''..'' then
        (if path \<noteq> [] then
           (if snd (path_split path) = ''..'' then path_join (fst (path_split path)) [''..'', ''..'']
            else fst (path_split path))
         else ''..'')
      else path_join path [name])"

definition relative :: "nat \<Rightarrow> path \<Rightarrow> string" where
  "relative k p = str_join sep (replicate k ''..'' @ p)"

definition climb :: "nat \<times> path \<Rightarrow> string \<Rightarrow> nat \<times> path" where
  "climb kp n =
     (if n = [] \<or> n = ''.'' then kp
      else if n = ''..'' then (if snd kp = [] then (Suc (fst kp), []) else (fst kp, butlast (snd kp)))
      else (fst kp, snd kp @ [n]))"

section \<open>Splitting and joining strings\<close>

lemma str_split_not_Nil [simp]: "str_split s c \<noteq> []"
  by (induction s) (auto split: list.splits)

lemma str_split_absent: "c \<notin> set s \<Longrightarrow> str_split s c = [s]"
  by (induction s) auto

lemma str_split_append:
  "c \<notin> set x \<Longrightarrow> str_split (x @ c # s) c = x # str_split s c"
  by (induction x) auto

lemma str_split_parts: "x \<in> set (str_split s c) \<Longrightarrow> c \<notin> set x"
  by (induction s arbitrary: x) (auto split: if_splits list.splits)

lemma str_join_Cons: "xs \<noteq> [] \<Longrightarrow> str_join c (x # xs) = x @ c # str_join c xs"
  by (cases xs) simp_all

lemma str_join_snoc: "xs \<noteq> [] \<Longrightarrow> str_join c (xs @ [x]) = str_join c xs @ c # x"
  by (induction c xs rule: str_join.induct) (auto simp: str_join_Cons)

lemma str_join_append:
  "xs \<noteq> [] \<Longrightarrow> ys \<noteq> [] \<Longrightarrow> str_join c (xs @ ys) = str_join c xs @ c # str_join c ys"
  by (induction c xs rule: str_join.induct) (auto simp: str_join_Cons)

lemma str_split_join:
  "xs \<noteq> [] \<Longrightarrow> (\<And>x. x \<in> set xs \<Longrightarrow> c \<notin> set x) \<Longrightarrow> str_split (str_join c xs) c = xs"
  by (induction c xs rule: str_join.induct) (auto simp: str_split_absent str_split_append)

lemma str_join_Cons_Cons: "str_join c ((x # y) # ys) = x # str_join c (y # ys)"
  by (cases ys) simp_all

lemma str_join_split: "str_join c (str_split s c) = s"
proof (induction s)
  case Nil
  then show ?case by simp
next
  case (Cons x s)
  then show ?case
    by (cases "str_split s c") (auto simp: str_join_Cons str_join_Cons_Cons)
qed

lemma str_partition_append: "c \<notin> set x \<Longrightarrow> str_partition (x @ c # s) c = (x, s)"
  by (induction x) (auto simp: str_partition_def)

lemma str_partition_absent: "c \<notin> set s \<Longrightarrow> str_partition s c = (s, [])"
  by (induction s) (auto simp: str_partition_def)

lemma str_split_partition:
  "str_split s c =
     fst (str_partition s c) # (if c \<in> set s then str_split (snd (str_partition s c)) c else [])"
proof (cases "c \<in> set s")
  case True
  then obtain x t where "s = x @ c # t" and "c \<notin> set x"
    by (auto dest: split_list_first)
  then show ?thesis by (simp add: str_split_append str_partition_append)
next
  case False
  then show ?thesis by (simp add: str_split_absent str_partition_absent)
qed

section \<open>Names\<close>

lemma plain_name_named: "plain_name n \<Longrightarrow> named n"
  by (simp add: plain_name_def named_def)

lemma plain_path_named: "plain_path p \<Longrightarrow> list_all named p"
  by (auto simp: plain_path_def list_all_iff plain_name_named)

lemma named_pardir [simp]: "named ''..''"
  by (simp add: named_def sep_def)

lemma plain_path_simps [simp]:
  "plain_path []"
  "plain_path (p @ q) \<longleftrightarrow> plain_path p \<and> plain_path q"
  "plain_path (n # p) \<longleftrightarrow> plain_name n \<and> plain_path p"
  by (simp_all add: plain_path_def)

lemma plain_path_butlast: "plain_path p \<Longrightarrow> plain_path (butlast p)"
  by (auto simp: plain_path_def list_all_iff dest: in_set_butlastD)

lemma plain_path_last: "plain_path p \<Longrightarrow> p \<noteq> [] \<Longrightarrow> plain_name (last p)"
  by (simp add: plain_path_def list_all_iff)

lemma str_join_named:
  assumes "list_all named xs" and "xs \<noteq> []"
  shows "str_join sep xs \<noteq> []" and "last (str_join sep xs) \<noteq> sep" and "hd (str_join sep xs) \<noteq> sep"
  using assms
  by (induction sep xs rule: str_join.induct)
     (auto simp: named_def str_join_Cons hd_append dest: last_in_set hd_in_set)

section \<open>Splitting and joining paths\<close>

lemma str_rfind_absent: "c \<notin> set t \<Longrightarrow> str_rfind t c = - 1"
  by (auto simp: str_rfind_def)

lemma dropWhile_absent:
  "c \<notin> set xs \<Longrightarrow> dropWhile (\<lambda>x. x \<noteq> c) (xs @ ys) = dropWhile (\<lambda>x. x \<noteq> c) ys"
  by (induction xs) auto

lemma str_rfind_append: "c \<notin> set t \<Longrightarrow> nat (str_rfind (h @ c # t) c + 1) = Suc (length h)"
  by (simp add: str_rfind_def dropWhile_absent)

lemma str_rstrip_last: "s \<noteq> [] \<Longrightarrow> last s \<noteq> c \<Longrightarrow> str_rstrip s c = s"
  by (cases s rule: rev_cases) (simp_all add: str_rstrip_def)

lemma str_rstrip_snoc [simp]: "str_rstrip (s @ [c]) c = str_rstrip s c"
  by (simp add: str_rstrip_def)

lemma path_split_name: "sep \<notin> set t \<Longrightarrow> path_split t = ([], t)"
  by (simp add: path_split_def str_rfind_absent)

lemma path_split_root: "sep \<notin> set t \<Longrightarrow> path_split (sep # t) = ([sep], t)"
  using str_rfind_append [of sep t "[]"] by (simp add: path_split_def)

lemma path_split_append:
  assumes "sep \<notin> set t" and "h \<noteq> []" and "last h \<noteq> sep"
  shows "path_split (h @ sep # t) = (h, t)"
proof -
  have "h @ [sep] \<noteq> replicate (Suc (length h)) sep"
  proof
    assume "h @ [sep] = replicate (Suc (length h)) sep"
    then have "set (h @ [sep]) = set (replicate (Suc (length h)) sep)"
      by (rule arg_cong)
    then have "set h \<subseteq> {sep}" by auto
    with assms(2,3) last_in_set [of h] show False by blast
  qed
  with assms show ?thesis
    by (simp add: path_split_def str_rfind_append Let_def str_rstrip_last)
qed

lemma path_dirname_split: "path_dirname p = fst (path_split p)"
  by (simp add: path_dirname_def path_split_def Let_def)

lemma path_split_join:
  assumes "list_all named xs" and "xs \<noteq> []"
  shows "path_split (str_join sep xs) = (str_join sep (butlast xs), last xs)"
proof (cases "butlast xs = []")
  case True
  with assms show ?thesis
    by (cases xs rule: rev_cases) (simp_all add: path_split_name named_def)
next
  case False
  from assms(2) obtain ys x where xs: "xs = ys @ [x]" by (cases xs rule: rev_cases) auto
  with False assms(1) have "ys \<noteq> []" and "list_all named ys" and "sep \<notin> set x"
    by (simp_all add: named_def)
  then show ?thesis
    by (simp add: xs str_join_snoc path_split_append str_join_named)
qed

lemma render_Nil [simp]: "render [] = [sep]"
  by (simp add: render_def)

lemma render_not_Nil [simp]: "render p \<noteq> []"
  by (simp add: render_def)

lemma render_snoc: "render (p @ [n]) = (if p = [] then sep # n else render p @ sep # n)"
  by (simp add: render_def str_join_snoc)

lemma last_render: "list_all named p \<Longrightarrow> p \<noteq> [] \<Longrightarrow> last (render p) \<noteq> sep"
  by (simp add: render_def str_join_named)

lemma path_isabs_render [simp]: "path_isabs (render p)"
  by (simp add: path_isabs_def render_def)

lemma path_isabs_named: "named n \<Longrightarrow> \<not> path_isabs n"
  by (cases n) (auto simp: path_isabs_def named_def)

lemma path_isabs_plain: "plain_name n \<Longrightarrow> \<not> path_isabs n"
  by (simp add: path_isabs_named plain_name_named)

lemma path_isabs_Cons [simp]: "path_isabs (c # s) \<longleftrightarrow> c = sep"
  by (simp add: path_isabs_def)

lemma path_split_render:
  assumes "list_all named p" and "p \<noteq> []"
  shows "path_split (render p) = (render (butlast p), last p)"
proof -
  from assms(2) obtain q n where p: "p = q @ [n]" by (cases p rule: rev_cases) auto
  with assms(1) have "sep \<notin> set n" and q: "list_all named q" by (simp_all add: named_def)
  then show ?thesis
    by (simp add: p render_snoc path_split_root path_split_append last_render)
qed

lemma path_split_slash [simp]: "path_split [sep] = ([sep], [])"
  using path_split_root [of "[]"] by simp

lemma join_part_render:
  assumes "named n" and "list_all named p"
  shows "join_part (render p) n = render (p @ [n])"
  using assms last_render [of p]
  by (auto simp: join_part_def path_isabs_named render_snoc)

lemma join_part_join:
  assumes "named n" and "list_all named xs"
  shows "join_part (str_join sep xs) n = str_join sep (xs @ [n])"
proof (cases "xs = []")
  case True
  with assms show ?thesis by (simp add: join_part_def path_isabs_named)
next
  case False
  with assms str_join_named [of xs] show ?thesis
    by (simp add: join_part_def path_isabs_named str_join_snoc)
qed

lemma path_dirname_render: "plain_path p \<Longrightarrow> path_dirname (render p) = render (butlast p)"
  by (cases "p = []") (simp_all add: path_dirname_split path_split_render plain_path_named)

section \<open>Entering one name after the other\<close>

lemma enter_simps [simp]:
  "enter p [] = p"
  "enter p ''.'' = p"
  "enter p ''..'' = butlast p"
  "plain_name n \<Longrightarrow> enter p n = p @ [n]"
  by (auto simp: enter_def plain_name_def)

lemma plain_path_enter: "plain_path p \<Longrightarrow> sep \<notin> set n \<Longrightarrow> plain_path (enter p n)"
  by (auto simp: enter_def plain_path_butlast plain_name_def)

lemma plain_path_foldl_enter:
  "plain_path p \<Longrightarrow> (\<And>n. n \<in> set ns \<Longrightarrow> sep \<notin> set n) \<Longrightarrow> plain_path (foldl enter p ns)"
  by (induction ns arbitrary: p) (simp_all add: plain_path_enter)

lemma foldl_enter_plain: "plain_path c \<Longrightarrow> foldl enter q c = q @ c"
  by (induction c arbitrary: q) simp_all

lemma climb_simps [simp]:
  "climb kp [] = kp"
  "climb kp ''.'' = kp"
  "climb (k, []) ''..'' = (Suc k, [])"
  "p \<noteq> [] \<Longrightarrow> climb (k, p) ''..'' = (k, butlast p)"
  "plain_name n \<Longrightarrow> climb (k, p) n = (k, p @ [n])"
  by (auto simp: climb_def plain_name_def)

lemma plain_path_climb:
  "plain_path (snd kp) \<Longrightarrow> sep \<notin> set n \<Longrightarrow> plain_path (snd (climb kp n))"
  by (auto simp: climb_def plain_path_butlast plain_name_def)

lemma enter_climb:
  assumes "c' = take (length c - fst kp) c @ snd kp"
  shows "enter c' n = take (length c - fst (climb kp n)) c @ snd (climb kp n)"
proof (cases "n = ''..'' \<and> snd kp = []")
  case True
  then show ?thesis
    by (simp add: assms climb_def butlast_take)
next
  case False
  then show ?thesis
    by (auto simp: assms climb_def enter_def butlast_append)
qed

lemma foldl_enter_climb:
  "c' = take (length c - fst kp) c @ snd kp \<Longrightarrow>
   foldl enter c' ns = take (length c - fst (foldl climb kp ns)) c @ snd (foldl climb kp ns)"
  by (induction ns arbitrary: c' kp) (simp_all add: enter_climb)

lemma foldl_enter_pardir: "foldl enter c (replicate k ''..'') = take (length c - k) c"
  by (induction k arbitrary: c) (simp_all add: butlast_conv_take min_def)

section \<open>The loop of joinrealpath\<close>

lemma str_partition_shorter: "rest \<noteq> [] \<Longrightarrow> length (snd (str_partition rest c)) < length rest"
  using length_dropWhile_le [of "\<lambda>x. x \<noteq> c" rest]
  by (cases rest) (auto simp: str_partition_def)

lemma real_part_skip [simp]: "real_part path [] = path" "real_part path ''.'' = path"
  by (simp_all add: real_part_def)

lemma joinrealpath_loop_fold:
  "joinrealpath_loop path rest = foldl real_part path (str_split rest sep)"
proof (induction rest arbitrary: path rule: length_induct)
  case (1 rest)
  show ?case
  proof (cases "rest = []")
    case True
    then show ?thesis by (simp add: joinrealpath_loop.simps)
  next
    case False
    define name where "name = fst (str_partition rest sep)"
    define rest' where "rest' = snd (str_partition rest sep)"
    from False have step: "joinrealpath_loop path rest = joinrealpath_loop (real_part path name) rest'"
      by (subst joinrealpath_loop.simps) (simp add: real_part_def Let_def name_def rest'_def)
    show ?thesis
    proof (cases "sep \<in> set rest")
      case True
      from False have "length rest' < length rest"
        unfolding rest'_def by (rule str_partition_shorter)
      with 1 have "joinrealpath_loop (real_part path name) rest'
          = foldl real_part (real_part path name) (str_split rest' sep)"
        by blast
      with True step show ?thesis
        by (simp add: str_split_partition [of rest] name_def rest'_def)
    next
      case False
      then have "rest' = []" and "str_split rest sep = [name]"
        by (simp_all add: rest'_def name_def str_partition_absent str_split_absent)
      with step show ?thesis by (simp add: joinrealpath_loop.simps)
    qed
  qed
qed

lemma real_part_render:
  assumes "plain_path p" and "sep \<notin> set n"
  shows "real_part (render p) n = render (enter p n)"
proof (cases "n = [] \<or> n = ''.''")
  case True
  then show ?thesis by (auto simp: enter_def)
next
  case False
  show ?thesis
  proof (cases "n = ''..''")
    case True
    show ?thesis
    proof (cases "p = []")
      case True
      with \<open>n = ''..''\<close> show ?thesis by (simp add: real_part_def)
    next
      case False
      with assms(1) have "plain_name (last p)" by (simp add: plain_path_last)
      then have "last p \<noteq> ''..''" by (simp add: plain_name_def)
      with False assms(1) \<open>n = ''..''\<close> show ?thesis
        by (simp add: real_part_def path_split_render plain_path_named)
    qed
  next
    case False
    with \<open>\<not> (n = [] \<or> n = ''.'')\<close> assms(2) have "plain_name n" and "named n"
      by (simp_all add: plain_name_def named_def)
    with assms(1) show ?thesis
      by (simp add: real_part_def path_join_def join_part_render plain_path_named plain_name_def)
  qed
qed

lemma foldl_real_part_render:
  "plain_path p \<Longrightarrow> (\<And>n. n \<in> set ns \<Longrightarrow> sep \<notin> set n) \<Longrightarrow>
   foldl real_part (render p) ns = render (foldl enter p ns)"
  by (induction ns arbitrary: p) (simp_all add: real_part_render plain_path_enter)

lemma named_relative: "plain_path p \<Longrightarrow> list_all named (replicate k ''..'' @ p)"
  using plain_path_named [of p] by (auto simp: list_all_iff)

lemma relative_Nil [simp]: "relative 0 [] = []"
  by (simp add: relative_def)

lemma relative_eq_Nil [simp]: "relative k p = [] \<longleftrightarrow> k = 0 \<and> p = []" if "plain_path p"
proof
  assume empty: "relative k p = []"
  show "k = 0 \<and> p = []"
  proof (rule ccontr)
    assume "\<not> (k = 0 \<and> p = [])"
    then have "replicate k ''..'' @ p \<noteq> []" by auto
    moreover from that have "list_all named (replicate k ''..'' @ p)"
      by (rule named_relative)
    ultimately have "str_join sep (replicate k ''..'' @ p) \<noteq> []"
      by (rule str_join_named(1) [rotated])
    with empty show False by (simp add: relative_def)
  qed
qed simp

lemma real_part_pardir_Nil: "real_part (relative k []) ''..'' = relative (Suc k) []"
proof (cases k)
  case 0
  then show ?thesis by (simp add: real_part_def relative_def)
next
  case (Suc j)
  have rep: "replicate (Suc i) ''..'' = replicate i ''..'' @ [''..'']" for i
    by (simp add: replicate_append_same)
  have split: "path_split (str_join sep (replicate j ''..'' @ [''..'']))
      = (str_join sep (replicate j ''..''), ''..'')"
    using path_split_join [of "replicate j ''..'' @ [''..'']"] by (simp add: list_all_iff)
  have join: "join_part (join_part (str_join sep (replicate j ''..'')) ''..'') ''..''
      = str_join sep ((replicate j ''..'' @ [''..'']) @ [''..''])"
    by (simp add: join_part_join list_all_iff)
  have "str_join sep (replicate j ''..'' @ [''..'']) \<noteq> []"
    by (rule str_join_named(1)) (simp_all add: list_all_iff)
  then show ?thesis
    using Suc
    by (simp add: real_part_def relative_def path_join_def rep split join del: replicate.simps)
qed

lemma real_part_pardir:
  assumes "plain_path p" and "p \<noteq> []"
  shows "real_part (relative k p) ''..'' = relative k (butlast p)"
proof -
  let ?xs = "replicate k ''..'' @ p"
  from assms(1) have named: "list_all named ?xs" by (rule named_relative)
  from assms have "plain_name (last p)" by (simp add: plain_path_last)
  then have "last p \<noteq> ''..''" by (simp add: plain_name_def)
  moreover from named assms(2) have "str_join sep ?xs \<noteq> []"
    by (intro str_join_named(1)) simp_all
  ultimately show ?thesis
    using assms path_split_join [OF named]
    by (simp add: real_part_def relative_def butlast_append)
qed

lemma real_part_name:
  assumes "plain_path p" and "plain_name n"
  shows "real_part (relative k p) n = relative k (p @ [n])"
  using assms named_relative [OF assms(1), of k]
  by (simp add: real_part_def path_join_def relative_def join_part_join plain_name_def named_def)

lemma real_part_relative:
  assumes "plain_path p" and "sep \<notin> set n"
  shows "real_part (relative k p) n = relative (fst (climb (k, p) n)) (snd (climb (k, p) n))"
proof (cases "n = [] \<or> n = ''.'' \<or> n = ''..''")
  case True
  with assms(1) show ?thesis
    by (cases "p = []") (auto simp: real_part_pardir_Nil real_part_pardir)
next
  case False
  with assms(2) have "plain_name n" by (simp add: plain_name_def)
  with assms(1) show ?thesis by (simp add: real_part_name)
qed

lemma foldl_real_part_relative:
  "plain_path (snd kp) \<Longrightarrow> (\<And>n. n \<in> set ns \<Longrightarrow> sep \<notin> set n) \<Longrightarrow>
   foldl real_part (relative (fst kp) (snd kp)) ns
     = relative (fst (foldl climb kp ns)) (snd (foldl climb kp ns)) \<and>
   plain_path (snd (foldl climb kp ns))"
proof (induction ns arbitrary: kp)
  case Nil
  then show ?case by simp
next
  case (Cons n ns)
  from Cons.prems have "plain_path (snd (climb kp n))"
    by (simp add: plain_path_climb)
  with Cons.IH [of "climb kp n"] Cons.prems show ?case
    by (simp add: real_part_relative [of "snd kp" n "fst kp"])
qed

section \<open>normpath and realpath\<close>

lemma norm_part_enter:
  assumes "''..'' \<notin> set cs"
  shows "norm_part (Suc 0) cs n = enter cs n \<and> ''..'' \<notin> set (enter cs n)"
proof -
  from assms have "cs \<noteq> [] \<Longrightarrow> last cs \<noteq> ''..''"
    by (metis last_in_set)
  with assms show ?thesis
    by (auto simp: norm_part_def enter_def dest: in_set_butlastD)
qed

lemma foldl_norm_part:
  "''..'' \<notin> set cs \<Longrightarrow> foldl (norm_part (Suc 0)) cs ns = foldl enter cs ns"
  by (induction ns arbitrary: cs) (simp_all add: norm_part_enter)

lemma path_isabs_iff: "path_isabs s \<longleftrightarrow> s \<noteq> [] \<and> hd s = sep"
  by (cases s) (simp_all add: path_isabs_def)

lemma hd_str_join: "ys \<noteq> [] \<Longrightarrow> hd ys \<noteq> [] \<Longrightarrow> hd (str_join c ys) = hd (hd ys)"
  by (induction c ys rule: str_join.induct) simp_all

lemma str_split_render:
  assumes "\<And>y. y \<in> set ys \<Longrightarrow> sep \<notin> set y"
  shows "str_split (render ys) sep = [] # (if ys = [] then [[]] else ys)"
  using assms str_split_append [of sep "[]" "str_join sep ys"]
  by (simp add: render_def str_split_join)

lemma path_normpath_render:
  assumes "\<And>y. y \<in> set ys \<Longrightarrow> sep \<notin> set y" and "ys = [] \<or> hd ys \<noteq> []"
  shows "path_normpath (render ys) = render (foldl enter [] ys)"
proof -
  have "\<not> path_isabs (str_join sep ys)"
  proof (cases "ys = []")
    case True
    then show ?thesis by (simp add: path_isabs_def)
  next
    case False
    with assms(2) have "hd (str_join sep ys) = hd (hd ys)" and "hd (hd ys) \<in> set (hd ys)"
      by (simp_all add: hd_str_join)
    with assms(1) [of "hd ys"] False show ?thesis
      by (auto simp: path_isabs_iff)
  qed
  then have one: "take 2 (render ys) \<noteq> [sep, sep]"
    by (cases "str_join sep ys") (simp_all add: render_def path_isabs_def)
  have "foldl (norm_part (Suc 0)) [] (str_split (render ys) sep) = foldl enter [] ys"
    by (simp add: str_split_render [OF assms(1)] foldl_norm_part norm_part_def)
  with one show ?thesis
    by (simp add: path_normpath_def Let_def render_def [of "foldl enter [] ys"])
qed

lemma path_normpath_plain: "plain_path p \<Longrightarrow> path_normpath (render p) = render p"
proof -
  assume plain: "plain_path p"
  then have "list_all named p" by (rule plain_path_named)
  then have "\<And>y. y \<in> set p \<Longrightarrow> sep \<notin> set y" and "p = [] \<or> hd p \<noteq> []"
    by (auto simp: list_all_iff named_def)
  then have "path_normpath (render p) = render (foldl enter [] p)"
    by (rule path_normpath_render)
  with plain show ?thesis by (simp add: foldl_enter_plain)
qed

lemma path_isabs_relative: "plain_path p \<Longrightarrow> \<not> path_isabs (relative k p)"
proof (cases "replicate k ''..'' @ p = []")
  case True
  then show ?thesis by (simp add: relative_def path_isabs_def)
next
  case False
  assume "plain_path p"
  then have "list_all named (replicate k ''..'' @ p)" by (rule named_relative)
  from str_join_named(3) [OF this False] show ?thesis
    by (simp add: path_isabs_iff relative_def)
qed

lemma join_part_render_list:
  assumes "list_all named c" and "list_all named xs" and "xs \<noteq> []"
  shows "join_part (render c) (str_join sep xs) = render (c @ xs)"
proof -
  from assms(2,3) have "\<not> path_isabs (str_join sep xs)"
    using str_join_named(1,3) [of xs] by (simp add: path_isabs_iff)
  with assms last_render [of c] show ?thesis
    by (cases "c = []") (simp_all add: join_part_def render_def str_join_append)
qed

lemma location_absolute:
  assumes "path_isabs file"
  shows "location w file = foldl enter [] (str_split (drop 1 file) sep)"
proof -
  from assms have "file = sep # drop 1 file"
    by (cases "file") (simp_all add: path_isabs_def)
  then have "str_split file sep = [] # str_split (drop 1 file) sep"
    by (metis str_split.simps(2))
  with assms show ?thesis by (simp add: location_def start_dir_def)
qed

lemma location_relative:
  assumes "\<not> path_isabs file"
  shows "location w file
           = take (length (cwd w) - fst (foldl climb (0, []) (str_split file sep))) (cwd w)
             @ snd (foldl climb (0, []) (str_split file sep))"
  using assms foldl_enter_climb [of "cwd w" "cwd w" "(0, [])" "str_split file sep"]
  by (simp add: location_def start_dir_def)

lemma plain_path_location: "plain_path (cwd w) \<Longrightarrow> plain_path (location w file)"
  unfolding location_def
  by (rule plain_path_foldl_enter) (auto simp: start_dir_def dest: str_split_parts)

lemma joinrealpath_absolute:
  assumes "path_isabs file"
  shows "joinrealpath [] file = render (location w file)"
proof -
  have "foldl real_part (render []) (str_split (drop 1 file) sep)
      = render (foldl enter [] (str_split (drop 1 file) sep))"
    by (rule foldl_real_part_render) (auto dest: str_split_parts)
  with assms show ?thesis
    by (simp add: joinrealpath_def joinrealpath_loop_fold location_absolute)
qed

lemma joinrealpath_relative:
  assumes "\<not> path_isabs file"
  defines "kp \<equiv> foldl climb (0, []) (str_split file sep)"
  shows "joinrealpath [] file = relative (fst kp) (snd kp)" and "plain_path (snd kp)"
proof -
  have "foldl real_part (relative 0 []) (str_split file sep)
      = relative (fst kp) (snd kp) \<and> plain_path (snd kp)"
    using foldl_real_part_relative [of "(0, [])" "str_split file sep"]
    by (auto simp: kp_def dest: str_split_parts)
  with assms(1) show "joinrealpath [] file = relative (fst kp) (snd kp)" and "plain_path (snd kp)"
    by (simp_all add: joinrealpath_def joinrealpath_loop_fold)
qed

lemma path_normpath_join_relative:
  assumes "plain_path c" and "plain_path p"
  shows "path_normpath (path_join (render c) [relative k p]) = render (take (length c - k) c @ p)"
proof (cases "k = 0 \<and> p = []")
  case True
  show ?thesis
  proof (cases "c = []")
    case True
    with \<open>k = 0 \<and> p = []\<close> path_normpath_plain [of "[]"] show ?thesis
      by (simp add: path_join_def join_part_def path_isabs_def)
  next
    case False
    with assms(1) have "join_part (render c) [] = render (c @ [[]])"
      using last_render [of c] by (simp add: join_part_def path_isabs_def render_snoc plain_path_named)
    moreover from assms(1) False have "path_normpath (render (c @ [[]])) = render (foldl enter [] (c @ [[]]))"
      using plain_path_named [of c]
      by (intro path_normpath_render) (auto simp: list_all_iff named_def)
    ultimately show ?thesis
      using True assms(1) by (simp add: path_join_def foldl_enter_plain)
  qed
next
  case False
  let ?xs = "replicate k ''..'' @ p"
  from False have nonempty: "?xs \<noteq> []" by auto
  from assms(2) have named: "list_all named ?xs" by (rule named_relative)
  from assms(1) have c: "list_all named c" by (rule plain_path_named)
  from c named nonempty have "join_part (render c) (str_join sep ?xs) = render (c @ ?xs)"
    by (rule join_part_render_list)
  moreover have "path_normpath (render (c @ ?xs)) = render (foldl enter [] (c @ ?xs))"
    using c named nonempty
    by (intro path_normpath_render) (auto simp: list_all_iff named_def hd_append)
  moreover from assms have "foldl enter [] (c @ ?xs) = take (length c - k) c @ p"
    by (simp add: foldl_enter_plain foldl_enter_pardir)
  ultimately show ?thesis
    by (simp add: path_join_def relative_def)
qed

lemma path_realpath_location:
  assumes "lookup w (cwd w) = Some Dir" and "plain_path (cwd w)"
  shows "path_realpath file w = (Inr (render (location w file)), w)"
proof (cases "path_isabs file")
  case True
  with assms(2) show ?thesis
    by (simp add: path_realpath_def path_abspath_def joinrealpath_absolute [OF True, of w]
          path_normpath_plain plain_path_location)
next
  case False
  note rel = joinrealpath_relative [OF False]
  from assms rel(2) show ?thesis
    by (simp add: path_realpath_def path_abspath_def rel(1) path_isabs_relative posix_getcwd_def
          bind_exec_def path_normpath_join_relative location_relative [OF False])
qed

section \<open>System calls on rendered paths\<close>

lemma plain_name_bin [simp]: "plain_name ''bin''"
  by (simp add: plain_name_def sep_def)

lemma stat_from_walk:
  "plain_path names \<Longrightarrow>
   stat_from w cur names
     = (case walk w cur names of Inl e \<Rightarrow> Inl e | Inr n \<Rightarrow> Inr (cur @ names, n))"
proof (induction names arbitrary: cur)
  case Nil
  then show ?case by (simp add: stat_from_def split: option.splits)
next
  case (Cons name names)
  then have "plain_name name" and "plain_path names" by simp_all
  then have "stat_from w cur (name # names)
      = (case lookup w cur of
           None \<Rightarrow> Inl FileNotFoundError
         | Some File \<Rightarrow> Inl NotADirectoryError
         | Some Dir \<Rightarrow> stat_from w (cur @ [name]) names)"
    by (simp add: stat_from_def plain_name_def split: option.splits node.splits)
  with Cons.IH [of "cur @ [name]"] \<open>plain_path names\<close> show ?case
    by (simp split: option.splits node.splits cong: sum.case_cong)
qed

lemma stat_from_lookup:
  assumes "wf_world w" and "plain_path names" and "lookup w cur = Some Dir"
  shows "stat_from w cur names
           = (case lookup w (cur @ names) of
                None \<Rightarrow> Inl (missing w (cur @ names))
              | Some n \<Rightarrow> Inr (cur @ names, n))"
proof -
  from assms(1,3) have "\<And>k. k < length cur \<Longrightarrow> lookup w (take k cur) = Some Dir"
    by (rule wf_world_ancestor)
  with assms(1) have "walk w cur names
      = (case lookup w (cur @ names) of None \<Rightarrow> Inl (missing w (cur @ names)) | Some n \<Rightarrow> Inr n)"
    by (rule walk_lookup_from)
  with assms(2) show ?thesis
    by (simp add: stat_from_walk split: option.splits)
qed

lemma wf_world_root: "wf_world w \<Longrightarrow> lookup w [] = Some Dir"
  by (simp add: wf_world_def)

lemma wf_world_cwd: "wf_world w \<Longrightarrow> lookup w (cwd w) = Some Dir"
  by (simp add: wf_world_def)

lemma stat_from_skip:
  "lookup w cur = Some Dir \<Longrightarrow> stat_from w cur ([] # names) = stat_from w cur names"
  by (simp add: stat_from_def)

lemma posix_stat_render:
  assumes "wf_world w" and "plain_path p"
  shows "posix_stat (render p) w
           = (case lookup w p of None \<Rightarrow> Inl (missing w p) | Some n \<Rightarrow> Inr (p, n))"
proof -
  from assms(2) have parts: "\<And>y. y \<in> set p \<Longrightarrow> sep \<notin> set y"
    using plain_path_named [of p] by (auto simp: list_all_iff named_def)
  from assms(1) have root: "lookup w [] = Some Dir" by (rule wf_world_root)
  show ?thesis
  proof (cases "p = []")
    case True
    with root show ?thesis
      by (simp add: posix_stat_def start_dir_def str_split_render stat_from_skip)
        (simp add: stat_from_def)
  next
    case False
    with root stat_from_lookup [OF assms(1,2) root] show ?thesis
      by (simp add: posix_stat_def start_dir_def str_split_render [OF parts] stat_from_skip
            cong: option.case_cong)
  qed
qed

lemma posix_stat_name:
  assumes "wf_world w" and "plain_name n"
  shows "posix_stat n w
           = (case lookup w (cwd w @ [n]) of
                None \<Rightarrow> Inl (missing w (cwd w @ [n]))
              | Some k \<Rightarrow> Inr (cwd w @ [n], k))"
proof -
  from assms(2) have "n \<noteq> []" and "\<not> path_isabs n" and "str_split n sep = [n]"
    by (auto simp: plain_name_def path_isabs_plain str_split_absent)
  moreover from assms have "stat_from w (cwd w) [n]
      = (case lookup w (cwd w @ [n]) of
           None \<Rightarrow> Inl (missing w (cwd w @ [n]))
         | Some k \<Rightarrow> Inr (cwd w @ [n], k))"
    by (intro stat_from_lookup) (simp_all add: wf_world_cwd)
  ultimately show ?thesis
    by (simp add: posix_stat_def start_dir_def)
qed

lemma posix_chdir_render:
  "wf_world w \<Longrightarrow> plain_path p \<Longrightarrow> posix_chdir (render p) w = os_chdir (Absolute p) w"
  by (simp add: posix_chdir_def posix_stat_render os_chdir_def resolve_def
        split: option.splits node.splits)

lemma posix_chdir_name:
  "wf_world w \<Longrightarrow> plain_name n \<Longrightarrow> posix_chdir n w = os_chdir (Relative [n]) w"
  by (simp add: posix_chdir_def posix_stat_name os_chdir_def resolve_def
        split: option.splits node.splits)

lemma path_isdir_name:
  "wf_world w \<Longrightarrow> plain_name n \<Longrightarrow> path_isdir n w = isdir w (Relative [n])"
  by (simp add: path_isdir_def posix_stat_name isdir_def resolve_def split: option.splits)

lemma posix_mkdir_name:
  assumes "wf_world w" and "plain_name n"
  shows "posix_mkdir n w = os_mkdir (Relative [n]) w"
proof -
  from assms(2) have "n \<noteq> []" and "\<not> path_isabs n" and "str_split n sep = [n]"
    and "n \<noteq> ''.''" and "n \<noteq> ''..''"
    by (auto simp: plain_name_def path_isabs_plain str_split_absent)
  with wf_world_cwd [OF assms(1)] show ?thesis
    by (simp add: posix_mkdir_def os_mkdir_def start_dir_def resolve_def Let_def
          split: option.splits)
qed

lemma head_tail_name: "plain_name n \<Longrightarrow> head_tail n = ([], n)"
  by (simp add: head_tail_def path_split_name plain_name_def)

lemma makedirs_name:
  assumes "wf_world w" and "plain_name n"
  shows "makedirs n True w = os_makedirs n True w"
proof (cases "os_mkdir (Relative [n]) w")
  case (Pair r w1)
  show ?thesis
  proof (cases r)
    case (Inl e)
    with Pair have "w1 = w" by (auto dest: os_mkdir_Inl_unchanged)
    with Pair Inl assms show ?thesis
      by (subst makedirs.simps)
        (simp add: head_tail_name posix_mkdir_name path_isdir_name os_makedirs_def
          split: py_error.splits)
  next
    case (Inr u)
    with Pair assms show ?thesis
      by (subst makedirs.simps) (simp add: head_tail_name posix_mkdir_name os_makedirs_def)
  qed
qed

section \<open>main at the location of the script\<close>

lemma main_posix_prepare:
  "main_posix env file argv =
     bind_exec (lift_result (parse_arguments argv)) (\<lambda>args.
       bind_exec (prepare_posix file) (\<lambda>_. combinate env args))"
  by (simp add: main_posix_def prepare_posix_def Let_def bind_exec_assoc)

lemma prepare_posix_prepare:
  assumes "wf_world w" and "plain_path (cwd w)"
  shows "prepare_posix file w = prepare (location w file) w"
proof -
  let ?loc = "location w file"
  from assms(2) have plain: "plain_path ?loc" by (rule plain_path_location)
  then have dir: "plain_path (dirname ?loc)" by (simp add: dirname_def plain_path_butlast)
  have real: "path_realpath file w = (Inr (render ?loc), w)"
    using assms by (intro path_realpath_location) (simp_all add: wf_world_cwd)
  have first: "posix_chdir (path_dirname (render ?loc)) w = os_chdir (Absolute (dirname ?loc)) w"
    using assms(1) plain dir by (simp add: path_dirname_render posix_chdir_render dirname_def)
  show ?thesis
  proof (cases "os_chdir (Absolute (dirname ?loc)) w")
    case (Pair r1 w1)
    with assms(1) have wf1: "wf_world w1" by (rule os_chdir_wf)
    show ?thesis
    proof (cases r1)
      case (Inl e)
      with Pair real first show ?thesis
        by (simp add: prepare_posix_def prepare_def bind_exec_def)
    next
      case (Inr u)
      note step1 = this
      show ?thesis
      proof (cases "os_makedirs ''bin'' True w1")
        case second: (Pair r2 w2)
        with wf1 have wf2: "wf_world w2" by (rule os_makedirs_wf)
        from wf1 wf2 second Pair step1 real first show ?thesis
          by (cases r2)
            (simp_all add: prepare_posix_def prepare_def bind_exec_def makedirs_name
              posix_chdir_name)
      qed
    qed
  qed
qed

lemma main_posix_main:
  assumes "wf_world w" and "plain_path (cwd w)"
  shows "main_posix env file argv w = main env (location w file) argv w"
  using prepare_posix_prepare [OF assms, of "file"]
  by (cases "parse_arguments argv") (simp_all add: main_posix_prepare main_prepare bind_exec_def)

lemma script_posix_script:
  assumes "wf_world w" and "plain_path (cwd w)"
  shows "script_posix env file argv w = script env (location w file) argv w"
  by (simp add: script_posix_def script_def main_posix_main [OF assms])

section \<open>Examples\<close>

text \<open>
  What the functions give on some paths, as Python 3.11 on Linux gives it. The
  world of the examples with effects has the directories \<^verbatim>\<open>/repo\<close> and
  \<^verbatim>\<open>/repo/scripts\<close>, the file \<^verbatim>\<open>/repo/scripts/tes4_pack.py\<close> and the working
  directory \<^verbatim>\<open>/repo\<close>.
\<close>

lemma path_examples:
  "path_dirname ''/repo/scripts/tes4_pack.py'' = ''/repo/scripts''"
  "path_dirname ''/tes4_pack.py'' = ''/''"
  "path_dirname ''tes4_pack.py'' = []"
  "path_split ''/repo//'' = (''/repo'', [])"
  "path_join ''/repo'' [''..'', ''..''] = ''/repo/../..''"
  "path_join ''/repo/'' [''bin''] = ''/repo/bin''"
  "path_join ''a'' [''/b''] = ''/b''"
  "path_normpath ''//repo/./scripts//../x'' = ''//repo/x''"
  "path_normpath ''///a'' = ''/a''"
  "path_normpath ''a/../..'' = ''..''"
  "joinrealpath [] ''a/../../b'' = ''../b''"
  by code_simp+

lemma system_examples:
  "path_realpath ''scripts/../scripts/./tes4_pack.py'' \<lparr>cwd = [''repo''], fs = [([], Dir), ([''repo''], Dir), ([''repo'', ''scripts''], Dir), ([''repo'', ''scripts'', ''tes4_pack.py''], File)], log = []\<rparr>
     = (Inr ''/repo/scripts/tes4_pack.py'', \<lparr>cwd = [''repo''], fs = [([], Dir), ([''repo''], Dir), ([''repo'', ''scripts''], Dir), ([''repo'', ''scripts'', ''tes4_pack.py''], File)], log = []\<rparr>)"
  "path_realpath ''../../../x'' \<lparr>cwd = [''repo''], fs = [([], Dir), ([''repo''], Dir), ([''repo'', ''scripts''], Dir), ([''repo'', ''scripts'', ''tes4_pack.py''], File)], log = []\<rparr> = (Inr ''/x'', \<lparr>cwd = [''repo''], fs = [([], Dir), ([''repo''], Dir), ([''repo'', ''scripts''], Dir), ([''repo'', ''scripts'', ''tes4_pack.py''], File)], log = []\<rparr>)"
  "path_realpath [] \<lparr>cwd = [''repo''], fs = [([], Dir), ([''repo''], Dir), ([''repo'', ''scripts''], Dir), ([''repo'', ''scripts'', ''tes4_pack.py''], File)], log = []\<rparr> = (Inr ''/repo'', \<lparr>cwd = [''repo''], fs = [([], Dir), ([''repo''], Dir), ([''repo'', ''scripts''], Dir), ([''repo'', ''scripts'', ''tes4_pack.py''], File)], log = []\<rparr>)"
  "posix_chdir [] \<lparr>cwd = [''repo''], fs = [([], Dir), ([''repo''], Dir), ([''repo'', ''scripts''], Dir), ([''repo'', ''scripts'', ''tes4_pack.py''], File)], log = []\<rparr> = (Inl (OSError FileNotFoundError), \<lparr>cwd = [''repo''], fs = [([], Dir), ([''repo''], Dir), ([''repo'', ''scripts''], Dir), ([''repo'', ''scripts'', ''tes4_pack.py''], File)], log = []\<rparr>)"
  "posix_chdir ''scripts/tes4_pack.py/'' \<lparr>cwd = [''repo''], fs = [([], Dir), ([''repo''], Dir), ([''repo'', ''scripts''], Dir), ([''repo'', ''scripts'', ''tes4_pack.py''], File)], log = []\<rparr> = (Inl (OSError NotADirectoryError), \<lparr>cwd = [''repo''], fs = [([], Dir), ([''repo''], Dir), ([''repo'', ''scripts''], Dir), ([''repo'', ''scripts'', ''tes4_pack.py''], File)], log = []\<rparr>)"
  "posix_chdir ''scripts/../nowhere/..'' \<lparr>cwd = [''repo''], fs = [([], Dir), ([''repo''], Dir), ([''repo'', ''scripts''], Dir), ([''repo'', ''scripts'', ''tes4_pack.py''], File)], log = []\<rparr> = (Inl (OSError FileNotFoundError), \<lparr>cwd = [''repo''], fs = [([], Dir), ([''repo''], Dir), ([''repo'', ''scripts''], Dir), ([''repo'', ''scripts'', ''tes4_pack.py''], File)], log = []\<rparr>)"
  "fst (posix_chdir ''/repo//scripts/.'' \<lparr>cwd = [''repo''], fs = [([], Dir), ([''repo''], Dir), ([''repo'', ''scripts''], Dir), ([''repo'', ''scripts'', ''tes4_pack.py''], File)], log = []\<rparr>) = Inr () \<and>
   cwd (snd (posix_chdir ''/repo//scripts/.'' \<lparr>cwd = [''repo''], fs = [([], Dir), ([''repo''], Dir), ([''repo'', ''scripts''], Dir), ([''repo'', ''scripts'', ''tes4_pack.py''], File)], log = []\<rparr>)) = [''repo'', ''scripts'']"
  "posix_mkdir ''scripts/.'' \<lparr>cwd = [''repo''], fs = [([], Dir), ([''repo''], Dir), ([''repo'', ''scripts''], Dir), ([''repo'', ''scripts'', ''tes4_pack.py''], File)], log = []\<rparr> = (Inl (OSError FileExistsError), \<lparr>cwd = [''repo''], fs = [([], Dir), ([''repo''], Dir), ([''repo'', ''scripts''], Dir), ([''repo'', ''scripts'', ''tes4_pack.py''], File)], log = []\<rparr>)"
  "posix_mkdir ''scripts/tes4_pack.py/bin'' \<lparr>cwd = [''repo''], fs = [([], Dir), ([''repo''], Dir), ([''repo'', ''scripts''], Dir), ([''repo'', ''scripts'', ''tes4_pack.py''], File)], log = []\<rparr> = (Inl (OSError NotADirectoryError), \<lparr>cwd = [''repo''], fs = [([], Dir), ([''repo''], Dir), ([''repo'', ''scripts''], Dir), ([''repo'', ''scripts'', ''tes4_pack.py''], File)], log = []\<rparr>)"
  "fst (posix_mkdir ''bin/'' \<lparr>cwd = [''repo''], fs = [([], Dir), ([''repo''], Dir), ([''repo'', ''scripts''], Dir), ([''repo'', ''scripts'', ''tes4_pack.py''], File)], log = []\<rparr>) = Inr () \<and>
   lookup (snd (posix_mkdir ''bin/'' \<lparr>cwd = [''repo''], fs = [([], Dir), ([''repo''], Dir), ([''repo'', ''scripts''], Dir), ([''repo'', ''scripts'', ''tes4_pack.py''], File)], log = []\<rparr>)) [''repo'', ''bin''] = Some Dir"
  "fst (makedirs ''a/b'' True \<lparr>cwd = [''repo''], fs = [([], Dir), ([''repo''], Dir), ([''repo'', ''scripts''], Dir), ([''repo'', ''scripts'', ''tes4_pack.py''], File)], log = []\<rparr>) = Inr () \<and>
   lookup (snd (makedirs ''a/b'' True \<lparr>cwd = [''repo''], fs = [([], Dir), ([''repo''], Dir), ([''repo'', ''scripts''], Dir), ([''repo'', ''scripts'', ''tes4_pack.py''], File)], log = []\<rparr>)) [''repo'', ''a''] = Some Dir \<and>
   lookup (snd (makedirs ''a/b'' True \<lparr>cwd = [''repo''], fs = [([], Dir), ([''repo''], Dir), ([''repo'', ''scripts''], Dir), ([''repo'', ''scripts'', ''tes4_pack.py''], File)], log = []\<rparr>)) [''repo'', ''a'', ''b''] = Some Dir"
  "makedirs ''scripts'' True \<lparr>cwd = [''repo''], fs = [([], Dir), ([''repo''], Dir), ([''repo'', ''scripts''], Dir), ([''repo'', ''scripts'', ''tes4_pack.py''], File)], log = []\<rparr> = (Inr (), \<lparr>cwd = [''repo''], fs = [([], Dir), ([''repo''], Dir), ([''repo'', ''scripts''], Dir), ([''repo'', ''scripts'', ''tes4_pack.py''], File)], log = []\<rparr>)"
  "makedirs ''scripts'' False \<lparr>cwd = [''repo''], fs = [([], Dir), ([''repo''], Dir), ([''repo'', ''scripts''], Dir), ([''repo'', ''scripts'', ''tes4_pack.py''], File)], log = []\<rparr> = (Inl (OSError FileExistsError), \<lparr>cwd = [''repo''], fs = [([], Dir), ([''repo''], Dir), ([''repo'', ''scripts''], Dir), ([''repo'', ''scripts'', ''tes4_pack.py''], File)], log = []\<rparr>)"
  "makedirs ''scripts/tes4_pack.py'' True \<lparr>cwd = [''repo''], fs = [([], Dir), ([''repo''], Dir), ([''repo'', ''scripts''], Dir), ([''repo'', ''scripts'', ''tes4_pack.py''], File)], log = []\<rparr> = (Inl (OSError FileExistsError), \<lparr>cwd = [''repo''], fs = [([], Dir), ([''repo''], Dir), ([''repo'', ''scripts''], Dir), ([''repo'', ''scripts'', ''tes4_pack.py''], File)], log = []\<rparr>)"
  by code_simp+

section \<open>Properties\<close>

text \<open>
  C16. Run from a well-formed world whose working directory has plain names,
  the script over path strings is the script over lists of components at the
  location of \<^verbatim>\<open>__file__\<close>: \<^verbatim>\<open>os.path.realpath\<close> returns that location written
  as an absolute path, without \<^verbatim>\<open>.\<close>, \<^verbatim>\<open>..\<close> or empty names, whatever
  \<^verbatim>\<open>__file__\<close> is; \<^verbatim>\<open>os.path.dirname\<close> of it is the directory that holds the
  script; and exit status and world at the end are those of \<open>script\<close>.
\<close>

theorem script_posix_at_location:
  assumes "wf_world w" and "plain_path (cwd w)"
  shows "path_realpath file w = (Inr (render (location w file)), w) \<and>
         plain_path (location w file) \<and>
         path_dirname (render (location w file)) = render (dirname (location w file)) \<and>
         script_posix env file argv w = script env (location w file) argv w"
  using assms
  by (simp add: path_realpath_location wf_world_cwd plain_path_location path_dirname_render
        dirname_def script_posix_script)

theorem script_posix_at_location_witness:
  "wf_world \<lparr>cwd = [''repo''], fs = [([], Dir), ([''repo''], Dir), ([''repo'', ''scripts''], Dir), ([''repo'', ''scripts'', ''tes4_pack.py''], File)], log = []\<rparr> \<and> plain_path (cwd \<lparr>cwd = [''repo''], fs = [([], Dir), ([''repo''], Dir), ([''repo'', ''scripts''], Dir), ([''repo'', ''scripts'', ''tes4_pack.py''], File)], log = []\<rparr>) \<and>
   location \<lparr>cwd = [''repo''], fs = [([], Dir), ([''repo''], Dir), ([''repo'', ''scripts''], Dir), ([''repo'', ''scripts'', ''tes4_pack.py''], File)], log = []\<rparr> ''scripts/../scripts/./tes4_pack.py'' = [''repo'', ''scripts'', ''tes4_pack.py''] \<and>
   path_realpath ''scripts/../scripts/./tes4_pack.py'' \<lparr>cwd = [''repo''], fs = [([], Dir), ([''repo''], Dir), ([''repo'', ''scripts''], Dir), ([''repo'', ''scripts'', ''tes4_pack.py''], File)], log = []\<rparr>
     = (Inr ''/repo/scripts/tes4_pack.py'', \<lparr>cwd = [''repo''], fs = [([], Dir), ([''repo''], Dir), ([''repo'', ''scripts''], Dir), ([''repo'', ''scripts'', ''tes4_pack.py''], File)], log = []\<rparr>) \<and>
   script_posix (\<lambda>h d c. Exited 0) ''scripts/../scripts/./tes4_pack.py'' [''b'', ''d''] \<lparr>cwd = [''repo''], fs = [([], Dir), ([''repo''], Dir), ([''repo'', ''scripts''], Dir), ([''repo'', ''scripts'', ''tes4_pack.py''], File)], log = []\<rparr>
     = script (\<lambda>h d c. Exited 0) [''repo'', ''scripts'', ''tes4_pack.py''] [''b'', ''d''] \<lparr>cwd = [''repo''], fs = [([], Dir), ([''repo''], Dir), ([''repo'', ''scripts''], Dir), ([''repo'', ''scripts'', ''tes4_pack.py''], File)], log = []\<rparr>"
proof -
  have wf: "wf_world \<lparr>cwd = [''repo''], fs = [([], Dir), ([''repo''], Dir), ([''repo'', ''scripts''], Dir), ([''repo'', ''scripts'', ''tes4_pack.py''], File)], log = []\<rparr>"
    by (simp add: wf_world_def lookup_def)
  have plain: "plain_path (cwd \<lparr>cwd = [''repo''], fs = [([], Dir), ([''repo''], Dir), ([''repo'', ''scripts''], Dir), ([''repo'', ''scripts'', ''tes4_pack.py''], File)], log = []\<rparr>)"
    by (simp add: plain_name_def sep_def)
  have loc: "location \<lparr>cwd = [''repo''], fs = [([], Dir), ([''repo''], Dir), ([''repo'', ''scripts''], Dir), ([''repo'', ''scripts'', ''tes4_pack.py''], File)], log = []\<rparr> ''scripts/../scripts/./tes4_pack.py'' = [''repo'', ''scripts'', ''tes4_pack.py'']"
    by (simp add: location_def start_dir_def path_isabs_def enter_def sep_def)
  have "render [''repo'', ''scripts'', ''tes4_pack.py''] = ''/repo/scripts/tes4_pack.py''"
    by (simp add: render_def sep_def)
  with script_posix_at_location [OF wf plain, of "''scripts/../scripts/./tes4_pack.py''"
      "\<lambda>h d c. Exited 0" "[''b'', ''d'']"] wf plain loc
  show ?thesis by simp
qed

end
