(* ===== verification/Spec2Isabelle.thy ===== *)
theory Spec2Isabelle
  imports Pack_Main Pack_Machine Pack_Variants Pack_Stepping Pack_Blocking Pack_Paths
begin

text \<open>
  \<^bold>\<open>The program.\<close> \<^verbatim>\<open>src/scripts/tes4_pack.py\<close> is a script of 48 lines
  that calls an external archiver, \<^verbatim>\<open>bsarch\<close>, once for every combination of
  four packing flags, to produce test archives. It has five parts, which call
  each other in one direction only:
  \<^item> the class \<^verbatim>\<open>Flags\<close>, an \<^verbatim>\<open>enum.IntFlag\<close> with four one-bit members;
  \<^item> \<^verbatim>\<open>powerset\<close>, which chains \<^verbatim>\<open>itertools.combinations\<close> of every length;
  \<^item> \<^verbatim>\<open>combinate\<close>, two nested \<^verbatim>\<open>for\<close> loops (formats outside, combinations
    inside) around one call of \<^verbatim>\<open>subprocess.run\<close> with \<^verbatim>\<open>check=True\<close>;
  \<^item> \<^verbatim>\<open>parse_arguments\<close>, an \<^verbatim>\<open>argparse\<close> parser with two positional strings
    and the option \<^verbatim>\<open>-h\<close>, \<^verbatim>\<open>--help\<close> that every such parser has;
  \<^item> \<^verbatim>\<open>main\<close>, which parses, changes to the directory of the script, makes
    and enters \<^verbatim>\<open>bin\<close>, and calls \<^verbatim>\<open>combinate\<close>; and the module's last two
    lines, which call \<^verbatim>\<open>main\<close>.

  \<^bold>\<open>The theories.\<close>
  \<^item> \<open>Pack_Prelude\<close>: exceptions as values (\<open>py_error\<close>, \<open>os_error\<close>), statements as
    functions from a state to an outcome and a state (\<open>exec\<close>, \<open>bind_exec\<close>), Python
    list indexing (\<open>getitem\<close>), and the collection \<open>pack_defs\<close> of the equations
    that evaluate closed terms; and \<open>pyval\<close>, the values an attribute of the
    parsed command line can have.
  \<^item> \<open>Pack_Flags\<close>: \<open>Flags\<close>, \<open>flag_value\<close>, \<open>members\<close>, \<open>unique\<close> for lines 3 to 8.
    The lemmas show four different single bits inside \<open>0x107\<close>.
  \<^item> \<open>Pack_Itertools\<close>: \<open>combinations\<close>, \<open>chain_from_iterable\<close>, \<open>accumulate\<close>,
    \<open>powerset\<close> (lines 10 to 13), the one-shot \<open>iterator\<close> with \<open>next_item\<close>, and the
    loops \<open>for_iter\<close> and \<open>for_in\<close>. The lemmas relate \<open>combinations\<close> and \<open>powerset\<close>
    to the library's \<open>subseqs\<close> and \<open>subseq\<close>, give the lexicographic order of
    \<open>combinations\<close>, and show that a finished loop leaves its iterator
    exhausted.
  \<^item> \<open>Pack_Stepping\<close>: the algorithm of \<^verbatim>\<open>itertools.combinations\<close> as the
    library documents it (\<open>movable\<close>, \<open>advance\<close>, \<open>next_indices\<close>, the loop
    \<open>combinations_loop\<close> and \<open>combinations_iter\<close>), proved to end and to yield the
    list \<open>combinations\<close>.
  \<^item> \<open>Pack_Format\<close>: the replacement field \<^verbatim>\<open>{:X}\<close> (\<open>format_X\<close>, \<open>hex_upper\<close>) and the
    three formatted arguments of lines 25 to 27. The lemmas give the round trip
    with the reference reader \<open>parse_X\<close>, the number of digits, and injectivity
    of archive names.
  \<^item> \<open>Pack_World\<close>: the state outside the process (\<open>world\<close>: working directory,
    file system entries, log of child processes), the environment \<open>env\<close> that
    decides how a child process ends, and the library calls \<open>os_chdir\<close>,
    \<open>os_mkdir\<close>, \<open>os_makedirs\<close>, \<open>dirname\<close>, \<open>subprocess_run\<close>; the last is
    \<open>run_child\<close> (start, wait, check) when every argument is a string and
    \<^verbatim>\<open>TypeError\<close> otherwise. A path is looked up as a whole, \<open>missing\<close> is
    the error for a path that is not there, and \<open>walk\<close> is the resolution of
    a path one component after the other, as the system does it. The lemmas
    characterise each call on every branch, show that each keeps \<open>wf_world\<close>,
    and that in a well-formed world looking up and walking agree
    (\<open>walk_lookup\<close>, \<open>os_chdir_walk\<close>, \<open>os_mkdir_walk\<close>).
  \<^item> \<open>Pack_Argparse\<close>: what \<^verbatim>\<open>parser.parse_args()\<close> of line 35 does for the
    parser of lines 32 to 34, following \<^verbatim>\<open>argparse.py\<close> of CPython 3.11
    function by function: the namespace \<open>args\<close>, the registered actions,
    \<open>parse_optional\<close> and \<open>classify\<close> for the pattern of the command line,
    \<open>match_arguments_partial\<close> for the positionals, the loop \<open>consume\<close> with
    \<open>consume_positionals\<close> and \<open>consume_optional\<close>, and \<open>parse_args\<close>. The
    description it is compared with is \<open>usage\<close>, built on \<open>judge\<close>, which reads
    one string on its own.
  \<^item> \<open>Pack_Arguments\<close>: \<open>parse_arguments\<close> for lines 31 to 35, and \<open>untyped\<close>,
    which takes a namespace of two strings to the namespace of values the
    parser returns for it.
  \<^item> \<open>Pack_Combinate\<close>: \<open>af_of\<close>, \<open>command\<close>, \<open>combinate_body\<close>, \<open>combinate_formats\<close>
    and \<open>combinate\<close> for lines 15 to 29, and the specification they are
    compared with (\<open>command_line\<close>, \<open>run_all\<close>, \<open>calls_made\<close>, \<open>verdict\<close>,
    \<open>planned\<close>, \<open>executed\<close>).
  \<^item> \<open>Pack_Main\<close>: \<open>main\<close> for lines 37 to 45, \<open>exit_status\<close> and \<open>script\<close> for lines
    47 and 48, and \<open>prepare\<close>, the three statements between parsing and
    \<open>combinate\<close>, with the world \<open>prepared\<close> that they lead to.
  \<^item> \<open>Pack_Machine\<close>: the job loop as the state machine of the description
    (\<open>phase\<close>, \<open>step\<close>, \<open>next_state\<close>, \<open>run_machine\<close>, \<open>reachable\<close>), whose transition
    out of \<open>Wait\<close> is \<open>run_child\<close>; its invariant \<open>machine_inv\<close>; and
    \<open>outcome_state\<close>, which reads a result of \<open>combinate\<close> as a terminal state.
    The lemmas show determinism, the invariant by induction over the reachable
    states, and that the machine ends where \<open>combinate\<close> ends.
  \<^item> \<open>Pack_Variants\<close>: the loops of \<^verbatim>\<open>combinate\<close> over a list instead of the
    iterator (\<open>combinate_list\<close>), and the loop over bit masks of the design
    notes (\<open>mask_select\<close>, \<open>mask_powerset\<close>, \<open>mask_jobs\<close>), both compared with
    the code.
  \<^item> \<open>Pack_Blocking\<close>: lines 15 to 29 and 37 to 48 once more for child processes
    that may never exit: statements that may not come back (\<open>waiting\<close>,
    \<open>bind_blocking\<close>, \<open>returns\<close>), \<open>subprocess_run_blocking\<close>, and with them
    \<open>for_iter_blocking\<close>, \<open>combinate_body_blocking\<close>, \<open>combinate_formats_blocking\<close>,
    \<open>combinate_blocking\<close>, \<open>main_blocking\<close> and \<open>script_blocking\<close>, written statement
    by statement as \<open>combinate\<close> and \<open>main\<close> are; and the run of a job list in
    such an environment (\<open>penv\<close>, \<open>run_all_blocking\<close>, \<open>answered_ok\<close>) that they
    are compared with.
  \<^item> \<open>Pack_Paths\<close>: line 40 to 43 on path strings. The functions of
    \<^verbatim>\<open>posixpath.py\<close> of CPython 3.11 (\<open>path_isabs\<close>, \<open>path_join\<close>, \<open>path_split\<close>,
    \<open>path_dirname\<close>, \<open>path_normpath\<close>, \<open>path_abspath\<close>, \<open>joinrealpath\<close>,
    \<open>path_realpath\<close>, \<open>path_exists\<close>, \<open>path_isdir\<close>) with the methods of \<^verbatim>\<open>str\<close>
    they use; the system calls on path strings (\<open>namei\<close>, \<open>posix_stat\<close>,
    \<open>posix_getcwd\<close>, \<open>posix_chdir\<close>, \<open>posix_mkdir\<close>), which resolve a path one
    name after the other with \<^verbatim>\<open>.\<close> and \<^verbatim>\<open>..\<close>; \<^verbatim>\<open>os.makedirs\<close> for any path
    (\<open>makedirs\<close>); and \<open>main_posix\<close> and \<open>script_posix\<close>, which are \<^verbatim>\<open>main\<close> and the
    script with \<^verbatim>\<open>__file__\<close> as a string. The lemmas show that \<open>path_realpath\<close>
    returns the \<open>location\<close> of the file written as an absolute path, that on
    such paths the functions on strings are those on lists of components of
    \<open>Pack_World\<close>, and that \<open>script_posix\<close> is \<open>script\<close> at the location of
    \<^verbatim>\<open>__file__\<close>.
  \<^item> This theory: the properties that need several components, which are the
    comparison of the code with the job list of the description, the
    distinctness of the archive names of a run, and a whole successful run.

  \<^bold>\<open>How state and effects correspond to the code.\<close> A Python statement is
  a function \<open>world \<Rightarrow> (py_error + 'a) \<times> world\<close>; a sequence of statements is
  \<open>bind_exec\<close>; an exception is \<open>Inl\<close> and ends the sequence with the world as
  it is at that point. The iterator that \<^verbatim>\<open>powerset\<close> returns is a value
  (\<open>Iterator\<close> of the items not yet yielded) that the loops pass on: the inner
  loop receives it, and what it leaves is what the next format receives. The
  child process is not modelled; \<open>env\<close> stands for any process, and theorems
  hold for every \<open>env\<close> unless they assume something of it. The integers are
  Python's unbounded ones (\<open>int\<close>), bitwise union is \<open>OR\<close> on \<open>int\<close>. The
  command line is an argument of \<open>parse_arguments\<close>, \<open>main\<close> and \<open>script\<close>, in
  place of \<^verbatim>\<open>sys.argv[1:]\<close>. In \<open>Pack_Main\<close> and the theories on it the
  parameter \<open>file\<close> of \<open>main\<close> is the list of components that
  \<^verbatim>\<open>os.path.realpath(__file__)\<close> leads to, and paths are such lists; in
  \<open>Pack_Paths\<close> the parameter is the string \<^verbatim>\<open>__file__\<close>, paths are strings,
  and \<open>script_posix_at_location\<close> carries every theorem about \<open>script\<close> over
  to \<open>script_posix\<close>. \<open>exit_status\<close> is the status the interpreter hands to
  the system; only 0, 1 and 2 arise. The attributes of the namespace are values
  (\<open>pyval\<close>), because the parser can leave a list where the script expects a
  string; the theorems about a run with two strings are stated for
  \<open>untyped a\<close>, the namespace of a record \<open>a\<close> of two strings.

  \<^bold>\<open>What is shown.\<close> \<open>combinate\<close> is exactly the sequential run, stopping at
  the first failure, of sixteen command lines, all of format \<^verbatim>\<open>tes4\<close>: the
  first pass of the inner loop uses the iterator up, and the passes for
  \<^verbatim>\<open>tes5\<close> and \<^verbatim>\<open>sse\<close> start nothing. The description of the tool counts
  forty-eight jobs; the code does the first third of them. Further: the log
  and result of a successful and of a failing run; that every process is
  started in \<^verbatim>\<open>bin\<close> beside the script; the exit status in each case
  (0, 2 for a usage error, 1 for any failure of a child, whatever its return
  code) and, in \<open>script_status\<close>, exactly when it is 0, 1 and 2; that \<^verbatim>\<open>bin\<close> being a file aborts the run after the first change of
  directory; that a path missing below a regular file is
  \<^verbatim>\<open>NotADirectoryError\<close> and any other missing path \<^verbatim>\<open>FileNotFoundError\<close>, as
  a walk from the root finds it; that \<^verbatim>\<open>os.path.realpath\<close> gives an absolute
  path without \<^verbatim>\<open>.\<close>, \<^verbatim>\<open>..\<close> and empty names whatever \<^verbatim>\<open>__file__\<close> is, and
  that the script over path strings is the script over lists of components
  at that place; preservation of \<open>wf_world\<close> (a lemma of each operation and
  of \<open>main\<close>); that the flag value determines the
  set of flags and the archive name determines format and flags, so that no
  job overwrites the archive of another; and that the state machine of the
  description, run on the sixteen jobs, keeps its invariant and ends, in at
  most 49 transitions and in no other way, in the state of the result of
  \<open>combinate\<close>. A second run after a successful one reuses \<^verbatim>\<open>bin\<close> and
  changes nothing but the log; \<open>main\<close> never removes an entry of the file
  system. With the combinations in a list the loops would run all
  forty-eight jobs, of which \<open>combinate\<close> is the beginning; the loop over bit
  masks yields the same combinations in another order. The recursive
  \<open>combinations\<close> is the list, in order, that the algorithm of the library
  yields. The run waits for ever exactly when it reaches a child that never
  exits, which it does when every child before it has exited with 0; the
  parser and the preparation of \<^verbatim>\<open>bin\<close> never wait. The
  parser is its description \<open>usage\<close> on every command line: the first request
  for help or rejected option before a \<^verbatim>\<open>--\<close> ends the script with status 0
  or 2 and nothing done; two strings fill the namespace; and on exactly the
  command lines \<^verbatim>\<open>-- B --\<close> and \<^verbatim>\<open>B -- --\<close> the attribute \<^verbatim>\<open>directory\<close> is
  the empty list, which ends the script with \<^verbatim>\<open>TypeError\<close> and status 1 at
  the first call of \<^verbatim>\<open>subprocess.run\<close>, after \<^verbatim>\<open>bin\<close> has been made.

  \<^bold>\<open>Bounds.\<close> The model of the script uses no fuel: every loop of the script
  runs over a finite list or iterator and is defined by structural recursion,
  and the digit loop of \<open>hex_upper\<close> terminates because its argument shrinks.
  The loop of \<^verbatim>\<open>itertools.combinations\<close> is a \<^verbatim>\<open>while True\<close>; it is
  defined as a partial function into \<open>option\<close> and proved to return \<open>Some\<close> for
  every input. Only \<open>run_machine\<close> takes fuel, the number of transitions: a
  job takes three (invoke, wait, continue) and the run one more, so
  \<open>3 * length cmds + 1\<close> are enough for any job list, which is 49 for the
  sixteen jobs of a run; it is proved that the machine is in a terminal state
  by then. The script sets no timeout on the child process. In all theories
  but \<open>Pack_Blocking\<close> the environment \<open>env\<close> always answers; there, a child
  that never exits is the answer \<open>None\<close>, and so is the result of the run.
  The loop of \<^verbatim>\<open>_joinrealpath\<close> ends because every round shortens the rest of
  the path, and \<open>makedirs\<close> because it calls itself on a shorter path.
  The loops of the parser are total functions: \<open>consume\<close> ends because every
  round shortens the pattern, \<open>consume_optional\<close> because every round
  shortens the string of joined short options. The parser is the one of
  CPython 3.11; other versions treat \<^verbatim>\<open>--\<close> and letters joined to \<^verbatim>\<open>-h\<close>
  differently. Characters are the 256 values of \<open>char\<close>, and the digits of the
  pattern for negative numbers are \<^verbatim>\<open>0\<close> to \<^verbatim>\<open>9\<close>.

  \<^bold>\<open>Not modelled.\<close> The archiver and the files it writes; the help and usage
  text that \<^verbatim>\<open>argparse\<close> prints (only the exit status is modelled) and
  characters outside the 256 of \<open>char\<close> in arguments; permissions and
  symbolic links (the file system of the model has none, so \<open>joinrealpath\<close>
  never follows one); paths of other systems than POSIX (\<^verbatim>\<open>ntpath\<close>); the
  reduction of an exit status to eight bits; signals and interruption. The
  functions on path strings were compared with Python 3.11 on Linux on
  generated paths and file systems; the examples of \<open>Pack_Paths\<close> are some of
  them.

  \<^bold>\<open>Plan.\<close> Still to come: symbolic links in the file system, so that
  \<open>joinrealpath\<close> has links to follow; and the patterns of \<^verbatim>\<open>argparse\<close> as
  regular expressions, compared with \<open>negative_number\<close> and \<open>match_groups\<close>.
\<close>

section \<open>The archive names of a run\<close>

definition archive_of :: "string list \<Rightarrow> string" where
  "archive_of cmd = cmd ! 3"

lemma archive_of_command [simp]: "archive_of (command_line a format af) = archive_name format af"
  by (simp add: archive_of_def command_line_def)

lemma concat_map_product:
  "concat (map (\<lambda>x. map (g x) ys) xs) = map (\<lambda>p. g (fst p) (snd p)) (List.product xs ys)"
  by (induction xs) (auto simp: comp_def)

lemma inj_on_archive_name:
  assumes "\<forall>f\<in>F. CHR ''_'' \<notin> set f"
  shows "inj_on (\<lambda>p. archive_name (fst p) (snd p)) (F \<times> A)"
proof (rule inj_onI)
  fix p q
  assume "p \<in> F \<times> A" and "q \<in> F \<times> A"
    and "archive_name (fst p) (snd p) = archive_name (fst q) (snd q)"
  with assms have "fst p = fst q \<and> snd p = snd q"
    by (intro archive_name_eq) auto
  then show "p = q" by (simp add: prod_eq_iff)
qed

lemma distinct_flag_combinations: "distinct flag_combinations"
  by (simp add: flag_combinations_eq)

lemma archive_of_planned:
  "map archive_of (planned a)
     = map (\<lambda>p. archive_name (fst p) (snd p))
         (List.product [''tes4'', ''tes5'', ''sse''] flag_combinations)"
  by (simp only: planned_def concat_map_product map_map comp_def archive_of_command)

section \<open>Properties\<close>

text \<open>
  C4. The description of the tool promises one child process for each of
  the three formats and each of the sixteen flag values, forty-eight in all.
  The code works through the first sixteen of them, the ones of format
  \<^verbatim>\<open>tes4\<close>: the command lines it starts are, in order and with none left
  out, a beginning of those sixteen, and it never starts more than sixteen
  processes.
\<close>

theorem executed_first_third_of_planned:
  "length (planned a) = 48 \<and> executed a = take 16 (planned a) \<and>
   prefix (map call_args (drop (length (log w)) (log (snd (combinate env (untyped a) w)))))
     (take 16 (planned a)) \<and>
   length (log (snd (combinate env (untyped a) w))) \<le> length (log w) + 16"
  using calls_made_length [of env "cwd w" "log w" "executed a"]
    calls_made_args [of env "cwd w" "log w" "executed a"]
  by (simp add: length_planned executed_planned [symmetric] combinate_calls_made length_executed)

text \<open>
  C36. No two of the forty-eight planned jobs write to the same archive, and
  so no two of the sixteen executed ones do, and no two of the child
  processes that \<open>combinate\<close> starts, however the run ends.
\<close>

theorem planned_archives_distinct:
  "distinct (map archive_of (planned a)) \<and> distinct (map archive_of (executed a)) \<and>
   distinct (map (\<lambda>c. archive_of (call_args c))
     (drop (length (log w)) (log (snd (combinate env (untyped a) w)))))"
proof -
  have inj: "inj_on (\<lambda>p. archive_name (fst p) (snd p))
      (set (List.product [''tes4'', ''tes5'', ''sse''] flag_combinations))"
    unfolding set_product by (rule inj_on_archive_name) simp
  have "distinct (List.product [''tes4'', ''tes5'', ''sse''] flag_combinations)"
    by (intro distinct_product distinct_flag_combinations) simp
  with inj have planned: "distinct (map archive_of (planned a))"
    by (simp only: archive_of_planned distinct_map simp_thms)
  then have "distinct (take 16 (map archive_of (planned a)))"
    by (rule distinct_take)
  then have executed: "distinct (map archive_of (executed a))"
    by (simp only: executed_planned take_map)
  define made where "made = calls_made env (cwd w) (log w) (executed a)"
  have "prefix (map call_args made) (executed a)"
    unfolding made_def by (rule calls_made_args)
  then obtain rest where "executed a = map call_args made @ rest"
    by (auto simp: prefix_def)
  with executed have "distinct (map archive_of (map call_args made))"
    by simp
  then have "distinct (map (\<lambda>c. archive_of (call_args c))
      (drop (length (log w)) (log (snd (combinate env (untyped a) w)))))"
    by (simp add: combinate_calls_made made_def comp_def)
  with planned executed show ?thesis by blast
qed

text \<open>
  C17. A whole run that goes well: with two arguments, the directory of the
  script in place and child processes that all exit with 0, the script ends
  with status 0, in the directory \<^verbatim>\<open>bin\<close> beside the script, having started
  the sixteen jobs there in order.
\<close>

theorem script_all_succeed:
  assumes "\<not> dashed b" and "\<not> dashed d"
    and "lookup w (dirname file) = Some Dir" and "lookup w (bin_dir file) \<noteq> Some File"
    and "\<And>h cmd. env h (bin_dir file) cmd = Exited 0"
  shows "script env file [b, d] w =
           (0, (prepared file w)\<lparr>log := log w @
                 map (succeeded (bin_dir file)) (executed \<lparr>bsarch = b, directory = d\<rparr>)\<rparr>)"
proof -
  from assms(1,2) have "parse_arguments [b, d] = Inr (untyped \<lparr>bsarch = b, directory = d\<rparr>)"
    by (rule parse_arguments_two)
  from main_prepared [OF this assms(3,4)] assms(5) show ?thesis
    by (simp add: script_def combinate_calls_made calls_made_all_succeed)
qed

theorem script_all_succeed_witness:
  "script (\<lambda>h d c. Exited 0) [''t'', ''p.py''] [''b'', ''d'']
     \<lparr>cwd = [], fs = [([], Dir), ([''t''], Dir), ([''t'', ''bin''], Dir)], log = []\<rparr>
   = (0, \<lparr>cwd = [''t'', ''bin''], fs = [([], Dir), ([''t''], Dir), ([''t'', ''bin''], Dir)],
          log = map (succeeded [''t'', ''bin'']) (executed \<lparr>bsarch = ''b'', directory = ''d''\<rparr>)\<rparr>)"
  by (simp add: script_all_succeed dashed_def lookup_def dirname_def bin_dir_def prepared_def)

end
